theory Spec2Isabelle
  imports Complex_Main
begin

section \<open>JavaScript strings and arrays\<close>

text \<open>
  Words are ASCII strings. \<open>toUpperCase\<close> maps the letters a..z to A..Z and leaves every
  other character alone; \<open>trim\<close> removes the ASCII white space (tab, line feed, vertical tab,
  form feed, carriage return, space) from both ends. Reading an array beyond its length
  gives \<open>undefined\<close> in JavaScript, which is \<open>None\<close> here.
\<close>

definition upperChar :: "char \<Rightarrow> char" where
  "upperChar c =
     (let n = (of_char c :: nat) in if 97 \<le> n \<and> n \<le> 122 then char_of (n - 32) else c)"

definition toUpperCase :: "string \<Rightarrow> string" where
  "toUpperCase s = map upperChar s"

definition isSpace :: "char \<Rightarrow> bool" where
  "isSpace c = ((of_char c :: nat) \<in> {9, 10, 11, 12, 13, 32})"

definition trim :: "string \<Rightarrow> string" where
  "trim s = rev (dropWhile isSpace (rev (dropWhile isSpace s)))"

definition elemAt :: "'a list \<Rightarrow> nat \<Rightarrow> 'a option" where
  "elemAt xs i = (if i < length xs then Some (xs ! i) else None)"

definition charAt :: "string \<Rightarrow> nat \<Rightarrow> char option" where
  "charAt s i = elemAt s i"

definition isUpperWord :: "string \<Rightarrow> bool" where
  "isUpperWord w = list_all (\<lambda>c. 65 \<le> (of_char c :: nat) \<and> (of_char c :: nat) \<le> 90) w"

text \<open>
  What a call can throw instead of returning: a \<open>TypeError\<close> of the language (reading a
  property of \<open>undefined\<close> or \<open>null\<close>), and the error of Prisma for a row that is not
  there.
\<close>

datatype failure = TypeError | RecordNotFound

text \<open>
  Reading \<open>obj[key]\<close> on an object that \<open>JSON.parse\<close> built. The object is the list of its
  own keys with their values, in insertion order. A key that is not its own is looked up in
  \<open>Object.prototype\<close>, whose properties are the twelve below: their values are functions
  (for \<open>__proto__\<close> the prototype object itself), so they are truthy, and none of them has
  any property of a player. Any other key reads as \<open>undefined\<close>.
\<close>

definition OBJECT_PROTOTYPE_KEYS :: "string list" where
  "OBJECT_PROTOTYPE_KEYS =
     [''constructor'', ''__defineGetter__'', ''__defineSetter__'', ''hasOwnProperty'',
      ''__lookupGetter__'', ''__lookupSetter__'', ''isPrototypeOf'', ''propertyIsEnumerable'',
      ''toString'', ''valueOf'', ''__proto__'', ''toLocaleString'']"

datatype 'a property = Own 'a | Inherited | Undefined

definition getProperty :: "(string \<times> 'a) list \<Rightarrow> string \<Rightarrow> 'a property" where
  "getProperty obj k =
     (case map_of obj k of
        Some v \<Rightarrow> Own v
      | None \<Rightarrow> if k \<in> set OBJECT_PROTOTYPE_KEYS then Inherited else Undefined)"

section \<open>WordService\<close>

datatype color = Green | Yellow | Grey

record tile =
  letter :: "char option"
  color :: color

text \<open>
  The dictionaries after \<open>initialize\<close>: \<open>answers\<close> is the upper-cased answer file, and
  \<open>validGuesses\<close> is the JavaScript \<open>Set\<close> built from the upper-cased guess file followed by
  the answers, kept as the list of its elements in insertion order. The socket handlers are
  set up after \<open>initialize\<close> has returned, so the service is initialised in every call
  below.
\<close>

record dictionary =
  answers :: "string list"
  validGuesses :: "string list"

fun insertAll :: "'a list \<Rightarrow> 'a list \<Rightarrow> 'a list" where
  "insertAll acc [] = acc"
| "insertAll acc (x # xs) = insertAll (if x \<in> set acc then acc else acc @ [x]) xs"

definition initialize :: "string list \<Rightarrow> string list \<Rightarrow> dictionary" where
  "initialize answersFile guessesFile =
     (let ans = map toUpperCase answersFile;
          guesses = map toUpperCase guessesFile
      in \<lparr>answers = ans, validGuesses = insertAll [] (guesses @ ans)\<rparr>)"

definition isValidGuess :: "dictionary \<Rightarrow> string \<Rightarrow> bool" where
  "isValidGuess d word = (toUpperCase word \<in> set (validGuesses d))"

definition isCorrectGuess :: "string \<Rightarrow> string \<Rightarrow> bool" where
  "isCorrectGuess guess target = (toUpperCase guess = toUpperCase target)"

text \<open>
  \<open>evaluateGuess\<close>: the two arrays \<open>result\<close> (five cells, \<open>null\<close> at first) and \<open>matched\<close>
  (five flags) are the state of both loops; the inner loop with its \<open>break\<close> looks for the
  first index \<open>j\<close> in \<open>0..4\<close> that is unmatched and holds the letter.
\<close>

type_synonym evalState = "tile option list \<times> bool list"

definition markGreen :: "string \<Rightarrow> string \<Rightarrow> nat \<Rightarrow> evalState \<Rightarrow> evalState" where
  "markGreen guessLetters targetLetters i st =
     (case st of (result, matched) \<Rightarrow>
        if charAt guessLetters i = charAt targetLetters i
        then (result[i := Some \<lparr>letter = charAt guessLetters i, color = Green\<rparr>],
              matched[i := True])
        else (result, matched))"

definition markRest :: "string \<Rightarrow> string \<Rightarrow> nat \<Rightarrow> evalState \<Rightarrow> evalState" where
  "markRest guessLetters targetLetters i st =
     (case st of (result, matched) \<Rightarrow>
        if result ! i \<noteq> None then (result, matched)
        else
          (case find (\<lambda>j. \<not> matched ! j \<and> charAt guessLetters i = charAt targetLetters j)
                  [0..<5] of
             Some j \<Rightarrow>
               (result[i := Some \<lparr>letter = charAt guessLetters i, color = Yellow\<rparr>],
                matched[j := True])
           | None \<Rightarrow>
               (result[i := Some \<lparr>letter = charAt guessLetters i, color = Grey\<rparr>],
                matched)))"

definition evaluateGuess :: "string \<Rightarrow> string \<Rightarrow> tile option list" where
  "evaluateGuess guess target =
     (let guessLetters = toUpperCase guess;
          targetLetters = toUpperCase target;
          st0 = (replicate 5 None, replicate 5 False);
          st1 = fold (markGreen guessLetters targetLetters) [0..<5] st0;
          st2 = fold (markRest guessLetters targetLetters) [0..<5] st1
      in fst st2)"

text \<open>
  The evaluation rule in the words of the specification. A set of consumed target
  positions is threaded through the second pass; a position that is green in the first
  pass stays green, any other position is yellow iff some unconsumed target position holds
  its letter, and then the leftmost such position is consumed.
\<close>

definition greenAt :: "string \<Rightarrow> string \<Rightarrow> nat \<Rightarrow> bool" where
  "greenAt g t i = (charAt g i = charAt t i)"

definition leftmostUnconsumed :: "string \<Rightarrow> nat set \<Rightarrow> char option \<Rightarrow> nat option" where
  "leftmostUnconsumed t consumed c = find (\<lambda>j. j \<notin> consumed \<and> c = charAt t j) [0..<5]"

fun secondPassRule :: "string \<Rightarrow> string \<Rightarrow> nat set \<Rightarrow> nat list \<Rightarrow> color list" where
  "secondPassRule g t consumed [] = []"
| "secondPassRule g t consumed (i # rest) =
     (if greenAt g t i then Green # secondPassRule g t consumed rest
      else (case leftmostUnconsumed t consumed (charAt g i) of
              Some j \<Rightarrow> Yellow # secondPassRule g t (insert j consumed) rest
            | None \<Rightarrow> Grey # secondPassRule g t consumed rest))"

definition twoPassRule :: "string \<Rightarrow> string \<Rightarrow> color list" where
  "twoPassRule g t = secondPassRule g t (set (filter (greenAt g t) [0..<5])) [0..<5]"

definition nonGreyCount :: "tile option list \<Rightarrow> char \<Rightarrow> nat" where
  "nonGreyCount ev L =
     length (filter (\<lambda>e. case e of None \<Rightarrow> False
                         | Some x \<Rightarrow> letter x = Some L \<and> color x \<noteq> Grey) ev)"

text \<open>The unconsumed target positions that hold a letter.\<close>

definition avail :: "string \<Rightarrow> nat set \<Rightarrow> char \<Rightarrow> nat" where
  "avail t C L = length (filter (\<lambda>j. j \<notin> C \<and> charAt t j = Some L) [0..<5])"

section \<open>The Redis store (config/redis.js)\<close>

text \<open>
  Redis is the environment of the server. Its two families of keys are modelled as two
  maps from the game id: \<open>game:<id>\<close> holds the serialised game state and
  \<open>game:<id>:winner\<close> the win lock (game ids are UUIDs, so the two families do not
  overlap). Every value carries the time in milliseconds at which it expires; a key is
  read as absent once the clock has passed that time. \<open>SETEX\<close> overwrites, and
  \<open>SET NX EX\<close> writes only when the key is absent. Values are stored as JSON text, so
  what is read back is a copy of what was written. \<open>now\<close> is the clock at the call.
\<close>

datatype status = Waiting | Active | Finished

record guessRecord =
  word :: string
  evaluation :: "tile option list"
  timestamp :: nat
  guessNumber :: nat

record player =
  playerId :: string
  username :: string
  elo :: int
  socketId :: "string option"
  guesses :: "guessRecord list"
  isBot :: bool
  botDifficulty :: "string option"

datatype replayEntry =
    GuessEntry string guessRecord
  | ForfeitEntry string nat

record game =
  gameId :: string
  targetWord :: string
  status :: status
  startTime :: nat
  players :: "(string \<times> player) list"
  replayLog :: "replayEntry list"
  winner :: "string option"
  endTime :: "nat option"

record winLock =
  lockPlayerId :: string
  lockTimestamp :: nat

record redis =
  gameKeys :: "string \<rightharpoonup> (game \<times> nat)"
  winnerKeys :: "string \<rightharpoonup> (winLock \<times> nat)"

definition live :: "nat \<Rightarrow> ('a \<times> nat) option \<Rightarrow> 'a option" where
  "live now entry =
     (case entry of
        None \<Rightarrow> None
      | Some (v, expiry) \<Rightarrow> if now \<le> expiry then Some v else None)"

definition setGameState :: "redis \<Rightarrow> nat \<Rightarrow> string \<Rightarrow> game \<Rightarrow> nat \<Rightarrow> redis" where
  "setGameState r now gid state ttlSeconds =
     r\<lparr>gameKeys := (gameKeys r)(gid \<mapsto> (state, now + ttlSeconds * 1000))\<rparr>"

definition getGameState :: "redis \<Rightarrow> nat \<Rightarrow> string \<Rightarrow> game option" where
  "getGameState r now gid = live now (gameKeys r gid)"

definition acquireWinLock :: "redis \<Rightarrow> nat \<Rightarrow> string \<Rightarrow> string \<Rightarrow> bool \<times> redis" where
  "acquireWinLock r now gid pid =
     (case live now (winnerKeys r gid) of
        None \<Rightarrow>
          (True, r\<lparr>winnerKeys := (winnerKeys r)
                     (gid \<mapsto> (\<lparr>lockPlayerId = pid, lockTimestamp = now\<rparr>, now + 60 * 1000))\<rparr>)
      | Some held \<Rightarrow> (False, r))"

definition getWinner :: "redis \<Rightarrow> nat \<Rightarrow> string \<Rightarrow> winLock option" where
  "getWinner r now gid = live now (winnerKeys r gid)"

section \<open>GameService\<close>

definition MAX_GUESSES :: nat where
  "MAX_GUESSES = 6"

record winnerInfo =
  wiPlayerId :: string
  wiGuessCount :: nat
  wiTimeMs :: int

record guessSuccess =
  resGuess :: guessRecord
  resIsCorrect :: bool
  resGameEnded :: bool
  resWinner :: "winnerInfo option"
  resRemainingGuesses :: int

text \<open>
  What \<open>processGuess\<close> gives back: \<open>{success: false, error}\<close>, an exception, or the record of
  the accepted guess.
\<close>

datatype guessResult = Failure string | Thrown failure | Success guessSuccess

text \<open>
  The checks of \<open>processGuess\<close> up to the first mutation, in the order of the source; the
  guess is already normalised (\<open>toUpperCase().trim()\<close>). \<open>Inl\<close> carries what the call gives
  back when it ends there. \<open>player\<close> is \<open>game.players[playerId]\<close>: for an inherited key it is
  truthy, so the test \<open>!player\<close> lets it pass, and \<open>player.guesses\<close> is \<open>undefined\<close>, so
  that reading \<open>player.guesses.length\<close> throws.
\<close>

definition validateGuess ::
  "dictionary \<Rightarrow> game option \<Rightarrow> string \<Rightarrow> string \<Rightarrow> guessResult + (game \<times> player)" where
  "validateGuess d stored pid guess =
     (case stored of
        None \<Rightarrow> Inl (Failure ''Game not found'')
      | Some g \<Rightarrow>
          if status g \<noteq> Active then Inl (Failure ''Game is not active'')
          else
            (case getProperty (players g) pid of
               Undefined \<Rightarrow> Inl (Failure ''Player not in game'')
             | Inherited \<Rightarrow>
                 if length guess \<noteq> 5 then Inl (Failure ''Guess must be 5 letters'')
                 else if \<not> isValidGuess d guess then Inl (Failure ''Not a valid word'')
                 else Inl (Thrown TypeError)
             | Own p \<Rightarrow>
                 if length guess \<noteq> 5 then Inl (Failure ''Guess must be 5 letters'')
                 else if \<not> isValidGuess d guess then Inl (Failure ''Not a valid word'')
                 else if length (guesses p) \<ge> MAX_GUESSES
                 then Inl (Failure ''No guesses remaining'')
                 else Inr (g, p)))"

definition pushGuess :: "string \<Rightarrow> guessRecord \<Rightarrow> (string \<times> player) list \<Rightarrow> (string \<times> player) list" where
  "pushGuess pid rec ps =
     map (\<lambda>(k, p). if k = pid then (k, p\<lparr>guesses := guesses p @ [rec]\<rparr>) else (k, p)) ps"

definition recordGuess :: "game \<Rightarrow> string \<Rightarrow> player \<Rightarrow> string \<Rightarrow> nat \<Rightarrow> game \<times> guessRecord" where
  "recordGuess g pid p guess ts =
     (let rec = \<lparr>word = guess,
                 evaluation = evaluateGuess guess (targetWord g),
                 timestamp = ts,
                 guessNumber = length (guesses p) + 1\<rparr>
      in (g\<lparr>players := pushGuess pid rec (players g),
            replayLog := replayLog g @ [GuessEntry pid rec]\<rparr>, rec))"

definition claimWin :: "game \<Rightarrow> string \<Rightarrow> nat \<Rightarrow> game" where
  "claimWin g pid ts = g\<lparr>status := Finished, winner := Some pid, endTime := Some ts\<rparr>"

definition adoptWinner :: "game \<Rightarrow> winLock \<Rightarrow> game" where
  "adoptWinner g w =
     g\<lparr>status := Finished, winner := Some (lockPlayerId w), endTime := Some (lockTimestamp w)\<rparr>"

definition allPlayersExhausted :: "game \<Rightarrow> bool" where
  "allPlayersExhausted g = list_all (\<lambda>(k, p). length (guesses p) \<ge> MAX_GUESSES) (players g)"

definition finishIfExhausted :: "game \<Rightarrow> nat \<Rightarrow> bool \<Rightarrow> game \<times> bool" where
  "finishIfExhausted g ts gameEnded =
     (if \<not> gameEnded \<and> allPlayersExhausted g
      then (g\<lparr>status := Finished, winner := None, endTime := Some ts\<rparr>, True)
      else (g, gameEnded))"

definition successResult :: "guessRecord \<Rightarrow> bool \<Rightarrow> bool \<Rightarrow> winnerInfo option \<Rightarrow> guessResult" where
  "successResult rec isCorrect gameEnded wi =
     Success \<lparr>resGuess = rec, resIsCorrect = isCorrect, resGameEnded = gameEnded,
              resWinner = wi,
              resRemainingGuesses = int MAX_GUESSES - int (guessNumber rec)\<rparr>"

text \<open>
  \<open>processGuess\<close> run without interruption: every store operation and every
  \<open>Date.now()\<close> of the call sees the same clock value \<open>now\<close>. After the push the player
  has \<open>guessNumber rec\<close> guesses, which is what \<open>player.guesses.length\<close> reads from then on.
\<close>

definition processGuess ::
  "dictionary \<Rightarrow> redis \<Rightarrow> nat \<Rightarrow> string \<Rightarrow> string \<Rightarrow> string \<Rightarrow> guessResult \<times> redis" where
  "processGuess d r now gid pid rawGuess =
     (let guess = trim (toUpperCase rawGuess) in
      case validateGuess d (getGameState r now gid) pid guess of
        Inl res \<Rightarrow> (res, r)
      | Inr (g, p) \<Rightarrow>
          (let isCorrect = isCorrectGuess guess (targetWord g);
               ts = now;
               (g1, rec) = recordGuess g pid p guess ts;
               (r1, g2, gameEnded, wi) =
                 (if isCorrect then
                    (case acquireWinLock r now gid pid of
                       (True, r') \<Rightarrow>
                         (r', claimWin g1 pid ts, True,
                          Some \<lparr>wiPlayerId = pid, wiGuessCount = guessNumber rec,
                                wiTimeMs = int ts - int (startTime g1)\<rparr>)
                     | (False, r') \<Rightarrow>
                         (case getWinner r' now gid of
                            Some w \<Rightarrow> (r', adoptWinner g1 w, True, None)
                          | None \<Rightarrow> (r', g1, False, None)))
                  else (r, g1, False, None));
               (g3, ended) = finishIfExhausted g2 ts gameEnded
           in (successResult rec isCorrect ended wi, setGameState r1 now gid g3 3600)))"

definition forfeitGame :: "redis \<Rightarrow> nat \<Rightarrow> string \<Rightarrow> string \<Rightarrow> game option \<times> redis" where
  "forfeitGame r now gid forfeitPlayerId =
     (case getGameState r now gid of
        None \<Rightarrow> (None, r)
      | Some g \<Rightarrow>
          if status g \<noteq> Active then (None, r)
          else
            (let winnerId = find (\<lambda>k. k \<noteq> forfeitPlayerId) (map fst (players g));
                 g' = g\<lparr>status := Finished, winner := winnerId, endTime := Some now,
                        replayLog := replayLog g @ [ForfeitEntry forfeitPlayerId now]\<rparr>
             in (Some g', setGameState r now gid g' 3600)))"

section \<open>Interleaved processGuess calls\<close>

text \<open>
  \<open>processGuess\<close> gives up control at each \<open>await\<close>: at \<open>getGame\<close>, at
  \<open>acquireWinLock\<close>, at \<open>getWinner\<close> and at \<open>setGameState\<close>. Between two of them the
  call runs alone, and each store operation is atomic in Redis. A call in flight is
  therefore in one of the states below, holding its local variables (its private copy of
  the game among them), and \<open>callStep\<close> performs the pending store operation together with
  the code that follows it up to the next \<open>await\<close>. \<open>timestamp rec\<close> is the local
  \<open>timestamp\<close>.
\<close>

datatype call =
    Loading string string string
  | Claiming string string game guessRecord
  | ReadingWinner string string game guessRecord
  | Writing string game guessResult
  | Returned guessResult

definition callStep :: "dictionary \<Rightarrow> nat \<Rightarrow> redis \<Rightarrow> call \<Rightarrow> redis \<times> call" where
  "callStep d now r c =
     (case c of
        Loading gid pid rawGuess \<Rightarrow>
          (let guess = trim (toUpperCase rawGuess) in
           case validateGuess d (getGameState r now gid) pid guess of
             Inl res \<Rightarrow> (r, Returned res)
           | Inr (g, p) \<Rightarrow>
               (let (g1, rec) = recordGuess g pid p guess now in
                if isCorrectGuess guess (targetWord g) then (r, Claiming gid pid g1 rec)
                else
                  (let (g3, ended) = finishIfExhausted g1 now False
                   in (r, Writing gid g3 (successResult rec False ended None)))))
      | Claiming gid pid g1 rec \<Rightarrow>
          (case acquireWinLock r now gid pid of
             (True, r') \<Rightarrow>
               (r', Writing gid (claimWin g1 pid (timestamp rec))
                      (successResult rec True True
                         (Some \<lparr>wiPlayerId = pid, wiGuessCount = guessNumber rec,
                                wiTimeMs = int (timestamp rec) - int (startTime g1)\<rparr>)))
           | (False, r') \<Rightarrow> (r', ReadingWinner gid pid g1 rec))
      | ReadingWinner gid pid g1 rec \<Rightarrow>
          (case getWinner r now gid of
             Some w \<Rightarrow> (r, Writing gid (adoptWinner g1 w) (successResult rec True True None))
           | None \<Rightarrow>
               (let (g3, ended) = finishIfExhausted g1 (timestamp rec) False
                in (r, Writing gid g3 (successResult rec True ended None))))
      | Writing gid g res \<Rightarrow> (setGameState r now gid g 3600, Returned res)
      | Returned res \<Rightarrow> (r, Returned res))"

text \<open>
  The server: a clock that never runs backwards, the store, and the calls in flight. A
  step lets time pass, accepts a new call, or resumes one of the calls. Only
  \<open>processGuess\<close> calls act on the store here; \<open>createGame\<close>, \<open>forfeitGame\<close> and
  \<open>cleanupGame\<close> are not among the steps.
\<close>

record server =
  clock :: nat
  store :: redis
  calls :: "call list"

inductive step :: "dictionary \<Rightarrow> server \<Rightarrow> server \<Rightarrow> bool" for d :: dictionary where
  tick: "clock s \<le> t \<Longrightarrow> step d s (s\<lparr>clock := t\<rparr>)"
| invoke: "step d s (s\<lparr>calls := calls s @ [Loading gid pid rawGuess]\<rparr>)"
| resume: "i < length (calls s) \<Longrightarrow> callStep d (clock s) (store s) (calls s ! i) = (r', c')
            \<Longrightarrow> step d s (s\<lparr>store := r', calls := (calls s)[i := c']\<rparr>)"

inductive reach :: "dictionary \<Rightarrow> server \<Rightarrow> server \<Rightarrow> bool" for d :: dictionary where
  here: "reach d s s"
| later: "reach d s s' \<Longrightarrow> step d s' s'' \<Longrightarrow> reach d s s''"

text \<open>What a call in flight holds for a match: its private copy of the game, if any.\<close>

fun localGame :: "string \<Rightarrow> call \<Rightarrow> game option" where
  "localGame gid (Loading gid' pid rawGuess) = None"
| "localGame gid (Claiming gid' pid g rec) = (if gid' = gid then Some g else None)"
| "localGame gid (ReadingWinner gid' pid g rec) = (if gid' = gid then Some g else None)"
| "localGame gid (Writing gid' g res) = (if gid' = gid then Some g else None)"
| "localGame gid (Returned res) = None"

fun isReadingWinner :: "string \<Rightarrow> call \<Rightarrow> bool" where
  "isReadingWinner gid (ReadingWinner gid' pid g rec) = (gid' = gid)"
| "isReadingWinner gid c = False"

definition winnerOfLocal :: "string \<Rightarrow> call \<Rightarrow> string option" where
  "winnerOfLocal gid c = (case localGame gid c of None \<Rightarrow> None | Some g \<Rightarrow> winner g)"

definition recordedWinner :: "redis \<Rightarrow> string \<Rightarrow> string option" where
  "recordedWinner r gid = (case gameKeys r gid of None \<Rightarrow> None | Some (g, expiry) \<Rightarrow> winner g)"

text \<open>
  A server state in which nobody has claimed the match yet: no win lock in the store, no
  winner in the stored game nor in any private copy, and no call past a refused claim.
\<close>

definition unclaimed :: "string \<Rightarrow> server \<Rightarrow> bool" where
  "unclaimed gid s =
     (winnerKeys (store s) gid = None \<and> recordedWinner (store s) gid = None \<and>
      list_all (\<lambda>c. winnerOfLocal gid c = None \<and> \<not> isReadingWinner gid c) (calls s))"

definition slotHas :: "game \<Rightarrow> string \<Rightarrow> guessRecord \<Rightarrow> bool" where
  "slotHas g pid rec =
     (case map_of (players g) pid of None \<Rightarrow> False | Some p \<Rightarrow> rec \<in> set (guesses p))"

definition guessRecorded :: "game \<Rightarrow> string \<Rightarrow> guessRecord \<Rightarrow> bool" where
  "guessRecorded g pid rec = (slotHas g pid rec \<and> GuessEntry pid rec \<in> set (replayLog g))"

fun guessKept :: "call \<Rightarrow> bool" where
  "guessKept (Claiming gid pid g rec) = guessRecorded g pid rec"
| "guessKept (ReadingWinner gid pid g rec) = guessRecorded g pid rec"
| "guessKept c = True"

text \<open>
  The winners that may be written down for a match, given its win lock: nobody while the
  lock is absent, nobody or the holder once it is there.
\<close>

definition allowed :: "redis \<Rightarrow> string \<Rightarrow> string option \<Rightarrow> bool" where
  "allowed r gid x =
     (case winnerKeys r gid of
        None \<Rightarrow> x = None
      | Some (w, expiry) \<Rightarrow> x = None \<or> x = Some (lockPlayerId w))"

definition claimInvariant :: "string \<Rightarrow> nat \<Rightarrow> server \<Rightarrow> bool" where
  "claimInvariant gid t0 s =
     (t0 \<le> clock s \<and>
      (\<forall>w expiry. winnerKeys (store s) gid = Some (w, expiry) \<longrightarrow> t0 + 60000 \<le> expiry) \<and>
      allowed (store s) gid (recordedWinner (store s) gid) \<and>
      (\<forall>c \<in> set (calls s).
          allowed (store s) gid (winnerOfLocal gid c) \<and>
          (isReadingWinner gid c \<longrightarrow> winnerKeys (store s) gid \<noteq> None) \<and>
          guessKept c))"

text \<open>What one resumed call leaves behind, for the match \<open>gid\<close>.\<close>

definition keeps :: "string \<Rightarrow> nat \<Rightarrow> redis \<Rightarrow> redis \<Rightarrow> call \<Rightarrow> bool" where
  "keeps gid t0 r r' c' =
     ((winnerKeys r' gid = winnerKeys r gid \<or> winnerKeys r gid = None)
        \<and> (\<forall>w e. winnerKeys r' gid = Some (w, e) \<longrightarrow> t0 + 60000 \<le> e)
        \<and> allowed r' gid (recordedWinner r' gid)
        \<and> allowed r' gid (winnerOfLocal gid c')
        \<and> (isReadingWinner gid c' \<longrightarrow> winnerKeys r' gid \<noteq> None)
        \<and> guessKept c')"

text \<open>The server after call number \<open>i\<close> has been resumed.\<close>

definition resumeCall :: "dictionary \<Rightarrow> nat \<Rightarrow> server \<Rightarrow> server" where
  "resumeCall d i s =
     (case callStep d (clock s) (store s) (calls s ! i) of
        (r', c') \<Rightarrow> s\<lparr>store := r', calls := (calls s)[i := c']\<rparr>)"

text \<open>The server after the clock has moved to \<open>t\<close>, and after a new call has arrived.\<close>

definition tickTo :: "nat \<Rightarrow> server \<Rightarrow> server" where
  "tickTo t s = s\<lparr>clock := t\<rparr>"

definition invokeCall :: "string \<Rightarrow> string \<Rightarrow> string \<Rightarrow> server \<Rightarrow> server" where
  "invokeCall gid pid rawGuess s = s\<lparr>calls := calls s @ [Loading gid pid rawGuess]\<rparr>"

text \<open>A call run to its end without interruption: its four steps at one clock value.\<close>

definition runCall :: "dictionary \<Rightarrow> nat \<Rightarrow> redis \<Rightarrow> call \<Rightarrow> redis \<times> call" where
  "runCall d now r c =
     (let (r1, c1) = callStep d now r c;
          (r2, c2) = callStep d now r1 c1;
          (r3, c3) = callStep d now r2 c2
      in callStep d now r3 c3)"

section \<open>EloService\<close>

text \<open>
  JavaScript numbers are IEEE doubles; the rating arithmetic is modelled in the real
  numbers, of which the doubles are an approximation. \<open>Math.round\<close> rounds to the nearest
  integer, a half upwards. Ratings are integers, as the \<open>elo\<close> column is.
\<close>

definition K_FACTOR :: real where
  "K_FACTOR = 32"

definition MIN_RATING :: int where
  "MIN_RATING = 100"

definition SCALE_FACTOR :: real where
  "SCALE_FACTOR = 400"

definition jsRound :: "real \<Rightarrow> int" where
  "jsRound x = \<lfloor>x + 1 / 2\<rfloor>"

definition calculateExpectedScore :: "int \<Rightarrow> int \<Rightarrow> real" where
  "calculateExpectedScore playerRating opponentRating =
     (let exponent = (real_of_int opponentRating - real_of_int playerRating) / SCALE_FACTOR
      in 1 / (1 + 10 powr exponent))"

definition calculateNewRating :: "int \<Rightarrow> real \<Rightarrow> real \<Rightarrow> real \<Rightarrow> int" where
  "calculateNewRating currentRating expectedScore actualScore kFactor =
     (let ratingDelta = kFactor * (actualScore - expectedScore);
          unrounded = real_of_int currentRating + ratingDelta
      in max (jsRound unrounded) MIN_RATING)"

record ratingChange =
  oldRating :: int
  newRating :: int
  delta :: int

record matchRatings =
  ratingsWinner :: ratingChange
  ratingsLoser :: ratingChange

definition calculateMatchResult :: "int \<Rightarrow> int \<Rightarrow> matchRatings" where
  "calculateMatchResult winnerRating loserRating =
     (let winnerExpected = calculateExpectedScore winnerRating loserRating;
          loserExpected = calculateExpectedScore loserRating winnerRating;
          winnerNewRating = calculateNewRating winnerRating winnerExpected 1 K_FACTOR;
          loserNewRating = calculateNewRating loserRating loserExpected 0 K_FACTOR
      in \<lparr>ratingsWinner = \<lparr>oldRating = winnerRating, newRating = winnerNewRating,
                            delta = winnerNewRating - winnerRating\<rparr>,
          ratingsLoser = \<lparr>oldRating = loserRating, newRating = loserNewRating,
                           delta = loserNewRating - loserRating\<rparr>\<rparr>)"

text \<open>
  The persistent store behind Prisma: the user rows by id and the match rows. An update
  of a missing row throws, and the transaction then leaves the database as it was.
\<close>

record userRow =
  userElo :: int
  wins :: nat
  losses :: nat
  gamesPlayed :: nat

record matchRow =
  rowWinnerId :: "string option"
  rowLoserId :: "string option"
  winnerEloBefore :: int
  winnerEloAfter :: int
  loserEloBefore :: int
  loserEloAfter :: int
  rowTargetWord :: string
  rowReplayLog :: "replayEntry list"
  durationMs :: int
  isBotMatch :: bool
  rowBotDifficulty :: "string option"

record database =
  users :: "string \<rightharpoonup> userRow"
  matches :: "matchRow list"

datatype eloResult = PvpResult matchRatings | BotResult ratingChange

definition updateRatingsAfterMatch ::
  "database \<Rightarrow> string \<Rightarrow> string \<Rightarrow> int \<Rightarrow> int \<Rightarrow> string \<Rightarrow> replayEntry list \<Rightarrow> int
     \<Rightarrow> failure + (eloResult \<times> database)" where
  "updateRatingsAfterMatch db winnerId loserId winnerRating loserRating target replay duration =
     (let ratingResult = calculateMatchResult winnerRating loserRating in
      case users db winnerId of
        None \<Rightarrow> Inl RecordNotFound
      | Some w \<Rightarrow>
          (let users1 = (users db)(winnerId \<mapsto>
                 w\<lparr>userElo := newRating (ratingsWinner ratingResult),
                   wins := wins w + 1, gamesPlayed := gamesPlayed w + 1\<rparr>)
           in case users1 loserId of
                None \<Rightarrow> Inl RecordNotFound
              | Some l \<Rightarrow>
                  (let users2 = users1(loserId \<mapsto>
                         l\<lparr>userElo := newRating (ratingsLoser ratingResult),
                           losses := losses l + 1, gamesPlayed := gamesPlayed l + 1\<rparr>);
                       row = \<lparr>rowWinnerId = Some winnerId, rowLoserId = Some loserId,
                              winnerEloBefore = winnerRating,
                              winnerEloAfter = newRating (ratingsWinner ratingResult),
                              loserEloBefore = loserRating,
                              loserEloAfter = newRating (ratingsLoser ratingResult),
                              rowTargetWord = target, rowReplayLog = replay,
                              durationMs = duration, isBotMatch = False,
                              rowBotDifficulty = None\<rparr>
                   in Inr (PvpResult ratingResult,
                           db\<lparr>users := users2, matches := matches db @ [row]\<rparr>))))"

definition BOT_RATINGS :: "string \<rightharpoonup> int" where
  "BOT_RATINGS = [''easy'' \<mapsto> 800, ''medium'' \<mapsto> 1100, ''hard'' \<mapsto> 1400, ''impossible'' \<mapsto> 1800]"

definition updateRatingAfterBotMatch ::
  "database \<Rightarrow> string \<Rightarrow> int \<Rightarrow> bool \<Rightarrow> string option \<Rightarrow> string \<Rightarrow> replayEntry list \<Rightarrow> int
     \<Rightarrow> failure + (eloResult \<times> database)" where
  "updateRatingAfterBotMatch db pid playerRating playerWon difficulty target replay duration =
     (let botRating =
            (case (case difficulty of None \<Rightarrow> None | Some dif \<Rightarrow> BOT_RATINGS dif) of
               Some b \<Rightarrow> b
             | None \<Rightarrow> 1100);
          botMatchKFactor = K_FACTOR * (1 / 2);
          expectedScore = calculateExpectedScore playerRating botRating;
          actualScore = (if playerWon then 1 else 0);
          newR = calculateNewRating playerRating expectedScore actualScore botMatchKFactor;
          ratingDelta = newR - playerRating
      in case users db pid of
           None \<Rightarrow> Inl RecordNotFound
         | Some u \<Rightarrow>
             (let u' = u\<lparr>userElo := newR,
                         wins := (if playerWon then wins u + 1 else wins u),
                         losses := (if playerWon then losses u else losses u + 1),
                         gamesPlayed := gamesPlayed u + 1\<rparr>;
                  row = \<lparr>rowWinnerId = (if playerWon then Some pid else None),
                         rowLoserId = (if playerWon then None else Some pid),
                         winnerEloBefore = (if playerWon then playerRating else botRating),
                         winnerEloAfter = (if playerWon then newR else botRating),
                         loserEloBefore = (if playerWon then botRating else playerRating),
                         loserEloAfter = (if playerWon then botRating else newR),
                         rowTargetWord = target, rowReplayLog = replay,
                         durationMs = duration, isBotMatch = True,
                         rowBotDifficulty = difficulty\<rparr>
              in Inr (BotResult \<lparr>oldRating = playerRating, newRating = newR,
                                 delta = ratingDelta\<rparr>,
                      db\<lparr>users := (users db)(pid \<mapsto> u'), matches := matches db @ [row]\<rparr>)))"

section \<open>Socket handlers\<close>

text \<open>
  What the server sends is a list of emits: the socket, the event and its payload, a JSON
  value (\<open>JUndefined\<close> is a field holding \<open>undefined\<close>, which is dropped on the wire).
  The registry is the pair of process-wide maps \<open>playerSockets\<close> and \<open>socketPlayers\<close>, the
  second in insertion order; a socket id that is the empty string is falsy, as in the tests
  \<open>if (mapped)\<close> and \<open>if (opponentSocketId)\<close>. In a game, \<open>winner = None\<close> is \<open>null\<close>.
\<close>

datatype json =
    JUndefined
  | JNull
  | JBool bool
  | JNum int
  | JStr string
  | JArr "json list"
  | JObj "(string \<times> json) list"

text \<open>The value of a field of a JSON object.\<close>

definition jsonField :: "string \<Rightarrow> json \<Rightarrow> json option" where
  "jsonField k v = (case v of JObj kvs \<Rightarrow> map_of kvs k | other \<Rightarrow> None)"

record emit =
  toSocket :: string
  eventName :: string
  payload :: json

record registry =
  playerSockets :: "string \<rightharpoonup> string"
  socketPlayers :: "(string \<times> string) list"

definition getPlayerSocketIds :: "registry \<Rightarrow> string \<Rightarrow> string list" where
  "getPlayerSocketIds reg pid =
     fold (\<lambda>(sid, p) ids. if p = pid \<and> sid \<notin> set ids then ids @ [sid] else ids)
          (socketPlayers reg)
          (case playerSockets reg pid of
             Some sid \<Rightarrow> if sid = [] then [] else [sid]
           | None \<Rightarrow> [])"

fun colorName :: "color \<Rightarrow> string" where
  "colorName Green = ''green''"
| "colorName Yellow = ''yellow''"
| "colorName Grey = ''grey''"

text \<open>\<open>evaluation.map(e => e.color)\<close>: reading \<open>color\<close> of a \<open>null\<close> cell throws (\<open>None\<close>).\<close>

definition colorsOf :: "tile option list \<Rightarrow> json option" where
  "colorsOf ev =
     map_option (\<lambda>cs. JArr (map (\<lambda>c. JStr (colorName c)) cs)) (those (map (map_option color) ev))"

definition getMaskedGuessForOpponent :: "guessRecord \<Rightarrow> json option" where
  "getMaskedGuessForOpponent rec =
     map_option (\<lambda>cols. JObj [(''colors'', cols),
                               (''timestamp'', JNum (int (timestamp rec))),
                               (''guessNumber'', JNum (int (guessNumber rec)))])
       (colorsOf (evaluation rec))"

definition guessResultPayload :: "guessSuccess \<Rightarrow> json option" where
  "guessResultPayload res =
     map_option (\<lambda>cols. JObj [(''word'', JStr (word (resGuess res))),
                               (''colors'', cols),
                               (''guessNumber'', JNum (int (guessNumber (resGuess res)))),
                               (''isCorrect'', JBool (resIsCorrect res)),
                               (''remainingGuesses'', JNum (resRemainingGuesses res))])
       (colorsOf (evaluation (resGuess res)))"

definition opponentGuessPayload :: "guessSuccess \<Rightarrow> json option" where
  "opponentGuessPayload res =
     map_option (\<lambda>cols. JObj [(''colors'', cols),
                               (''guessNumber'', JNum (int (guessNumber (resGuess res))))])
       (colorsOf (evaluation (resGuess res)))"

definition getGameDuration :: "game \<Rightarrow> nat \<Rightarrow> int" where
  "getGameDuration g now =
     int (case endTime g of None \<Rightarrow> now | Some e \<Rightarrow> if e = 0 then now else e)
       - int (startTime g)"

text \<open>The JavaScript \<open>a || b\<close> on values that are a number or \<open>undefined\<close>.\<close>

definition orElse :: "int option \<Rightarrow> int option \<Rightarrow> int option" where
  "orElse a b = (case a of None \<Rightarrow> b | Some x \<Rightarrow> if x = 0 then b else Some x)"

definition numberOrUndefined :: "int option \<Rightarrow> json" where
  "numberOrUndefined v = (case v of None \<Rightarrow> JUndefined | Some x \<Rightarrow> JNum x)"

definition eloField ::
  "(ratingChange \<Rightarrow> int) \<Rightarrow> eloResult \<Rightarrow> bool \<Rightarrow> int option" where
  "eloField field er isWinner =
     (case er of
        PvpResult ratings \<Rightarrow>
          orElse (Some (field (if isWinner then ratingsWinner ratings
                               else ratingsLoser ratings))) None
      | BotResult change \<Rightarrow> orElse None (Some (field change)))"

definition gameEndPayload ::
  "game \<Rightarrow> string \<Rightarrow> eloResult option \<Rightarrow> player \<Rightarrow> player \<Rightarrow> json" where
  "gameEndPayload g reason er p opponent =
     (let isWinner = (winner g = Some (playerId p)) in
      JObj [(''gameId'', JStr (gameId g)),
            (''result'', JStr (if winner g = None then ''draw''
                               else if isWinner then ''win'' else ''loss'')),
            (''reason'', JStr reason),
            (''targetWord'', JStr (targetWord g)),
            (''opponent'', JObj [(''username'', JStr (username opponent)),
                                 (''guesses'', JNum (int (length (guesses opponent))))]),
            (''myGuesses'', JNum (int (length (guesses p)))),
            (''eloChange'', (case er of None \<Rightarrow> JNum 0
                             | Some e \<Rightarrow> numberOrUndefined (eloField delta e isWinner))),
            (''newElo'', (case er of None \<Rightarrow> JNum (elo p)
                          | Some e \<Rightarrow> numberOrUndefined (eloField newRating e isWinner)))])"

text \<open>
  \<open>notifyGameEnd\<close>: one \<open>game:end\<close> per socket of every human player. Reading
  \<open>opponent.username\<close> throws when the game has no other player.
\<close>

fun notifyPlayers ::
  "registry \<Rightarrow> game \<Rightarrow> string \<Rightarrow> eloResult option \<Rightarrow> player list \<Rightarrow> player list
     \<Rightarrow> failure + emit list" where
  "notifyPlayers reg g reason er ps [] = Inr []"
| "notifyPlayers reg g reason er ps (p # rest) =
     (if isBot p then notifyPlayers reg g reason er ps rest
      else
        (let socketIds = getPlayerSocketIds reg (playerId p) in
         if length socketIds = 0 then notifyPlayers reg g reason er ps rest
         else
           (case find (\<lambda>q. playerId q \<noteq> playerId p) ps of
              None \<Rightarrow> Inl TypeError
            | Some opponent \<Rightarrow>
                (case notifyPlayers reg g reason er ps rest of
                   Inl f \<Rightarrow> Inl f
                 | Inr later \<Rightarrow>
                     Inr (map (\<lambda>sid. \<lparr>toSocket = sid, eventName = ''game:end'',
                                       payload = gameEndPayload g reason er p opponent\<rparr>)
                              socketIds @ later)))))"

definition notifyGameEnd ::
  "registry \<Rightarrow> game \<Rightarrow> string \<Rightarrow> eloResult option \<Rightarrow> failure + emit list" where
  "notifyGameEnd reg g reason er =
     notifyPlayers reg g reason er (map snd (players g)) (map snd (players g))"

text \<open>
  \<open>handleGameEnd\<close>: the rating update inside \<open>try\<close>, then the notification; when the
  update throws, the notification is sent without ratings.
\<close>

definition updateElo ::
  "database \<Rightarrow> nat \<Rightarrow> game \<Rightarrow> failure + (eloResult option \<times> database)" where
  "updateElo db now g =
     (let ps = map snd (players g);
          winnerP = find (\<lambda>p. winner g = Some (playerId p)) ps;
          loserP = find (\<lambda>p. winner g \<noteq> Some (playerId p)) ps;
          isBotGame = list_ex isBot ps;
          duration = getGameDuration g now
      in if isBotGame then
           (case (find (\<lambda>p. \<not> isBot p) ps, find isBot ps) of
              (Some humanPlayer, Some botPlayer) \<Rightarrow>
                (case updateRatingAfterBotMatch db (playerId humanPlayer) (elo humanPlayer)
                        (winner g = Some (playerId humanPlayer)) (botDifficulty botPlayer)
                        (targetWord g) (replayLog g) duration of
                   Inl f \<Rightarrow> Inl f
                 | Inr (er, db') \<Rightarrow> Inr (Some er, db'))
            | other \<Rightarrow> Inl TypeError)
         else
           (case (winnerP, loserP) of
              (Some w, Some l) \<Rightarrow>
                (case updateRatingsAfterMatch db (playerId w) (playerId l) (elo w) (elo l)
                        (targetWord g) (replayLog g) duration of
                   Inl f \<Rightarrow> Inl f
                 | Inr (er, db') \<Rightarrow> Inr (Some er, db'))
            | other \<Rightarrow> Inr (None, db)))"

definition handleGameEnd ::
  "database \<Rightarrow> registry \<Rightarrow> nat \<Rightarrow> game \<Rightarrow> (failure + emit list) \<times> database" where
  "handleGameEnd db reg now g =
     (case updateElo db now g of
        Inl f \<Rightarrow> (notifyGameEnd reg g ''complete'' None, db)
      | Inr (er, db') \<Rightarrow>
          (case notifyGameEnd reg g ''complete'' er of
             Inl f \<Rightarrow> (notifyGameEnd reg g ''complete'' None, db')
           | Inr es \<Rightarrow> (Inr es, db')))"

text \<open>
  The \<open>game:guess\<close> handler up to the end of the game, run without interruption at the
  clock value \<open>now\<close>; the bot's next move is started by a timer afterwards. \<open>userId\<close> is
  \<open>socket.userData?.id\<close>, and the empty string is falsy in the first test. Any exception
  inside \<open>try\<close> ends the handler with an \<open>error\<close> emit to the sender, after what had been
  sent before.
\<close>

definition errorEmit :: "string \<Rightarrow> string \<Rightarrow> emit" where
  "errorEmit sid msg =
     \<lparr>toSocket = sid, eventName = ''error'', payload = JObj [(''message'', JStr msg)]\<rparr>"

definition onGameGuess ::
  "dictionary \<Rightarrow> redis \<Rightarrow> database \<Rightarrow> registry \<Rightarrow> nat \<Rightarrow> string \<Rightarrow> string option \<Rightarrow> string
     \<Rightarrow> string \<Rightarrow> emit list \<times> redis \<times> database" where
  "onGameGuess d r db reg now sid userId gid guess =
     (case userId of
        None \<Rightarrow> ([errorEmit sid ''Invalid guess data''], r, db)
      | Some pid \<Rightarrow>
          if pid = [] \<or> gid = [] \<or> guess = []
          then ([errorEmit sid ''Invalid guess data''], r, db)
          else
            (case processGuess d r now gid pid guess of
               (Failure err, r') \<Rightarrow>
                 ([\<lparr>toSocket = sid, eventName = ''game:guess:invalid'',
                    payload = JObj [(''error'', JStr err)]\<rparr>], r', db)
             | (Thrown f, r') \<Rightarrow> ([errorEmit sid ''Failed to process guess''], r', db)
             | (Success res, r') \<Rightarrow>
                 (case guessResultPayload res of
                    None \<Rightarrow> ([errorEmit sid ''Failed to process guess''], r', db)
                  | Some full \<Rightarrow>
                      (let sent1 = [\<lparr>toSocket = sid, eventName = ''game:guess:result'',
                                     payload = full\<rparr>]
                       in case getGameState r' now gid of
                            None \<Rightarrow> (sent1 @ [errorEmit sid ''Failed to process guess''], r', db)
                          | Some g \<Rightarrow>
                              (let opponentId = find (\<lambda>k. k \<noteq> pid) (map fst (players g));
                                   opponentSocketId =
                                     (case opponentId of None \<Rightarrow> None
                                      | Some oid \<Rightarrow> playerSockets reg oid);
                                   sent2 =
                                     (case opponentSocketId of
                                        None \<Rightarrow> Some sent1
                                      | Some osid \<Rightarrow>
                                          if osid = [] then Some sent1
                                          else
                                            map_option
                                              (\<lambda>masked. sent1 @
                                                 [\<lparr>toSocket = osid,
                                                   eventName = ''game:opponent:guess'',
                                                   payload = masked\<rparr>])
                                              (opponentGuessPayload res))
                               in case sent2 of
                                    None \<Rightarrow>
                                      (sent1 @ [errorEmit sid ''Failed to process guess''],
                                       r', db)
                                  | Some sent \<Rightarrow>
                                      if resGameEnded res then
                                        (case handleGameEnd db reg now g of
                                           (Inl f, db') \<Rightarrow>
                                             (sent @ [errorEmit sid ''Failed to process guess''],
                                              r', db')
                                         | (Inr es, db') \<Rightarrow> (sent @ es, r', db'))
                                      else (sent, r', db))))))"

section \<open>MatchmakingService\<close>

record opponent =
  opponentId :: string
  opponentName :: string
  opponentElo :: int
  opponentSocketId :: "string option"
  opponentIsBot :: bool
  opponentDifficulty :: "string option"

text \<open>\<open>createBotOpponent\<close>; \<open>uuid\<close> is the value that \<open>uuidv4()\<close> returns.\<close>

definition createBotOpponent :: "string \<Rightarrow> int \<Rightarrow> opponent" where
  "createBotOpponent uuid playerElo =
     (let (difficulty, botElo, botName) =
            (if playerElo < 900 then (''easy'', 800, ''WordBot Easy'')
             else if playerElo < 1200 then (''medium'', 1100, ''WordBot Medium'')
             else if playerElo < 1500 then (''hard'', 1400, ''WordBot Hard'')
             else (''impossible'', 1800, ''WordBot Impossible''))
      in \<lparr>opponentId = ''bot_'' @ uuid, opponentName = botName, opponentElo = botElo,
          opponentSocketId = None, opponentIsBot = True,
          opponentDifficulty = Some difficulty\<rparr>)"

section \<open>BotService\<close>

definition OPTIMAL_FIRST_GUESSES :: "string list" where
  "OPTIMAL_FIRST_GUESSES = [''SALET'', ''CRANE'', ''SLATE'', ''TRACE'', ''CRATE'']"

text \<open>The set \<open>COMMON_WORDS\<close>, as the list of its elements in insertion order.\<close>

definition COMMON_WORDS :: "string list" where
  "COMMON_WORDS =
     [
      ''ABOUT'', ''ABOVE'', ''ABUSE'', ''ACTOR'', ''ACUTE'', ''ADMIT'', ''ADOPT'', ''ADULT'', ''AFTER'',
      ''AGAIN'', ''AGENT'', ''AGREE'', ''AHEAD'', ''ALARM'', ''ALBUM'', ''ALERT'', ''ALIKE'', ''ALIVE'',
      ''ALLOW'', ''ALONE'', ''ALONG'', ''ALTER'', ''AMONG'', ''ANGER'', ''ANGLE'', ''ANGRY'', ''APART'',
      ''APPLE'', ''APPLY'', ''ARENA'', ''ARGUE'', ''ARISE'', ''ARMED'', ''ARMOR'', ''ARRAY'', ''ASIDE'',
      ''ASSET'', ''AVOID'', ''AWARD'', ''AWARE'', ''BADLY'', ''BAKER'', ''BASES'', ''BASIC'', ''BASIN'',
      ''BASIS'', ''BEACH'', ''BEGAN'', ''BEGIN'', ''BEGUN'', ''BEING'', ''BELOW'', ''BENCH'', ''BIBLE'',
      ''BIRTH'', ''BLACK'', ''BLADE'', ''BLAME'', ''BLANK'', ''BLAST'', ''BLEND'', ''BLESS'', ''BLIND'',
      ''BLOCK'', ''BLOOD'', ''BLOOM'', ''BLOWN'', ''BOARD'', ''BOOST'', ''BOOTH'', ''BOUND'', ''BRAIN'',
      ''BRAND'', ''BREAD'', ''BREAK'', ''BREED'', ''BRICK'', ''BRIDE'', ''BRIEF'', ''BRING'', ''BROAD'',
      ''BROKE'', ''BROWN'', ''BUILD'', ''BUILT'', ''BUNCH'', ''BURST'', ''BUYER'', ''CABLE'', ''CANDY'',
      ''CARRY'', ''CATCH'', ''CAUSE'', ''CHAIN'', ''CHAIR'', ''CHAOS'', ''CHARM'', ''CHART'', ''CHASE'',
      ''CHEAP'', ''CHECK'', ''CHEST'', ''CHIEF'', ''CHILD'', ''CHINA'', ''CHOSE'', ''CIVIL'', ''CLAIM'',
      ''CLASS'', ''CLEAN'', ''CLEAR'', ''CLIMB'', ''CLOCK'', ''CLOSE'', ''CLOTH'', ''CLOUD'', ''COACH'',
      ''COAST'', ''COULD'', ''COUNT'', ''COURT'', ''COVER'', ''CRAFT'', ''CRASH'', ''CRAZY'', ''CREAM'',
      ''CRIME'', ''CROSS'', ''CROWD'', ''CROWN'', ''CURVE'', ''CYCLE'', ''DAILY'', ''DANCE'', ''DATED'',
      ''DEALT'', ''DEATH'', ''DEBUT'', ''DELAY'', ''DEPTH'', ''DOING'', ''DOUBT'', ''DOZEN'', ''DRAFT'',
      ''DRAIN'', ''DRAMA'', ''DRANK'', ''DRAWN'', ''DREAM'', ''DRESS'', ''DRIED'', ''DRINK'', ''DRIVE'',
      ''DROVE'', ''DYING'', ''EAGER'', ''EARLY'', ''EARTH'', ''EIGHT'', ''ELITE'', ''EMPTY'', ''ENEMY'',
      ''ENJOY'', ''ENTER'', ''ENTRY'', ''EQUAL'', ''ERROR'', ''EVENT'', ''EVERY'', ''EXACT'', ''EXIST'',
      ''EXTRA'', ''FAITH'', ''FALSE'', ''FAULT'', ''FAVOR'', ''FENCE'', ''FEVER'', ''FIBER'', ''FIELD'',
      ''FIFTH'', ''FIFTY'', ''FIGHT'', ''FINAL'', ''FIRST'', ''FIXED'', ''FLASH'', ''FLEET'', ''FLESH'',
      ''FLOAT'', ''FLOOD'', ''FLOOR'', ''FLOUR'', ''FLUID'', ''FOCUS'', ''FORCE'', ''FORGE'', ''FORTH'',
      ''FORTY'', ''FORUM'', ''FOUND'', ''FRAME'', ''FRANK'', ''FRAUD'', ''FRESH'', ''FRONT'', ''FRUIT'',
      ''FULLY'', ''FUNNY'', ''GIANT'', ''GIVEN'', ''GLASS'', ''GLOBE'', ''GLORY'', ''GOING'', ''GRACE'',
      ''GRADE'', ''GRAIN'', ''GRAND'', ''GRANT'', ''GRAPE'', ''GRASP'', ''GRASS'', ''GRAVE'', ''GREAT'',
      ''GREEN'', ''GREET'', ''GRIEF'', ''GRILL'', ''GROSS'', ''GROUP'', ''GROVE'', ''GROWN'', ''GUARD'',
      ''GUESS'', ''GUEST'', ''GUIDE'', ''GUILT'', ''HAPPY'', ''HARSH'', ''HEART'', ''HEAVY'', ''HENCE'',
      ''HERO'', ''HORSE'', ''HOTEL'', ''HOUSE'', ''HUMAN'', ''IDEAL'', ''IMAGE'', ''IMPLY'', ''INDEX'',
      ''INNER'', ''INPUT'', ''ISSUE'', ''JOINT'', ''JONES'', ''JUDGE'', ''JUICE'', ''KNOWN'', ''LABEL'',
      ''LABOR'', ''LARGE'', ''LASER'', ''LATER'', ''LAUGH'', ''LAYER'', ''LEARN'', ''LEASE'', ''LEAST'',
      ''LEAVE'', ''LEGAL'', ''LEMON'', ''LEVEL'', ''LIGHT'', ''LIMIT'', ''LINUX'', ''LIVER'', ''LIVING'',
      ''LOCAL'', ''LODGE'', ''LOGIC'', ''LOOSE'', ''LORRY'', ''LOSER'', ''LOWER'', ''LUCKY'', ''LUNCH'',
      ''LYING'', ''MAGIC'', ''MAJOR'', ''MAKER'', ''MARCH'', ''MARRY'', ''MATCH'', ''MAYOR'', ''MEANT'',
      ''MEDAL'', ''MEDIA'', ''MERCY'', ''MERGE'', ''MERIT'', ''METAL'', ''METER'', ''MIGHT'', ''MINOR'',
      ''MINUS'', ''MIXED'', ''MODEL'', ''MONEY'', ''MONTH'', ''MORAL'', ''MOTOR'', ''MOUNT'', ''MOUSE'',
      ''MOUTH'', ''MOVED'', ''MOVIE'', ''MUSIC'', ''NAKED'', ''NEEDS'', ''NERVE'', ''NEVER'', ''NEWER'',
      ''NIGHT'', ''NOISE'', ''NORTH'', ''NOTED'', ''NOVEL'', ''NURSE'', ''OCCUR'', ''OCEAN'', ''OFFER'',
      ''OFTEN'', ''OLIVE'', ''ONION'', ''OPERA'', ''ORBIT'', ''ORDER'', ''ORGAN'', ''OTHER'', ''OUGHT'',
      ''OUTER'', ''OWNED'', ''OWNER'', ''OXIDE'', ''OZONE'', ''PAINT'', ''PANEL'', ''PANIC'', ''PAPER'',
      ''PARTY'', ''PASTA'', ''PATCH'', ''PAUSE'', ''PEACE'', ''PEARL'', ''PENNY'', ''PHASE'', ''PHONE'',
      ''PHOTO'', ''PIANO'', ''PIECE'', ''PILOT'', ''PINCH'', ''PITCH'', ''PLACE'', ''PLAIN'', ''PLANE'',
      ''PLANT'', ''PLATE'', ''PLAZA'', ''POINT'', ''POLAR'', ''POUND'', ''POWER'', ''PRESS'', ''PRICE'',
      ''PRIDE'', ''PRIME'', ''PRINT'', ''PRIOR'', ''PRIZE'', ''PROBE'', ''PROOF'', ''PROUD'', ''PROVE'',
      ''PUNCH'', ''PUPIL'', ''QUEEN'', ''QUEST'', ''QUICK'', ''QUIET'', ''QUITE'', ''QUOTA'', ''QUOTE'',
      ''RADAR'', ''RADIO'', ''RAISE'', ''RANCH'', ''RANGE'', ''RAPID'', ''RATIO'', ''REACH'', ''REACT'',
      ''READY'', ''REALM'', ''REBEL'', ''REFER'', ''REIGN'', ''RELAX'', ''REPLY'', ''RIDER'', ''RIDGE'',
      ''RIFLE'', ''RIGHT'', ''RIGID'', ''RISKY'', ''RIVAL'', ''RIVER'', ''ROBOT'', ''ROCKY'', ''ROMAN'',
      ''ROUGH'', ''ROUND'', ''ROUTE'', ''ROYAL'', ''RUGBY'', ''RULER'', ''RURAL'', ''SADLY'', ''SAINT'',
      ''SALAD'', ''SALES'', ''SANDY'', ''SAUCE'', ''SAVED'', ''SCALE'', ''SCENE'', ''SCOPE'', ''SCORE'',
      ''SENSE'', ''SERVE'', ''SEVEN'', ''SHADE'', ''SHAKE'', ''SHALL'', ''SHAME'', ''SHAPE'', ''SHARE'',
      ''SHARP'', ''SHEEP'', ''SHEER'', ''SHEET'', ''SHELF'', ''SHELL'', ''SHIFT'', ''SHINE'', ''SHIRT'',
      ''SHOCK'', ''SHOOT'', ''SHORE'', ''SHORT'', ''SHOT'', ''SHOUT'', ''SHOWN'', ''SIGHT'', ''SIGMA'',
      ''SILLY'', ''SINCE'', ''SIXTH'', ''SIXTY'', ''SIZED'', ''SKILL'', ''SKIRT'', ''SLAVE'', ''SLEEP'',
      ''SLICE'', ''SLIDE'', ''SLOPE'', ''SMALL'', ''SMART'', ''SMELL'', ''SMILE'', ''SMITH'', ''SMOKE'',
      ''SNAKE'', ''SOLID'', ''SOLVE'', ''SORRY'', ''SOUND'', ''SOUTH'', ''SPACE'', ''SPARE'', ''SPARK'',
      ''SPEAK'', ''SPEED'', ''SPELL'', ''SPEND'', ''SPENT'', ''SPICE'', ''SPINE'', ''SPLIT'', ''SPOKE'',
      ''SPORT'', ''SPRAY'', ''SQUAD'', ''STACK'', ''STAFF'', ''STAGE'', ''STAKE'', ''STAMP'', ''STAND'',
      ''STARK'', ''START'', ''STATE'', ''STEAM'', ''STEEL'', ''STEEP'', ''STEER'', ''STICK'', ''STILL'',
      ''STOCK'', ''STONE'', ''STOOD'', ''STORE'', ''STORM'', ''STORY'', ''STRAP'', ''STRAW'', ''STRIP'',
      ''STUCK'', ''STUDY'', ''STUFF'', ''STYLE'', ''SUGAR'', ''SUITE'', ''SUNNY'', ''SUPER'', ''SURGE'',
      ''SWEET'', ''SWEPT'', ''SWIFT'', ''SWING'', ''SWISS'', ''SWORD'', ''TABLE'', ''TAKEN'', ''TASTE'',
      ''TAXES'', ''TEACH'', ''TEETH'', ''TEMPO'', ''TENDS'', ''TENOR'', ''TENSE'', ''TENTH'', ''TERMS'',
      ''TERRY'', ''TEXAS'', ''THANK'', ''THEFT'', ''THEIR'', ''THEME'', ''THERE'', ''THESE'', ''THICK'',
      ''THING'', ''THINK'', ''THIRD'', ''THOSE'', ''THREE'', ''THREW'', ''THROW'', ''THUMB'', ''TIGER'',
      ''TIGHT'', ''TIRED'', ''TITLE'', ''TODAY'', ''TOKEN'', ''TOPIC'', ''TOTAL'', ''TOUCH'', ''TOUGH'',
      ''TOWER'', ''TRACK'', ''TRADE'', ''TRAIL'', ''TRAIN'', ''TRAIT'', ''TRASH'', ''TREAT'', ''TREND'',
      ''TRIAL'', ''TRIBE'', ''TRICK'', ''TRIED'', ''TROOP'', ''TRUCK'', ''TRULY'', ''TRUNK'', ''TRUST'',
      ''TRUTH'', ''TUMOR'', ''TWICE'', ''ULTRA'', ''UNCLE'', ''UNDER'', ''UNION'', ''UNITE'', ''UNITY'',
      ''UNTIL'', ''UPPER'', ''UPSET'', ''URBAN'', ''USUAL'', ''VALID'', ''VALUE'', ''VIDEO'', ''VIRUS'',
      ''VISIT'', ''VITAL'', ''VOCAL'', ''VOICE'', ''VOTER'', ''WAGON'', ''WASTE'', ''WATCH'', ''WATER'',
      ''WEIGH'', ''WEIRD'', ''WHEAT'', ''WHEEL'', ''WHERE'', ''WHICH'', ''WHILE'', ''WHITE'', ''WHOLE'',
      ''WHOSE'', ''WOMAN'', ''WOMEN'', ''WORLD'', ''WORRY'', ''WORSE'', ''WORST'', ''WORTH'', ''WOULD'',
      ''WOUND'', ''WRITE'', ''WRONG'', ''WROTE'', ''YIELD'', ''YOUNG'', ''YOUTH'', ''ZEBRA'', ''ZONES''
     ]"

record botConfig =
  topN :: "nat option"
  useCommonFilter :: bool
  minSolveGuess :: nat
  delayMin :: nat
  delayMax :: nat
  noise :: real
  wasteWordChance :: "real option"

definition DIFFICULTIES :: "string \<rightharpoonup> botConfig" where
  "DIFFICULTIES =
     [''impossible'' \<mapsto> \<lparr>topN = Some 1, useCommonFilter = False, minSolveGuess = 1,
                          delayMin = 10000, delayMax = 20000, noise = 0,
                          wasteWordChance = None\<rparr>,
      ''hard'' \<mapsto> \<lparr>topN = Some 5, useCommonFilter = False, minSolveGuess = 2,
                    delayMin = 18000, delayMax = 22000, noise = 5 / 100,
                    wasteWordChance = None\<rparr>,
      ''medium'' \<mapsto> \<lparr>topN = Some 20, useCommonFilter = True, minSolveGuess = 3,
                      delayMin = 22000, delayMax = 30000, noise = 1 / 10,
                      wasteWordChance = Some (1 / 10)\<rparr>,
      ''easy'' \<mapsto> \<lparr>topN = None, useCommonFilter = True, minSolveGuess = 4,
                    delayMin = 30000, delayMax = 35000, noise = 2 / 10,
                    wasteWordChance = Some (2 / 10)\<rparr>]"

definition configOf :: "string \<Rightarrow> botConfig" where
  "configOf dif =
     (case DIFFICULTIES dif of
        Some c \<Rightarrow> c
      | None \<Rightarrow> \<lparr>topN = Some 20, useCommonFilter = True, minSolveGuess = 3,
                  delayMin = 22000, delayMax = 30000, noise = 1 / 10,
                  wasteWordChance = Some (1 / 10)\<rparr>)"

text \<open>\<open>getPattern\<close>: the cells of \<open>result\<close> are the one-letter strings X, G and Y.\<close>

type_synonym patternState = "char list \<times> bool list"

definition patternGreen :: "string \<Rightarrow> string \<Rightarrow> nat \<Rightarrow> patternState \<Rightarrow> patternState" where
  "patternGreen guessChars targetChars i st =
     (case st of (result, matched) \<Rightarrow>
        if charAt guessChars i = charAt targetChars i
        then (result[i := CHR ''G''], matched[i := True])
        else (result, matched))"

definition patternYellow :: "string \<Rightarrow> string \<Rightarrow> nat \<Rightarrow> patternState \<Rightarrow> patternState" where
  "patternYellow guessChars targetChars i st =
     (case st of (result, matched) \<Rightarrow>
        if result ! i = CHR ''G'' then (result, matched)
        else
          (case find (\<lambda>j. \<not> matched ! j \<and> charAt guessChars i = charAt targetChars j)
                  [0..<5] of
             Some j \<Rightarrow> (result[i := CHR ''Y''], matched[j := True])
           | None \<Rightarrow> (result, matched)))"

definition getPattern :: "string \<Rightarrow> string \<Rightarrow> string" where
  "getPattern guess target =
     (let st0 = (replicate 5 (CHR ''X''), replicate 5 False);
          st1 = fold (patternGreen guess target) [0..<5] st0;
          st2 = fold (patternYellow guess target) [0..<5] st1
      in fst st2)"

record constraint =
  pastGuess :: string
  pattern :: string

definition matchesConstraints :: "string \<Rightarrow> constraint list \<Rightarrow> bool" where
  "matchesConstraints w cs = list_all (\<lambda>c. getPattern (pastGuess c) w = pattern c) cs"

definition filterPossibleAnswers :: "string list \<Rightarrow> constraint list \<Rightarrow> string list" where
  "filterPossibleAnswers possible cs = filter (\<lambda>w. matchesConstraints w cs) possible"

text \<open>
  \<open>calculateEntropy\<close>; \<open>patternCounts\<close> is a \<open>Map\<close> in insertion order. A candidate that is
  \<open>undefined\<close> (\<open>None\<close>) makes \<open>getPattern\<close> throw when it is reached.
\<close>

fun countPattern :: "string \<Rightarrow> (string \<times> nat) list \<Rightarrow> (string \<times> nat) list" where
  "countPattern p [] = [(p, 1)]"
| "countPattern p ((q, n) # rest) =
     (if q = p then (q, n + 1) # rest else (q, n) # countPattern p rest)"

definition calculateEntropy :: "string option \<Rightarrow> string list \<Rightarrow> failure + real" where
  "calculateEntropy guess possible =
     (if length possible = 0 then Inr 0
      else if length possible = 1 then Inr 0
      else
        (case guess of
           None \<Rightarrow> Inl TypeError
         | Some g \<Rightarrow>
             (let patternCounts = fold (\<lambda>answer m. countPattern (getPattern g answer) m)
                                       possible [];
                  total = real (length possible)
              in Inr (fold (\<lambda>(p, n) entropy.
                              entropy - (real n / total) * log 2 (real n / total))
                           patternCounts 0))))"

text \<open>
  \<open>Math.random()\<close> is a stream of numbers, each in the interval from 0 (included) to 1
  (excluded); a call takes the head of the stream.
\<close>

type_synonym rng = "nat \<Rightarrow> real"

definition nextRandom :: "rng \<Rightarrow> real \<times> rng" where
  "nextRandom rnd = (rnd 0, \<lambda>n. rnd (Suc n))"

definition randomIndex :: "real \<Rightarrow> nat \<Rightarrow> nat" where
  "randomIndex x n = nat \<lfloor>x * real n\<rfloor>"

type_synonym scored = "string option \<times> real"

fun scoreAll ::
  "string list \<Rightarrow> real \<Rightarrow> string option list \<Rightarrow> rng \<Rightarrow> failure + (scored list \<times> rng)" where
  "scoreAll possible nz [] rnd = Inr ([], rnd)"
| "scoreAll possible nz (guess # rest) rnd =
     (case calculateEntropy guess possible of
        Inl f \<Rightarrow> Inl f
      | Inr h \<Rightarrow>
          (let (extra, rnd1) =
                 (if nz \<noteq> 0 then (let (x, rnd') = nextRandom rnd in ((x - 1 / 2) * nz, rnd'))
                  else (0, rnd))
           in case scoreAll possible nz rest rnd1 of
                Inl f \<Rightarrow> Inl f
              | Inr (scores, rnd2) \<Rightarrow> Inr ((guess, h + extra) # scores, rnd2)))"

definition getBestGuessesByEntropy ::
  "string list \<Rightarrow> string option list \<Rightarrow> nat \<Rightarrow> real \<Rightarrow> rng \<Rightarrow> failure + (scored list \<times> rng)" where
  "getBestGuessesByEntropy possible candidates n nz rnd =
     (case scoreAll possible nz candidates rnd of
        Inl f \<Rightarrow> Inl f
      | Inr (scores, rnd') \<Rightarrow> Inr (take n (sort_key (\<lambda>s. - snd s) scores), rnd'))"

text \<open>
  \<open>chooseWasteWord\<close> sorts \<open>pool\<close> in place; when \<open>pool\<close> is the caller's array
  \<open>validGuesses\<close> itself, the caller's array is sorted too, so the array is returned.
\<close>

definition uniqueLetters :: "string \<Rightarrow> nat" where
  "uniqueLetters w = length (remdups w)"

definition chooseWasteWord ::
  "string list \<Rightarrow> constraint list \<Rightarrow> bool \<Rightarrow> rng \<Rightarrow> string option \<times> string list \<times> rng" where
  "chooseWasteWord valid cs commonOnly rnd =
     (let pool0 = (if commonOnly then filter (\<lambda>w. w \<in> set COMMON_WORDS) valid else valid);
          pool1 = filterPossibleAnswers pool0 cs;
          aliased = (length pool1 = 0);
          pool2 = (if aliased then valid else pool1);
          sorted = sort_key (\<lambda>w. - int (uniqueLetters w)) pool2;
          top = take (min 50 (length sorted)) sorted;
          (x, rnd') = nextRandom rnd
      in (elemAt top (randomIndex x (length top)),
          (if aliased then sorted else valid), rnd'))"

fun sampleCandidates ::
  "string list \<Rightarrow> nat \<Rightarrow> string option list \<Rightarrow> rng \<Rightarrow> string option list \<times> rng" where
  "sampleCandidates valid 0 candidates rnd = (candidates, rnd)"
| "sampleCandidates valid (Suc k) candidates rnd =
     (let (x, rnd') = nextRandom rnd;
          w = elemAt valid (randomIndex x (length valid))
      in sampleCandidates valid k
           (if w \<in> set candidates then candidates else candidates @ [w]) rnd')"

definition wordOf :: "scored option \<Rightarrow> failure + string option" where
  "wordOf s = (case s of None \<Rightarrow> Inl TypeError | Some (w, h) \<Rightarrow> Inr w)"

definition isCommon :: "string option \<Rightarrow> bool" where
  "isCommon w = (case w of None \<Rightarrow> False | Some x \<Rightarrow> x \<in> set COMMON_WORDS)"

text \<open>The part of \<open>selectGuess\<close> after the entropy ranking.\<close>

definition pickFromTop ::
  "string \<Rightarrow> botConfig \<Rightarrow> string list \<Rightarrow> string list \<Rightarrow> constraint list \<Rightarrow> nat \<Rightarrow> scored list
     \<Rightarrow> rng \<Rightarrow> (failure + string option) \<times> rng" where
  "pickFromTop dif config valid filteredAnswers cs guessNo topGuesses rnd =
     (let commonMatches = filter (\<lambda>s. isCommon (fst s)) topGuesses in
      if useCommonFilter config \<and> length commonMatches > 0 then
        (let (x, rnd1) = nextRandom rnd
         in (wordOf (elemAt commonMatches (randomIndex x (length commonMatches))), rnd1))
      else if dif = ''impossible'' then (wordOf (elemAt topGuesses 0), rnd)
      else
        (let (x, rnd1) = nextRandom rnd in
         case wordOf (elemAt topGuesses (randomIndex x (length topGuesses))) of
           Inl f \<Rightarrow> (Inl f, rnd1)
         | Inr guess \<Rightarrow>
             (let (guess2, valid2, rnd2) =
                    (case wasteWordChance config of
                       None \<Rightarrow> (guess, valid, rnd1)
                     | Some chance \<Rightarrow>
                         if chance = 0 then (guess, valid, rnd1)
                         else
                           (let (y, rnd') = nextRandom rnd1 in
                            if y < chance
                            then chooseWasteWord valid cs (useCommonFilter config) rnd'
                            else (guess, valid, rnd')));
                  (guess3, valid3, rnd3) =
                    (if guessNo < minSolveGuess config \<and>
                        (case guess2 of None \<Rightarrow> False | Some w \<Rightarrow> w \<in> set filteredAnswers)
                     then chooseWasteWord valid2 cs (useCommonFilter config) rnd2
                     else (guess2, valid2, rnd2))
              in (Inr guess3, rnd3))))"

definition selectGuess ::
  "dictionary \<Rightarrow> string \<Rightarrow> string list \<Rightarrow> constraint list \<Rightarrow> nat \<Rightarrow> rng
     \<Rightarrow> (failure + string option) \<times> rng" where
  "selectGuess d dif possible cs guessNo rnd =
     (let config = configOf dif;
          allValidGuesses = validGuesses d;
          common = filter (\<lambda>w. w \<in> set COMMON_WORDS) possible;
          filteredAnswers =
            (if useCommonFilter config \<and> length common \<noteq> 0 then common else possible)
      in
      if guessNo = 1 \<and> length cs = 0 then
        (let (x, rnd1) = nextRandom rnd in
         if dif = ''easy''
         then (Inr (elemAt COMMON_WORDS (randomIndex x (length COMMON_WORDS))), rnd1)
         else (Inr (elemAt OPTIMAL_FIRST_GUESSES
                      (randomIndex x (length OPTIMAL_FIRST_GUESSES))), rnd1))
      else if length filteredAnswers = 1 then
        (if guessNo < minSolveGuess config
         then (case chooseWasteWord allValidGuesses cs (useCommonFilter config) rnd of
                 (w, valid', rnd1) \<Rightarrow> (Inr w, rnd1))
         else (Inr (elemAt filteredAnswers 0), rnd))
      else if length filteredAnswers = 2 then
        (if guessNo < minSolveGuess config
         then (case chooseWasteWord allValidGuesses cs (useCommonFilter config) rnd of
                 (w, valid', rnd1) \<Rightarrow> (Inr w, rnd1))
         else (let (x, rnd1) = nextRandom rnd
               in (Inr (elemAt filteredAnswers (randomIndex x 2)), rnd1)))
      else if dif = ''easy'' \<or> topN config = None then
        (let pool = (if length filteredAnswers \<noteq> 0 then filteredAnswers else possible);
             (x, rnd1) = nextRandom rnd;
             guess = elemAt pool (randomIndex x (length pool));
             (guess2, valid2, rnd2) =
               (case wasteWordChance config of
                  None \<Rightarrow> (guess, allValidGuesses, rnd1)
                | Some chance \<Rightarrow>
                    if chance = 0 then (guess, allValidGuesses, rnd1)
                    else
                      (let (y, rnd') = nextRandom rnd1 in
                       if y < chance then chooseWasteWord allValidGuesses cs True rnd'
                       else (guess, allValidGuesses, rnd')));
             (guess3, valid3, rnd3) =
               (if guessNo < minSolveGuess config
                then chooseWasteWord valid2 cs True rnd2
                else (guess2, valid2, rnd2))
         in (Inr guess3, rnd3))
      else
        (let sampleSize = min 500 (length allValidGuesses);
             (candidates, rnd1) =
               sampleCandidates allValidGuesses sampleSize (map Some filteredAnswers) rnd
         in case getBestGuessesByEntropy filteredAnswers candidates
                   (case topN config of None \<Rightarrow> 0 | Some n \<Rightarrow> n) (noise config) rnd1 of
              Inl f \<Rightarrow> (Inl f, rnd1)
            | Inr (topGuesses, rnd2) \<Rightarrow>
                pickFromTop dif config allValidGuesses filteredAnswers cs guessNo
                  topGuesses rnd2))"

record botInstance =
  difficulty :: string
  botTarget :: string
  possibleAnswers :: "string list"
  constraints :: "constraint list"
  guessCount :: nat

definition createBotInstance :: "dictionary \<Rightarrow> string \<Rightarrow> string \<Rightarrow> botInstance" where
  "createBotInstance d dif target =
     \<lparr>difficulty = dif, botTarget = target, possibleAnswers = answers d,
      constraints = [], guessCount = 0\<rparr>"

text \<open>
  \<open>getNextGuess\<close>: the guess for the bot's next turn and the delay in milliseconds before it
  is sent.
\<close>

definition getNextGuess ::
  "dictionary \<Rightarrow> botInstance \<Rightarrow> rng \<Rightarrow> (failure + (string option \<times> int)) \<times> rng" where
  "getNextGuess d b rnd =
     (let config = configOf (difficulty b) in
      case selectGuess d (difficulty b) (possibleAnswers b) (constraints b) (guessCount b + 1) rnd of
        (Inl f, rnd1) \<Rightarrow> (Inl f, rnd1)
      | (Inr guess, rnd1) \<Rightarrow>
          (let (x, rnd2) = nextRandom rnd1;
               delayMs = \<lfloor>x * (real (delayMax config) - real (delayMin config))
                           + real (delayMin config)\<rfloor>
           in (Inr (guess, delayMs), rnd2)))"

definition updateBotState :: "botInstance \<Rightarrow> string \<Rightarrow> string \<Rightarrow> botInstance" where
  "updateBotState b guess pat =
     (let cs = constraints b @ [\<lparr>pastGuess = guess, pattern = pat\<rparr>]
      in b\<lparr>constraints := cs, guessCount := guessCount b + 1,
           possibleAnswers := filterPossibleAnswers (possibleAnswers b) cs\<rparr>)"

text \<open>The bot after a sequence of guesses, each answered with its pattern against \<open>target\<close>.\<close>

fun afterGuesses :: "botInstance \<Rightarrow> string \<Rightarrow> string list \<Rightarrow> botInstance" where
  "afterGuesses b target [] = b"
| "afterGuesses b target (guess # rest) =
     afterGuesses (updateBotState b guess (getPattern guess target)) target rest"

section \<open>The bot's turn (triggerBotGuess)\<close>

text \<open>
  The timer callback of \<open>triggerBotGuess\<close>: the bot's guess goes through \<open>processGuess\<close>
  like a human's; on success the bot's state is updated with the pattern read off the
  evaluation, the human's sockets get the masked guess, and the game is ended or the next
  turn of the bot is started. The callback runs without interruption at the clock value
  \<open>now\<close>; nothing catches what it throws. \<open>guess\<close> is what \<open>getNextGuess\<close> returned,
  \<open>None\<close> for \<open>undefined\<close>.
\<close>

text \<open>
  \<open>patternOf\<close>: the letters G, Y and X that the callback reads off an evaluation; reading
  \<open>color\<close> of a \<open>null\<close> cell throws (\<open>None\<close>).
\<close>

definition patternOf :: "tile option list \<Rightarrow> string option" where
  "patternOf ev =
     map_option (map (\<lambda>c. if c = Green then CHR ''G'' else if c = Yellow then CHR ''Y''
                           else CHR ''X''))
       (those (map (map_option color) ev))"

datatype outcome = Stopped | Retriggered | Threw failure

definition afterBotGuess ::
  "database \<Rightarrow> registry \<Rightarrow> nat \<Rightarrow> string \<Rightarrow> redis \<Rightarrow> string list \<Rightarrow> botInstance \<Rightarrow> string
     \<Rightarrow> guessSuccess \<Rightarrow> emit list \<times> redis \<times> database \<times> botInstance \<times> outcome" where
  "afterBotGuess db reg now gid r' humanSocketIds b w res =
     (case (patternOf (evaluation (resGuess res)), opponentGuessPayload res) of
        (Some pat, Some masked) \<Rightarrow>
          (let b' = updateBotState b w pat;
               sent = map (\<lambda>sid. \<lparr>toSocket = sid, eventName = ''game:opponent:guess'',
                                     payload = masked\<rparr>) humanSocketIds
           in if resGameEnded res then
                (case getGameState r' now gid of
                   None \<Rightarrow> (sent, r', db, b', Threw TypeError)
                 | Some updatedGame \<Rightarrow>
                     (case handleGameEnd db reg now updatedGame of
                        (Inl f, db') \<Rightarrow> (sent, r', db', b', Threw f)
                      | (Inr es, db') \<Rightarrow> (sent @ es, r', db', b', Stopped)))
              else (sent, r', db, b', Retriggered))
      | other \<Rightarrow> ([], r', db, b, Threw TypeError))"

definition onBotTimer ::
  "dictionary \<Rightarrow> redis \<Rightarrow> database \<Rightarrow> registry \<Rightarrow> nat \<Rightarrow> string \<Rightarrow> botInstance
     \<Rightarrow> string option \<Rightarrow> emit list \<times> redis \<times> database \<times> botInstance \<times> outcome" where
  "onBotTimer d r db reg now gid b guess =
     (case getGameState r now gid of
        None \<Rightarrow> ([], r, db, b, Stopped)
      | Some currentGame \<Rightarrow>
          if status currentGame \<noteq> Active then ([], r, db, b, Stopped)
          else
            (let ps = players currentGame;
                 isBotId = (\<lambda>k. case map_of ps k of None \<Rightarrow> False | Some p \<Rightarrow> isBot p)
             in case find isBotId (map fst ps) of
                  None \<Rightarrow> ([], r, db, b, Stopped)
                | Some botId \<Rightarrow>
                    if botId = [] then ([], r, db, b, Stopped)
                    else
                      (case guess of
                         None \<Rightarrow> ([], r, db, b, Threw TypeError)
                       | Some w \<Rightarrow>
                           (case processGuess d r now gid botId w of
                              (Failure err, r') \<Rightarrow> ([], r', db, b, Stopped)
                            | (Thrown f, r') \<Rightarrow> ([], r', db, b, Threw f)
                            | (Success res, r') \<Rightarrow>
                                afterBotGuess db reg now gid r'
                                  (case find (\<lambda>k. \<not> isBotId k) (map fst ps) of
                                     None \<Rightarrow> []
                                   | Some humanId \<Rightarrow> getPlayerSocketIds reg humanId)
                                  b w res))))"

section \<open>A sample match\<close>

text \<open>
  Concrete data on which the functions above are run below: a small dictionary, two human
  players in an active match with target CRANE, and the store holding that match.
\<close>

definition sampleDict :: dictionary where
  "sampleDict = initialize [''crane''] [''slate'', ''blame'', ''crane'']"

definition samplePlayer :: "string \<Rightarrow> string \<Rightarrow> int \<Rightarrow> player" where
  "samplePlayer pid name rating =
     \<lparr>playerId = pid, username = name, elo = rating, socketId = None, guesses = [],
      isBot = False, botDifficulty = None\<rparr>"

definition sampleGame :: game where
  "sampleGame =
     \<lparr>gameId = ''g1'', targetWord = ''CRANE'', status = Active, startTime = 0,
      players = [(''p1'', samplePlayer ''p1'' ''ann'' 1200),
                 (''p2'', samplePlayer ''p2'' ''bob'' 1200)],
      replayLog = [], winner = None, endTime = None\<rparr>"

definition sampleStore :: redis where
  "sampleStore = \<lparr>gameKeys = [''g1'' \<mapsto> (sampleGame, 3600000)], winnerKeys = Map.empty\<rparr>"

definition sampleFinishedStore :: redis where
  "sampleFinishedStore =
     \<lparr>gameKeys = [''g1'' \<mapsto> (sampleGame\<lparr>status := Finished, winner := Some ''p2'',
                                         endTime := Some 5000\<rparr>, 3600000)],
      winnerKeys = Map.empty\<rparr>"

definition sampleRegistry :: registry where
  "sampleRegistry =
     \<lparr>playerSockets = [''p1'' \<mapsto> ''s1'', ''p2'' \<mapsto> ''s2''],
      socketPlayers = [(''s1'', ''p1''), (''s2'', ''p2'')]\<rparr>"

definition sampleDatabase :: database where
  "sampleDatabase =
     \<lparr>users = [''p1'' \<mapsto> \<lparr>userElo = 1200, wins = 0, losses = 0, gamesPlayed = 0\<rparr>,
               ''p2'' \<mapsto> \<lparr>userElo = 1200, wins = 0, losses = 0, gamesPlayed = 0\<rparr>],
      matches = []\<rparr>"

text \<open>
  A match of a human rated 1100 against the medium bot, one guess before its end: the bot
  has used its six guesses and the human five, none of them right.
\<close>

definition missRecord :: "nat \<Rightarrow> guessRecord" where
  "missRecord n =
     \<lparr>word = ''BLAME'', evaluation = evaluateGuess ''BLAME'' ''CRANE'',
      timestamp = n * 1000, guessNumber = n\<rparr>"

definition sampleBotGame :: game where
  "sampleBotGame =
     \<lparr>gameId = ''g2'', targetWord = ''CRANE'', status = Active, startTime = 0,
      players = [(''p1'', (samplePlayer ''p1'' ''ann'' 1100)
                            \<lparr>guesses := map missRecord [1..<6]\<rparr>),
                 (''bot_1'', \<lparr>playerId = ''bot_1'', username = ''WordBot Medium'',
                              elo = 1100, socketId = None,
                              guesses = map missRecord [1..<7],
                              isBot = True, botDifficulty = Some ''medium''\<rparr>)],
      replayLog = [], winner = None, endTime = None\<rparr>"

definition sampleBotStore :: redis where
  "sampleBotStore =
     \<lparr>gameKeys = [''g2'' \<mapsto> (sampleBotGame, 3600000)], winnerKeys = Map.empty\<rparr>"

definition sampleBotDatabase :: database where
  "sampleBotDatabase =
     \<lparr>users = [''p1'' \<mapsto> \<lparr>userElo = 1100, wins = 3, losses = 2, gamesPlayed = 5\<rparr>],
      matches = []\<rparr>"

definition drawnBotGame :: game where
  "drawnBotGame =
     sampleBotGame\<lparr>
       players := [(''p1'', (samplePlayer ''p1'' ''ann'' 1100)
                      \<lparr>guesses := map missRecord [1..<6] @
                          [\<lparr>word = ''SLATE'', evaluation = evaluateGuess ''SLATE'' ''CRANE'',
                            timestamp = 90000, guessNumber = 6\<rparr>]\<rparr>),
                   (''bot_1'', \<lparr>playerId = ''bot_1'', username = ''WordBot Medium'',
                                elo = 1100, socketId = None,
                                guesses = map missRecord [1..<7],
                                isBot = True, botDifficulty = Some ''medium''\<rparr>)],
       replayLog := [GuessEntry ''p1''
                       \<lparr>word = ''SLATE'', evaluation = evaluateGuess ''SLATE'' ''CRANE'',
                         timestamp = 90000, guessNumber = 6\<rparr>],
       status := Finished, winner := None, endTime := Some 90000\<rparr>"

text \<open>
  The race of the two players of the sample match: both send CRANE, both calls read the
  active match, the first call takes the win lock and the second is refused
  (\<open>raceClaimed\<close>); then the second call reads the winner and both calls write
  (\<open>raceEnd\<close>).
\<close>

definition raceStart :: server where
  "raceStart =
     \<lparr>clock = 100, store = sampleStore,
      calls = [Loading ''g1'' ''p1'' ''crane'', Loading ''g1'' ''p2'' ''CRANE'']\<rparr>"

definition raceClaimed :: server where
  "raceClaimed =
     resumeCall sampleDict 1 (resumeCall sampleDict 0
       (resumeCall sampleDict 1 (resumeCall sampleDict 0 raceStart)))"

definition raceEnd :: server where
  "raceEnd =
     resumeCall sampleDict 1 (resumeCall sampleDict 0 (resumeCall sampleDict 1 raceClaimed))"

definition raceGuess :: guessRecord where
  "raceGuess = \<lparr>word = ''CRANE'', evaluation = evaluateGuess ''CRANE'' ''CRANE'',
                 timestamp = 100, guessNumber = 1\<rparr>"

definition raceGame :: "string \<Rightarrow> game" where
  "raceGame pid = sampleGame\<lparr>players := pushGuess pid raceGuess (players sampleGame),
                              replayLog := [GuessEntry pid raceGuess]\<rparr>"

definition raceLock :: winLock where
  "raceLock = \<lparr>lockPlayerId = ''p1'', lockTimestamp = 100\<rparr>"

definition lockedStore :: redis where
  "lockedStore = sampleStore\<lparr>winnerKeys := [''g1'' \<mapsto> (raceLock, 60100)]\<rparr>"

definition raceWin :: guessResult where
  "raceWin = successResult raceGuess True True
               (Some \<lparr>wiPlayerId = ''p1'', wiGuessCount = 1, wiTimeMs = 100\<rparr>)"

text \<open>What \<open>processGuess\<close> returns for a first, wrong guess in the sample match.\<close>

definition firstMiss :: "string \<Rightarrow> nat \<Rightarrow> guessSuccess" where
  "firstMiss w now =
     \<lparr>resGuess = \<lparr>word = w, evaluation = evaluateGuess w ''CRANE'', timestamp = now,
                   guessNumber = 1\<rparr>,
      resIsCorrect = False, resGameEnded = False, resWinner = None,
      resRemainingGuesses = 5\<rparr>"

text \<open>
  A lost update and a late win in the sample match. The first player sends CRANE and the
  second SLATE; both calls read the active match; the first call takes the win lock and
  writes the finished match (\<open>lostWon\<close>); then the second call writes its own copy, in which
  the match is still active (\<open>lostReopened\<close>). A minute later the second player sends
  CRANE (\<open>lateWon\<close>).
\<close>

definition lostStart :: server where
  "lostStart =
     \<lparr>clock = 100, store = sampleStore,
      calls = [Loading ''g1'' ''p1'' ''crane'', Loading ''g1'' ''p2'' ''slate'']\<rparr>"

definition lostWon :: server where
  "lostWon =
     resumeCall sampleDict 0 (resumeCall sampleDict 0
       (resumeCall sampleDict 1 (resumeCall sampleDict 0 lostStart)))"

definition lostReopened :: server where
  "lostReopened = resumeCall sampleDict 1 lostWon"

definition lateWon :: server where
  "lateWon =
     resumeCall sampleDict 2 (resumeCall sampleDict 2 (resumeCall sampleDict 2
       (invokeCall ''g1'' ''p2'' ''crane'' (tickTo 60101 lostReopened))))"

text \<open>The games, stores and guess records that these servers hold on their way.\<close>

definition missGame :: game where
  "missGame =
     sampleGame\<lparr>players := pushGuess ''p2'' (resGuess (firstMiss ''SLATE'' 100)) (players sampleGame),
                replayLog := [GuessEntry ''p2'' (resGuess (firstMiss ''SLATE'' 100))]\<rparr>"

definition wonStore :: redis where
  "wonStore = setGameState lockedStore 100 ''g1'' (claimWin (raceGame ''p1'') ''p1'' 100) 3600"

definition reopenedStore :: redis where
  "reopenedStore = setGameState wonStore 100 ''g1'' missGame 3600"

definition lateGuess :: guessRecord where
  "lateGuess = \<lparr>word = ''CRANE'', evaluation = evaluateGuess ''CRANE'' ''CRANE'',
                 timestamp = 60101, guessNumber = 2\<rparr>"

definition lateGame :: game where
  "lateGame = missGame\<lparr>players := pushGuess ''p2'' lateGuess (players missGame),
                        replayLog := replayLog missGame @ [GuessEntry ''p2'' lateGuess]\<rparr>"

section \<open>Verification of evaluateGuess\<close>

lemma evaluateGuess_llama:
  "map (map_option color) (evaluateGuess ''LLAMA'' ''ALLOY'')
     = [Some Yellow, Some Green, Some Yellow, Some Grey, Some Grey]"
  by code_simp

lemma upperChar_id: "65 \<le> (of_char c :: nat) \<Longrightarrow> (of_char c :: nat) \<le> 90 \<Longrightarrow> upperChar c = c"
  by (simp add: upperChar_def)

lemma toUpperCase_id: "isUpperWord w \<Longrightarrow> toUpperCase w = w"
  by (induction w) (simp_all add: isUpperWord_def toUpperCase_def upperChar_id)

lemma length_toUpperCase [simp]: "length (toUpperCase w) = length w"
  by (simp add: toUpperCase_def)

lemma firstPass_upto:
  assumes "n \<le> 5" "length res = 5" "length m = 5"
  shows "fold (markGreen g t) [0..<n] (res, m) =
           (map (\<lambda>i. if i < n \<and> greenAt g t i
                      then Some \<lparr>letter = charAt g i, color = Green\<rparr> else res ! i) [0..<5],
            map (\<lambda>i. if i < n \<and> greenAt g t i then True else m ! i) [0..<5])"
  using assms
proof (induction n)
  case 0
  then show ?case by (simp add: list_eq_iff_nth_eq)
next
  case (Suc n)
  then show ?case
    by (auto simp: markGreen_def greenAt_def list_eq_iff_nth_eq nth_list_update less_Suc_eq)
qed

lemma find_unmatched_eq:
  assumes "length m = 5"
  shows "find (\<lambda>j. \<not> m ! j \<and> c = charAt t j) [0..<5]
       = leftmostUnconsumed t {j. j < 5 \<and> m ! j} c"
  unfolding leftmostUnconsumed_def
  by (rule find_cong) auto

lemma find_upt_lt: "find P [0..<n] = Some j \<Longrightarrow> j < n"
  by (auto simp: find_Some_iff)

lemma consumed_update:
  assumes "length m = 5" "j < 5"
  shows "{x. x < 5 \<and> m[j := True] ! x} = insert j {x. x < 5 \<and> m ! x}"
  using assms by (auto simp: nth_list_update)

lemma secondPass_from:
  assumes "k \<le> 5" "length res = 5" "length m = 5"
    and "\<forall>i. k \<le> i \<and> i < 5 \<longrightarrow>
           res ! i = (if greenAt g t i
                      then Some \<lparr>letter = charAt g i, color = Green\<rparr> else None)"
  shows "fst (fold (markRest g t) [k..<5] (res, m)) =
           take k res @ map (\<lambda>(i, c). Some \<lparr>letter = charAt g i, color = c\<rparr>)
                            (zip [k..<5] (secondPassRule g t {j. j < 5 \<and> m ! j} [k..<5]))"
  using assms
proof (induction "5 - k" arbitrary: k res m)
  case 0
  then show ?case by simp
next
  case (Suc d)
  then have k: "k < 5" and d: "d = 5 - Suc k" by simp_all
  have upt: "[k..<5] = k # [Suc k..<5]" using k by (simp add: upt_conv_Cons)
  have resk: "res ! k = (if greenAt g t k
                      then Some \<lparr>letter = charAt g k, color = Green\<rparr> else None)"
    using Suc.prems k by simp
  show ?case
  proof (cases "greenAt g t k")
    case True
    have step: "markRest g t k (res, m) = (res, m)"
      using True resk by (simp add: markRest_def)
    have ih: "fst (fold (markRest g t) [Suc k..<5] (res, m)) =
           take (Suc k) res @ map (\<lambda>(i, c). Some \<lparr>letter = charAt g i, color = c\<rparr>)
              (zip [Suc k..<5] (secondPassRule g t {j. j < 5 \<and> m ! j} [Suc k..<5]))"
      using Suc.hyps(1)[OF d _ Suc.prems(2) Suc.prems(3)] Suc.prems(4) k by simp
    show ?thesis
      using True resk k Suc.prems(2)
      by (simp add: upt step ih take_Suc_conv_app_nth)
  next
    case False
    note ng = False
    let ?c = "charAt g k"
    have eq: "find (\<lambda>j. \<not> m ! j \<and> ?c = charAt t j) [0..<5]
               = leftmostUnconsumed t {j. j < 5 \<and> m ! j} ?c"
      by (rule find_unmatched_eq[OF Suc.prems(3)])
    show ?thesis
    proof (cases "leftmostUnconsumed t {j. j < 5 \<and> m ! j} ?c")
      case None
      let ?res' = "res[k := Some \<lparr>letter = ?c, color = Grey\<rparr>]"
      have step: "markRest g t k (res, m) = (?res', m)"
        using ng resk eq None by (simp add: markRest_def)
      have pre: "\<forall>i. Suc k \<le> i \<and> i < 5 \<longrightarrow>
           ?res' ! i = (if greenAt g t i
                      then Some \<lparr>letter = charAt g i, color = Green\<rparr> else None)"
        using Suc.prems(4) by (simp add: nth_list_update)
      have ih: "fst (fold (markRest g t) [Suc k..<5] (?res', m)) =
           take (Suc k) ?res' @ map (\<lambda>(i, c). Some \<lparr>letter = charAt g i, color = c\<rparr>)
              (zip [Suc k..<5] (secondPassRule g t {j. j < 5 \<and> m ! j} [Suc k..<5]))"
        using Suc.hyps(1)[OF d _ _ Suc.prems(3) pre] Suc.prems(2) k by simp
      show ?thesis
        using ng None k Suc.prems(2)
        by (simp add: upt step ih take_Suc_conv_app_nth)
    next
      case (Some j)
      have j: "j < 5" using Some eq find_upt_lt by metis
      let ?res' = "res[k := Some \<lparr>letter = ?c, color = Yellow\<rparr>]"
      let ?m' = "m[j := True]"
      have step: "markRest g t k (res, m) = (?res', ?m')"
        using ng resk eq Some by (simp add: markRest_def)
      have pre: "\<forall>i. Suc k \<le> i \<and> i < 5 \<longrightarrow>
           ?res' ! i = (if greenAt g t i
                      then Some \<lparr>letter = charAt g i, color = Green\<rparr> else None)"
        using Suc.prems(4) by (simp add: nth_list_update)
      have ih: "fst (fold (markRest g t) [Suc k..<5] (?res', ?m')) =
           take (Suc k) ?res' @ map (\<lambda>(i, c). Some \<lparr>letter = charAt g i, color = c\<rparr>)
              (zip [Suc k..<5] (secondPassRule g t {x. x < 5 \<and> ?m' ! x} [Suc k..<5]))"
        using Suc.hyps(1)[OF d _ _ _ pre, of ?m'] Suc.prems(2,3) k by simp
      show ?thesis
        using ng Some k Suc.prems(2) consumed_update[OF Suc.prems(3) j]
        by (simp add: upt step ih take_Suc_conv_app_nth)
    qed
  qed
qed

lemma firstPass_all:
  "fold (markGreen g t) [0..<5] (replicate 5 None, replicate 5 False) =
     (map (\<lambda>i. if greenAt g t i then Some \<lparr>letter = charAt g i, color = Green\<rparr> else None)
          [0..<5],
      map (greenAt g t) [0..<5])"
  by (simp add: firstPass_upto[where n = 5])

lemma evaluateGuess_rule:
  "evaluateGuess guess target =
     map (\<lambda>(i, c). Some \<lparr>letter = charAt (toUpperCase guess) i, color = c\<rparr>)
         (zip [0..<5] (twoPassRule (toUpperCase guess) (toUpperCase target)))"
proof -
  let ?g = "toUpperCase guess" and ?t = "toUpperCase target"
  let ?res = "map (\<lambda>i. if greenAt ?g ?t i
                        then Some \<lparr>letter = charAt ?g i, color = Green\<rparr> else None) [0..<5]"
  let ?m = "map (greenAt ?g ?t) [0..<5]"
  have cons: "{j. j < 5 \<and> ?m ! j} = set (filter (greenAt ?g ?t) [0..<5])"
    by auto
  have "fst (fold (markRest ?g ?t) [0..<5] (?res, ?m)) =
          take 0 ?res @ map (\<lambda>(i, c). Some \<lparr>letter = charAt ?g i, color = c\<rparr>)
             (zip [0..<5] (secondPassRule ?g ?t {j. j < 5 \<and> ?m ! j} [0..<5]))"
    by (rule secondPass_from) simp_all
  then show ?thesis
    unfolding evaluateGuess_def Let_def firstPass_all twoPassRule_def cons by simp
qed

lemma length_secondPassRule [simp]: "length (secondPassRule g t C is) = length is"
  by (induction "is" arbitrary: C) (simp_all split: option.splits)

lemma length_evaluateGuess: "length (evaluateGuess guess target) = 5"
  by (simp add: evaluateGuess_rule twoPassRule_def)

lemma filter_remove_one:
  assumes "distinct xs" "j \<in> set xs" "Q j"
  shows "Suc (length (filter (\<lambda>x. x \<noteq> j \<and> Q x) xs)) = length (filter Q xs)"
  using assms
proof (induction xs)
  case Nil
  then show ?case by simp
next
  case (Cons a xs)
  show ?case
  proof (cases "a = j")
    case True
    then have "j \<notin> set xs" using Cons.prems by simp
    then have "filter (\<lambda>x. x \<noteq> j \<and> Q x) xs = filter Q xs"
      by (intro filter_cong) auto
    then show ?thesis using True Cons.prems by simp
  next
    case False
    then show ?thesis using Cons by auto
  qed
qed

lemma avail_consume_same:
  assumes "j < 5" "j \<notin> C" "charAt t j = Some L"
  shows "Suc (avail t (insert j C) L) = avail t C L"
proof -
  have "Suc (length (filter (\<lambda>x. x \<noteq> j \<and> (x \<notin> C \<and> charAt t x = Some L)) [0..<5]))
          = length (filter (\<lambda>x. x \<notin> C \<and> charAt t x = Some L) [0..<5])"
    by (rule filter_remove_one) (use assms in auto)
  moreover have "(\<lambda>x. x \<notin> insert j C \<and> charAt t x = Some L)
       = (\<lambda>x. x \<noteq> j \<and> (x \<notin> C \<and> charAt t x = Some L))" by auto
  ultimately show ?thesis by (simp add: avail_def)
qed

lemma avail_consume_other:
  assumes "charAt t j \<noteq> Some L"
  shows "avail t (insert j C) L = avail t C L"
proof -
  have "filter (\<lambda>x. x \<notin> insert j C \<and> charAt t x = Some L) [0..<5]
      = filter (\<lambda>x. x \<notin> C \<and> charAt t x = Some L) [0..<5]"
    by (rule filter_cong) (use assms in auto)
  then show ?thesis by (simp add: avail_def)
qed

lemma avail_none:
  assumes "leftmostUnconsumed t C (Some L) = None"
  shows "avail t C L = 0"
  using assms by (auto simp: avail_def leftmostUnconsumed_def find_None_iff filter_empty_conv)

lemma leftmost_props:
  assumes "leftmostUnconsumed t C c = Some j"
  shows "j < 5 \<and> j \<notin> C \<and> c = charAt t j"
  using assms by (auto simp: leftmostUnconsumed_def find_Some_iff)

lemma rule_count:
  "length (filter (\<lambda>(i, c). charAt g i = Some L \<and> c \<noteq> Grey)
                  (zip is (secondPassRule g t C is)))
   = length (filter (\<lambda>i. charAt g i = Some L \<and> greenAt g t i) is)
     + min (length (filter (\<lambda>i. charAt g i = Some L \<and> \<not> greenAt g t i) is)) (avail t C L)"
proof (induction "is" arbitrary: C)
  case Nil
  then show ?case by simp
next
  case (Cons i rest)
  show ?case
  proof (cases "greenAt g t i")
    case True
    then show ?thesis using Cons.IH[of C] by simp
  next
    case ng: False
    show ?thesis
    proof (cases "leftmostUnconsumed t C (charAt g i)")
      case None
      show ?thesis
      proof (cases "charAt g i = Some L")
        case True
        then have "avail t C L = 0" using None avail_none by simp
        then show ?thesis using ng None True Cons.IH[of C] by simp
      next
        case False
        then show ?thesis using ng None Cons.IH[of C] by simp
      qed
    next
      case (Some j)
      note props = leftmost_props[OF Some]
      show ?thesis
      proof (cases "charAt g i = Some L")
        case True
        then have "Suc (avail t (insert j C) L) = avail t C L"
          using props avail_consume_same by simp
        then show ?thesis using ng Some True Cons.IH[of "insert j C"] by auto
      next
        case False
        then have "avail t (insert j C) L = avail t C L"
          using props avail_consume_other by simp
        then show ?thesis using ng Some False Cons.IH[of "insert j C"] by simp
      qed
    qed
  qed
qed

lemma count_positions:
  "length w = 5 \<Longrightarrow> count_list w L = length (filter (\<lambda>i. charAt w i = Some L) [0..<5])"
proof -
  assume len: "length w = 5"
  have "filter ((=) L) (map ((!) w) [0..<length w]) = filter ((=) L) w"
    by (simp add: map_nth)
  then have "length (filter ((=) L) w) = length (filter (\<lambda>i. L = w ! i) [0..<length w])"
    by (simp add: filter_map comp_def flip: length_map[of "(!) w"])
  moreover have "filter (\<lambda>i. L = w ! i) [0..<5] = filter (\<lambda>i. charAt w i = Some L) [0..<5]"
    by (rule filter_cong) (auto simp: charAt_def elemAt_def len)
  ultimately show ?thesis by (simp add: count_list_eq_length_filter len)
qed

lemma split_count:
  "length (filter P xs) = length (filter (\<lambda>x. P x \<and> Q x) xs) + length (filter (\<lambda>x. P x \<and> \<not> Q x) xs)"
  by (induction xs) auto

lemma nonGreyCount_rule:
  "nonGreyCount (map (\<lambda>(i, c). Some \<lparr>letter = charAt g i, color = c\<rparr>) (zip is cs)) L
     = length (filter (\<lambda>(i, c). charAt g i = Some L \<and> c \<noteq> Grey) (zip is cs))"
proof -
  have "nonGreyCount (map (\<lambda>(i, c). Some \<lparr>letter = charAt g i, color = c\<rparr>) ps) L
     = length (filter (\<lambda>(i, c). charAt g i = Some L \<and> c \<noteq> Grey) ps)" for ps
    unfolding nonGreyCount_def by (induction ps) auto
  then show ?thesis .
qed

lemma evaluateGuess_count:
  assumes "length guess = 5" "length target = 5" "isUpperWord guess" "isUpperWord target"
  shows "nonGreyCount (evaluateGuess guess target) L
           = min (count_list guess L) (count_list target L)"
proof -
  let ?G = "\<lambda>i. greenAt guess target i"
  let ?gr = "length (filter (\<lambda>i. charAt guess i = Some L \<and> ?G i) [0..<5])"
  let ?ng = "length (filter (\<lambda>i. charAt guess i = Some L \<and> \<not> ?G i) [0..<5])"
  have up: "toUpperCase guess = guess" "toUpperCase target = target"
    using assms by (simp_all add: toUpperCase_id)
  have cg: "count_list guess L = ?gr + ?ng"
    using count_positions[OF assms(1)] split_count[of "\<lambda>i. charAt guess i = Some L" "[0..<5]" ?G]
    by simp
  have "filter (\<lambda>i. charAt target i = Some L \<and> ?G i) [0..<5]
        = filter (\<lambda>i. charAt guess i = Some L \<and> ?G i) [0..<5]"
    by (rule filter_cong) (auto simp: greenAt_def)
  moreover have "filter (\<lambda>j. j \<notin> set (filter ?G [0..<5]) \<and> charAt target j = Some L) [0..<5]
        = filter (\<lambda>i. charAt target i = Some L \<and> \<not> ?G i) [0..<5]"
    by (rule filter_cong) auto
  ultimately have ct: "count_list target L = ?gr + avail target (set (filter ?G [0..<5])) L"
    using count_positions[OF assms(2)]
      split_count[of "\<lambda>i. charAt target i = Some L" "[0..<5]" ?G]
    by (simp add: avail_def)
  have "nonGreyCount (evaluateGuess guess target) L
          = ?gr + min ?ng (avail target (set (filter ?G [0..<5])) L)"
    by (simp add: evaluateGuess_rule up nonGreyCount_rule twoPassRule_def rule_count)
  then show ?thesis using cg ct by simp
qed

text \<open>
  C1. For 5-letter upper-case words, \<open>evaluateGuess\<close> returns five tiles, each carrying the
  guess letter of its position and the colour that the two-pass rule of the specification
  gives it (first pass: green where guess and target agree, and that target position is
  consumed; second pass: yellow iff some unconsumed target position holds the letter, the
  leftmost such position being consumed, grey otherwise). Hence, for every letter, the
  number of non-grey tiles with that letter is the minimum of its number of occurrences in
  the guess and in the target; and LLAMA against ALLOY gives yellow, green, yellow, grey,
  grey.
\<close>

theorem evaluateGuess_two_pass:
  assumes "length guess = 5" "length target = 5" "isUpperWord guess" "isUpperWord target"
  shows "evaluateGuess guess target =
           map (\<lambda>(i, c). Some \<lparr>letter = charAt guess i, color = c\<rparr>)
               (zip [0..<5] (twoPassRule guess target))
         \<and> length (evaluateGuess guess target) = 5
         \<and> (\<forall>L. nonGreyCount (evaluateGuess guess target) L
                  = min (count_list guess L) (count_list target L))
         \<and> map (map_option color) (evaluateGuess ''LLAMA'' ''ALLOY'')
             = [Some Yellow, Some Green, Some Yellow, Some Grey, Some Grey]"
proof -
  have up: "toUpperCase guess = guess" "toUpperCase target = target"
    using assms by (simp_all add: toUpperCase_id)
  have "evaluateGuess guess target =
           map (\<lambda>(i, c). Some \<lparr>letter = charAt guess i, color = c\<rparr>)
               (zip [0..<5] (twoPassRule guess target))"
    using evaluateGuess_rule[of guess target] by (simp add: up)
  moreover have "\<forall>L. nonGreyCount (evaluateGuess guess target) L
                  = min (count_list guess L) (count_list target L)"
    using evaluateGuess_count[OF assms] by blast
  ultimately show ?thesis
    using length_evaluateGuess evaluateGuess_llama by blast
qed

theorem evaluateGuess_two_pass_witness:
  "length ''LLAMA'' = 5 \<and> length ''ALLOY'' = 5 \<and> isUpperWord ''LLAMA'' \<and> isUpperWord ''ALLOY''
   \<and> nonGreyCount (evaluateGuess ''LLAMA'' ''ALLOY'') (CHR ''L'') = 2
   \<and> nonGreyCount (evaluateGuess ''LLAMA'' ''ALLOY'') (CHR ''A'') = 1"
proof -
  have h1: "length ''LLAMA'' = 5" and h2: "length ''ALLOY'' = 5" by simp_all
  have h3: "isUpperWord ''LLAMA''" and h4: "isUpperWord ''ALLOY''"
    by (simp_all add: isUpperWord_def)
  have counts: "\<forall>L. nonGreyCount (evaluateGuess ''LLAMA'' ''ALLOY'') L
                  = min (count_list ''LLAMA'' L) (count_list ''ALLOY'' L)"
    using evaluateGuess_two_pass[OF h1 h2 h3 h4] by blast
  have "nonGreyCount (evaluateGuess ''LLAMA'' ''ALLOY'') (CHR ''L'') = 2"
    by (simp add: counts)
  moreover have "nonGreyCount (evaluateGuess ''LLAMA'' ''ALLOY'') (CHR ''A'') = 1"
    by (simp add: counts)
  ultimately show ?thesis using h1 h2 h3 h4 by blast
qed

section \<open>Verification of processGuess and forfeitGame\<close>

lemma upperChar_idem: "upperChar (upperChar c) = upperChar c"
proof (cases "97 \<le> (of_char c :: nat) \<and> (of_char c :: nat) \<le> 122")
  case True
  let ?u = "char_of ((of_char c :: nat) - 32) :: char"
  have u: "upperChar c = ?u" using True by (simp add: upperChar_def Let_def)
  have "(of_char c :: nat) - 32 < 256" using True by linarith
  then have "(of_char ?u :: nat) = of_char c - 32" by simp
  then have "\<not> (97 \<le> (of_char ?u :: nat) \<and> (of_char ?u :: nat) \<le> 122)"
    using True by linarith
  then have "upperChar ?u = ?u" unfolding upperChar_def Let_def by (rule if_not_P)
  then show ?thesis by (simp add: u)
next
  case False
  then have "upperChar c = c" unfolding upperChar_def Let_def by (rule if_not_P)
  then show ?thesis by simp
qed

lemma set_trim: "set (trim s) \<subseteq> set s"
proof -
  have "set (dropWhile isSpace (rev (dropWhile isSpace s))) \<subseteq> set (rev (dropWhile isSpace s))"
    by (meson set_dropWhileD subsetI)
  moreover have "set (dropWhile isSpace s) \<subseteq> set s"
    by (meson set_dropWhileD subsetI)
  ultimately show ?thesis by (auto simp: trim_def)
qed

lemma toUpperCase_normalized: "toUpperCase (trim (toUpperCase raw)) = trim (toUpperCase raw)"
proof -
  have "\<forall>c \<in> set (trim (toUpperCase raw)). upperChar c = c"
    using set_trim[of "toUpperCase raw"] by (auto simp: toUpperCase_def upperChar_idem)
  then show ?thesis unfolding toUpperCase_def[of "trim _"] by (simp add: map_idI)
qed

lemma isValidGuess_normalized:
  "isValidGuess d (trim (toUpperCase raw)) = (trim (toUpperCase raw) \<in> set (validGuesses d))"
  by (simp add: isValidGuess_def toUpperCase_normalized)

lemma validateGuess_Inl:
  "validateGuess d stored pid w = Inl res \<Longrightarrow> (\<exists>e. res = Failure e) \<or> res = Thrown TypeError"
  by (auto simp: validateGuess_def getProperty_def split: option.splits property.splits if_splits)

lemma validateGuess_length:
  "length w \<noteq> 5 \<Longrightarrow> \<exists>e. validateGuess d stored pid w = Inl (Failure e)"
  by (auto simp: validateGuess_def getProperty_def split: option.splits property.splits)

lemma processGuess_Inl:
  "validateGuess d (getGameState r now gid) pid (trim (toUpperCase raw)) = Inl res
     \<Longrightarrow> processGuess d r now gid pid raw = (res, r)"
  by (simp add: processGuess_def Let_def)

lemma processGuess_Success:
  "validateGuess d (getGameState r now gid) pid (trim (toUpperCase raw)) = Inr gp
     \<Longrightarrow> \<exists>res r'. processGuess d r now gid pid raw = (Success res, r')"
  by (cases gp) (simp add: processGuess_def Let_def successResult_def split_def)

lemma processGuess_result_cases:
  "(\<exists>res. validateGuess d (getGameState r now gid) pid (trim (toUpperCase raw)) = Inl res
        \<and> ((\<exists>e. res = Failure e) \<or> res = Thrown TypeError)
        \<and> processGuess d r now gid pid raw = (res, r))
   \<or> (\<exists>gp res r'. validateGuess d (getGameState r now gid) pid (trim (toUpperCase raw)) = Inr gp
        \<and> processGuess d r now gid pid raw = (Success res, r'))"
proof (cases "validateGuess d (getGameState r now gid) pid (trim (toUpperCase raw))")
  case (Inl res)
  then show ?thesis using processGuess_Inl validateGuess_Inl by blast
next
  case (Inr gp)
  then show ?thesis using processGuess_Success by blast
qed

lemma validateGuess_Inr_iff:
  "(\<exists>gp. validateGuess d stored pid w = Inr gp) \<longleftrightarrow>
     (\<exists>g p. stored = Some g \<and> status g = Active \<and> map_of (players g) pid = Some p
            \<and> length w = 5 \<and> isValidGuess d w \<and> length (guesses p) < MAX_GUESSES)"
  by (auto simp: validateGuess_def getProperty_def split: option.splits)

lemma processGuess_short:
  assumes "length (trim (toUpperCase raw)) \<noteq> 5"
  shows "\<exists>e. processGuess d r now gid pid raw = (Failure e, r)"
proof -
  obtain e where "validateGuess d (getGameState r now gid) pid (trim (toUpperCase raw))
      = Inl (Failure e)"
    using validateGuess_length[OF assms] by blast
  then show ?thesis using processGuess_Inl by blast
qed

text \<open>
  What the validation does for a player of the match: with the match active and fewer than
  six guesses made, a word is accepted iff, upper-cased and trimmed, it has exactly five
  letters and is in the valid-guess set.
\<close>

lemma processGuess_accepts_iff:
  assumes "getGameState r now gid = Some g" "status g = Active"
    and "map_of (players g) pid = Some p" "length (guesses p) < MAX_GUESSES"
  shows "(\<exists>res r'. processGuess d r now gid pid raw = (Success res, r'))
           \<longleftrightarrow> (length (trim (toUpperCase raw)) = 5
                \<and> trim (toUpperCase raw) \<in> set (validGuesses d))"
proof -
  let ?w = "trim (toUpperCase raw)"
  have "(\<exists>res r'. processGuess d r now gid pid raw = (Success res, r'))
        \<longleftrightarrow> (\<exists>gp. validateGuess d (getGameState r now gid) pid ?w = Inr gp)"
    using processGuess_result_cases[of d r now gid pid raw] by auto
  also have "\<dots> \<longleftrightarrow> (length ?w = 5 \<and> isValidGuess d ?w)"
    by (simp only: validateGuess_Inr_iff) (use assms in auto)
  finally show ?thesis by (simp add: isValidGuess_normalized)
qed

text \<open>
  The causes of rejection that end in a returned error: match missing, not active, player
  neither in the match nor an inherited key, six guesses made, wrong length, word not valid.
\<close>

lemma processGuess_rejects:
  assumes "getGameState r now gid = None
        \<or> (\<exists>g. getGameState r now gid = Some g
               \<and> (status g \<noteq> Active \<or> getProperty (players g) pid = Undefined
                   \<or> (\<exists>p. map_of (players g) pid = Some p
                          \<and> length (guesses p) \<ge> MAX_GUESSES)))
        \<or> length (trim (toUpperCase raw)) \<noteq> 5
        \<or> trim (toUpperCase raw) \<notin> set (validGuesses d)"
  shows "\<exists>e. processGuess d r now gid pid raw = (Failure e, r)"
proof -
  let ?w = "trim (toUpperCase raw)"
  have "\<exists>e. validateGuess d (getGameState r now gid) pid ?w = Inl (Failure e)"
    using assms
    by (auto simp: validateGuess_def getProperty_def isValidGuess_normalized
        split: option.splits property.splits if_splits)
  then show ?thesis using processGuess_Inl by blast
qed

text \<open>Whatever is not accepted, returned or thrown, leaves the store exactly as it was.\<close>

lemma processGuess_not_accepted:
  assumes "processGuess d r now gid pid raw = (res, r')" "\<forall>s. res \<noteq> Success s"
  shows "r' = r"
  using processGuess_result_cases[of d r now gid pid raw] assms by auto

text \<open>
  A player id that is an inherited key of the \<open>players\<close> object and not a player of the
  active match: a word of the wrong length or outside the valid-guess set is refused, and
  any other word makes the call throw.
\<close>

lemma processGuess_inherited_key:
  assumes "getGameState r now gid = Some g" "status g = Active"
    and "getProperty (players g) pid = Inherited"
    and "length (trim (toUpperCase raw)) = 5" "trim (toUpperCase raw) \<in> set (validGuesses d)"
  shows "processGuess d r now gid pid raw = (Thrown TypeError, r)"
proof -
  have "validateGuess d (getGameState r now gid) pid (trim (toUpperCase raw))
          = Inl (Thrown TypeError)"
    using assms by (simp add: validateGuess_def getProperty_def isValidGuess_normalized)
  then show ?thesis by (rule processGuess_Inl)
qed

text \<open>
  C10. When the stored match is absent or not active (in particular finished),
  \<open>forfeitGame\<close> returns \<open>null\<close> and the store, with the recorded winner of the match, is
  unchanged.
\<close>

theorem forfeitGame_inactive_no_write:
  assumes "getGameState r now gid = None
           \<or> (\<exists>g. getGameState r now gid = Some g \<and> status g \<noteq> Active)"
  shows "forfeitGame r now gid forfeitPlayerId = (None, r)"
  using assms by (auto simp: forfeitGame_def)

lemma sampleDict_eq:
  "sampleDict = \<lparr>answers = [''CRANE''], validGuesses = [''SLATE'', ''BLAME'', ''CRANE'']\<rparr>"
  unfolding sampleDict_def by code_simp

lemma norm_slate: "trim (toUpperCase '' slate '') = ''SLATE''"
  by code_simp

lemma norm_hero: "trim (toUpperCase ''hero'') = ''HERO''"
  by code_simp

lemma sample_get: "getGameState sampleStore 0 ''g1'' = Some sampleGame"
  by (simp add: getGameState_def sampleStore_def live_def)

lemma norm_crane: "trim (toUpperCase ''crane'') = ''CRANE''" by code_simp

text \<open>
  C3 at a failing input: in the sample match the socket registered under the id
  \<open>constructor\<close>, which is no player of the match, sends the valid word crane.
  \<open>game.players['constructor']\<close> is the inherited constructor function, so the test
  \<open>!player\<close> does not return \<open>Player not in game\<close>, and \<open>processGuess\<close> throws at
  \<open>player.guesses.length\<close> instead of returning an error; the handler answers with its
  general \<open>error\<close> event. The store is left as it was.
\<close>

theorem processGuess_inherited_key_throws:
  "getGameState sampleStore 0 ''g1'' = Some sampleGame
   \<and> status sampleGame = Active
   \<and> map_of (players sampleGame) ''constructor'' = None
   \<and> processGuess sampleDict sampleStore 0 ''g1'' ''constructor'' ''crane''
       = (Thrown TypeError, sampleStore)
   \<and> onGameGuess sampleDict sampleStore sampleDatabase sampleRegistry 0 ''s9''
         (Some ''constructor'') ''g1'' ''crane''
       = ([\<lparr>toSocket = ''s9'', eventName = ''error'',
            payload = JObj [(''message'', JStr ''Failed to process guess'')]\<rparr>],
          sampleStore, sampleDatabase)"
proof -
  have g: "getGameState sampleStore 0 ''g1'' = Some sampleGame" by (rule sample_get)
  have a: "status sampleGame = Active" by (simp add: sampleGame_def)
  have m: "map_of (players sampleGame) ''constructor'' = None" by (simp add: sampleGame_def)
  have i: "getProperty (players sampleGame) ''constructor'' = Inherited"
    by (simp add: getProperty_def m OBJECT_PROTOTYPE_KEYS_def)
  have t: "processGuess sampleDict sampleStore 0 ''g1'' ''constructor'' ''crane''
       = (Thrown TypeError, sampleStore)"
    by (rule processGuess_inherited_key[OF g a i]) (simp_all add: norm_crane sampleDict_eq)
  have "onGameGuess sampleDict sampleStore sampleDatabase sampleRegistry 0 ''s9''
         (Some ''constructor'') ''g1'' ''crane''
       = ([errorEmit ''s9'' ''Failed to process guess''], sampleStore, sampleDatabase)"
    by (simp add: onGameGuess_def t)
  then show ?thesis using g a m t by (simp add: errorEmit_def)
qed

text \<open>In the same match a player's word is accepted, and a word of four letters refused.\<close>

lemma processGuess_sample:
  "(\<exists>res r'. processGuess sampleDict sampleStore 0 ''g1'' ''p1'' '' slate '' = (Success res, r'))
   \<and> (\<exists>e. processGuess sampleDict sampleStore 0 ''g1'' ''p1'' ''hero'' = (Failure e, sampleStore))"
proof -
  have h1: "getGameState sampleStore 0 ''g1'' = Some sampleGame" by (rule sample_get)
  have h2: "status sampleGame = Active" by (simp add: sampleGame_def)
  have h3: "map_of (players sampleGame) ''p1'' = Some (samplePlayer ''p1'' ''ann'' 1200)"
    by (simp add: sampleGame_def)
  have h4: "length (guesses (samplePlayer ''p1'' ''ann'' 1200)) < MAX_GUESSES"
    by (simp add: samplePlayer_def MAX_GUESSES_def)
  have "\<exists>res r'. processGuess sampleDict sampleStore 0 ''g1'' ''p1'' '' slate '' = (Success res, r')"
    using processGuess_accepts_iff[OF h1 h2 h3 h4, of sampleDict "'' slate ''"]
    by (simp add: norm_slate sampleDict_eq)
  moreover have "\<exists>e. processGuess sampleDict sampleStore 0 ''g1'' ''p1'' ''hero''
      = (Failure e, sampleStore)"
    by (rule processGuess_short) (simp add: norm_hero)
  ultimately show ?thesis by blast
qed

theorem forfeitGame_inactive_no_write_witness:
  "(getGameState sampleFinishedStore 6000 ''g1'' = None
    \<or> (\<exists>g. getGameState sampleFinishedStore 6000 ''g1'' = Some g \<and> status g \<noteq> Active))
   \<and> forfeitGame sampleFinishedStore 6000 ''g1'' ''p2'' = (None, sampleFinishedStore)
   \<and> recordedWinner (snd (forfeitGame sampleFinishedStore 6000 ''g1'' ''p2'')) ''g1'' = Some ''p2''"
proof -
  have h: "getGameState sampleFinishedStore 6000 ''g1'' = None
    \<or> (\<exists>g. getGameState sampleFinishedStore 6000 ''g1'' = Some g \<and> status g \<noteq> Active)"
    by (simp add: getGameState_def sampleFinishedStore_def live_def)
  have w: "recordedWinner sampleFinishedStore ''g1'' = Some ''p2''"
    by (simp add: recordedWinner_def sampleFinishedStore_def)
  show ?thesis
    using forfeitGame_inactive_no_write[OF h, of "''p2''"] h w by simp
qed

section \<open>Verification of the bot's constraint filter\<close>

lemma afterGuesses_keeps:
  assumes "T \<in> set (possibleAnswers b)"
    and "\<forall>c \<in> set (constraints b). getPattern (pastGuess c) T = pattern c"
  shows "T \<in> set (possibleAnswers (afterGuesses b T gs))"
  using assms
proof (induction gs arbitrary: b)
  case Nil
  then show ?case by simp
next
  case (Cons g gs)
  let ?b = "updateBotState b g (getPattern g T)"
  have cs: "\<forall>c \<in> set (constraints ?b). getPattern (pastGuess c) T = pattern c"
    using Cons.prems(2) by (auto simp: updateBotState_def Let_def)
  then have "matchesConstraints T (constraints ?b)"
    by (simp add: matchesConstraints_def list_all_iff)
  then have "T \<in> set (possibleAnswers ?b)"
    using Cons.prems(1) by (simp add: updateBotState_def Let_def filterPossibleAnswers_def)
  then show ?case using Cons.IH[of ?b] cs by simp
qed

text \<open>
  C8. Starting from \<open>createBotInstance\<close> and applying \<open>updateBotState\<close> with any guesses, each
  with its true pattern against a target taken from the answer list, the target stays among
  the bot's possible answers.
\<close>

theorem bot_never_eliminates_target:
  assumes "T \<in> set (answers d)"
  shows "T \<in> set (possibleAnswers (afterGuesses (createBotInstance d dif T) T gs))"
  by (rule afterGuesses_keeps) (use assms in \<open>simp_all add: createBotInstance_def\<close>)

theorem bot_never_eliminates_target_witness:
  "''CRANE'' \<in> set (answers sampleDict)
   \<and> ''CRANE'' \<in> set (possibleAnswers
        (afterGuesses (createBotInstance sampleDict ''hard'' ''CRANE'') ''CRANE''
           [''SLATE'', ''BLAME'']))"
proof -
  have h: "''CRANE'' \<in> set (answers sampleDict)" by (simp add: sampleDict_eq)
  show ?thesis using bot_never_eliminates_target[OF h] h by blast
qed

section \<open>Verification of the bot opponent\<close>

lemma randomIndex_lt:
  assumes "0 \<le> x" "x < 1" "0 < n"
  shows "randomIndex x n < n"
proof -
  have "x * real n < real n" using assms by simp
  then have "\<lfloor>x * real n\<rfloor> < int n" by (simp add: floor_less_iff)
  moreover have "0 \<le> \<lfloor>x * real n\<rfloor>" using assms by simp
  ultimately show ?thesis by (simp add: randomIndex_def nat_less_iff)
qed

lemma length_OPTIMAL: "length OPTIMAL_FIRST_GUESSES = 5"
  by (simp add: OPTIMAL_FIRST_GUESSES_def)

lemma selectGuess_first_not_easy:
  assumes "dif \<noteq> ''easy''"
  shows "fst (selectGuess d dif possible [] 1 rnd)
           = Inr (elemAt OPTIMAL_FIRST_GUESSES (randomIndex (rnd 0) 5))"
  unfolding selectGuess_def Let_def nextRandom_def length_OPTIMAL
  using assms by simp

lemma opener_in_set:
  assumes "i < 5"
  shows "\<exists>w \<in> {''SALET'', ''CRANE'', ''SLATE'', ''TRACE'', ''CRATE''}.
           elemAt OPTIMAL_FIRST_GUESSES i = Some w"
proof -
  have "i = 0 \<or> i = 1 \<or> i = 2 \<or> i = 3 \<or> i = 4" using assms by linarith
  then show ?thesis
    by (auto simp: elemAt_def OPTIMAL_FIRST_GUESSES_def)
qed

lemma getNextGuess_first:
  "fst (selectGuess d dif (answers d) [] 1 rnd) = Inr w
     \<Longrightarrow> \<exists>delayMs. fst (getNextGuess d (createBotInstance d dif T) rnd) = Inr (w, delayMs)"
  by (cases "selectGuess d dif (answers d) [] 1 rnd")
     (simp add: getNextGuess_def createBotInstance_def Let_def split_def)

lemma selectGuess_first_not_easy_rest:
  assumes "dif \<noteq> ''easy''"
  shows "snd (selectGuess d dif possible [] 1 rnd) = (\<lambda>n. rnd (Suc n))"
  unfolding selectGuess_def Let_def nextRandom_def
  using assms by simp

lemma selectGuess_first_easy_rest:
  "snd (selectGuess d ''easy'' possible [] 1 rnd) = (\<lambda>n. rnd (Suc n))"
  unfolding selectGuess_def Let_def nextRandom_def
  by simp

lemma getNextGuess_fresh:
  "fst (getNextGuess d (createBotInstance d dif T) rnd) =
     (case fst (selectGuess d dif (answers d) [] 1 rnd) of
        Inl f \<Rightarrow> Inl f
      | Inr guess \<Rightarrow>
          Inr (guess,
               \<lfloor>snd (selectGuess d dif (answers d) [] 1 rnd) 0
                    * (real (delayMax (configOf dif)) - real (delayMin (configOf dif)))
                  + real (delayMin (configOf dif))\<rfloor>))"
  by (cases "selectGuess d dif (answers d) [] 1 rnd")
     (simp add: getNextGuess_def createBotInstance_def Let_def nextRandom_def split_def
        split: sum.splits)

text \<open>
  C9. \<open>createBotOpponent\<close> maps the rating to the difficulty and bot rating of the table
  (below 900: easy, 800; 900 to 1199: medium, 1100; 1200 to 1499: hard, 1400; from 1500:
  impossible, 1800), and the first guess of a spawned bot that is not easy (guess number 1,
  no constraints, which is what \<open>getNextGuess\<close> asks for on the fresh bot instance) is one
  of SALET, CRANE, SLATE, TRACE, CRATE.
\<close>

theorem createBotOpponent_table_and_opener:
  "(playerElo < 900 \<longrightarrow>
      opponentDifficulty (createBotOpponent uuid playerElo) = Some ''easy''
      \<and> opponentElo (createBotOpponent uuid playerElo) = 800)
   \<and> (900 \<le> playerElo \<and> playerElo < 1200 \<longrightarrow>
      opponentDifficulty (createBotOpponent uuid playerElo) = Some ''medium''
      \<and> opponentElo (createBotOpponent uuid playerElo) = 1100)
   \<and> (1200 \<le> playerElo \<and> playerElo < 1500 \<longrightarrow>
      opponentDifficulty (createBotOpponent uuid playerElo) = Some ''hard''
      \<and> opponentElo (createBotOpponent uuid playerElo) = 1400)
   \<and> (1500 \<le> playerElo \<longrightarrow>
      opponentDifficulty (createBotOpponent uuid playerElo) = Some ''impossible''
      \<and> opponentElo (createBotOpponent uuid playerElo) = 1800)
   \<and> (\<forall>dif. opponentDifficulty (createBotOpponent uuid playerElo) = Some dif
             \<and> dif \<noteq> ''easy'' \<and> 0 \<le> rnd 0 \<and> rnd 0 < 1 \<longrightarrow>
         (\<exists>w \<in> {''SALET'', ''CRANE'', ''SLATE'', ''TRACE'', ''CRATE''}.
            fst (selectGuess d dif (answers d) [] 1 rnd) = Inr (Some w)
            \<and> (\<exists>delayMs. fst (getNextGuess d (createBotInstance d dif T) rnd)
                            = Inr (Some w, delayMs))))"
proof (intro conjI allI impI)
  fix dif
  assume a: "opponentDifficulty (createBotOpponent uuid playerElo) = Some dif
             \<and> dif \<noteq> ''easy'' \<and> 0 \<le> rnd 0 \<and> rnd 0 < 1"
  then have "randomIndex (rnd 0) 5 < 5" by (simp add: randomIndex_lt)
  then obtain w where w: "w \<in> {''SALET'', ''CRANE'', ''SLATE'', ''TRACE'', ''CRATE''}"
      "elemAt OPTIMAL_FIRST_GUESSES (randomIndex (rnd 0) 5) = Some w"
    using opener_in_set by blast
  have s: "fst (selectGuess d dif (answers d) [] 1 rnd) = Inr (Some w)"
    using selectGuess_first_not_easy[of dif d "answers d" rnd] a w(2) by simp
  then show "\<exists>w \<in> {''SALET'', ''CRANE'', ''SLATE'', ''TRACE'', ''CRATE''}.
            fst (selectGuess d dif (answers d) [] 1 rnd) = Inr (Some w)
            \<and> (\<exists>delayMs. fst (getNextGuess d (createBotInstance d dif T) rnd)
                            = Inr (Some w, delayMs))"
    using w(1) getNextGuess_first[OF s] by blast
qed (simp_all add: createBotOpponent_def)

theorem createBotOpponent_table_and_opener_witness:
  "(1200 \<le> (1350::int) \<and> (1350::int) < 1500)
   \<and> opponentDifficulty (createBotOpponent ''u'' 1350) = Some ''hard''
   \<and> opponentElo (createBotOpponent ''u'' 1350) = 1400
   \<and> ''hard'' \<noteq> ''easy'' \<and> (0::real) \<le> 1 / 2 \<and> (1 / 2 :: real) < 1
   \<and> fst (selectGuess sampleDict ''hard'' (answers sampleDict) [] 1 (\<lambda>n. 1 / 2))
           = Inr (Some ''SLATE'')
   \<and> fst (getNextGuess sampleDict (createBotInstance sampleDict ''hard'' ''CRANE'') (\<lambda>n. 1 / 2))
           = Inr (Some ''SLATE'', 20000)"
proof -
  note t = createBotOpponent_table_and_opener[where playerElo = 1350 and uuid = "''u''"
      and rnd = "\<lambda>n. 1 / 2" and d = sampleDict and T = "''CRANE''"]
  have h1: "1200 \<le> (1350::int) \<and> (1350::int) < 1500" by simp
  have h2: "''hard'' \<noteq> ''easy'' \<and> (0::real) \<le> 1 / 2 \<and> (1 / 2 :: real) < 1" by simp
  have d: "opponentDifficulty (createBotOpponent ''u'' 1350) = Some ''hard''
           \<and> opponentElo (createBotOpponent ''u'' 1350) = 1400"
    using t h1 by blast
  then obtain w delayMs where w: "w \<in> {''SALET'', ''CRANE'', ''SLATE'', ''TRACE'', ''CRATE''}"
      "fst (selectGuess sampleDict ''hard'' (answers sampleDict) [] 1 (\<lambda>n. 1 / 2)) = Inr (Some w)"
      "fst (getNextGuess sampleDict (createBotInstance sampleDict ''hard'' ''CRANE'') (\<lambda>n. 1 / 2))
          = Inr (Some w, delayMs)"
    using t h2 by blast
  have hard_not_easy: "''hard'' \<noteq> ''easy''" by simp
  have i: "randomIndex (1 / 2) 5 = 2" by (simp add: randomIndex_def)
  have s: "fst (selectGuess sampleDict ''hard'' (answers sampleDict) [] 1 (\<lambda>n. 1 / 2))
             = Inr (Some ''SLATE'')"
    using selectGuess_first_not_easy[of "''hard''" sampleDict "answers sampleDict" "\<lambda>n. 1 / 2"]
    by (simp add: i elemAt_def OPTIMAL_FIRST_GUESSES_def)
  then have weq: "w = ''SLATE''" using w(2) by simp
  have "fst (getNextGuess sampleDict (createBotInstance sampleDict ''hard'' ''CRANE'') (\<lambda>n. 1 / 2))
          = Inr (Some ''SLATE'', 20000)"
    unfolding getNextGuess_fresh s selectGuess_first_not_easy_rest[OF hard_not_easy]
    by (simp add: configOf_def DIFFICULTIES_def)
  then have "delayMs = 20000" using w(3) by simp
  then show ?thesis using h1 h2 d s w(3) weq by simp
qed

lemma length_COMMON: "length COMMON_WORDS = 657"
  unfolding COMMON_WORDS_def by simp

lemma common_243: "COMMON_WORDS ! 243 = ''HERO''"
  unfolding COMMON_WORDS_def by simp

lemma idx_243: "randomIndex (741 / 2000) 657 = 243"
  by (simp add: randomIndex_def)

lemma selectGuess_first_easy:
  "fst (selectGuess d ''easy'' possible [] 1 rnd)
     = Inr (elemAt COMMON_WORDS (randomIndex (rnd 0) (length COMMON_WORDS)))"
  unfolding selectGuess_def Let_def nextRandom_def
  by simp

lemma norm_HERO: "trim (toUpperCase ''HERO'') = ''HERO''"
  by code_simp

lemma onBotTimer_cases:
  "fst (onBotTimer d r db reg now gid b guess) = []
   \<or> (\<exists>botId w res r' ids. guess = Some w
         \<and> processGuess d r now gid botId w = (Success res, r')
         \<and> onBotTimer d r db reg now gid b guess = afterBotGuess db reg now gid r' ids b w res)"
proof (cases "getGameState r now gid")
  case None
  then show ?thesis by (simp add: onBotTimer_def)
next
  case (Some g)
  show ?thesis
  proof (cases "status g = Active")
    case False
    then show ?thesis using Some by (simp add: onBotTimer_def)
  next
    case True
    let ?isBotId = "\<lambda>k. case map_of (players g) k of None \<Rightarrow> False | Some p \<Rightarrow> isBot p"
    show ?thesis
    proof (cases "find ?isBotId (map fst (players g))")
      case None
      then show ?thesis using Some True by (simp add: onBotTimer_def Let_def)
    next
      case (Some botId)
      note bot = this
      show ?thesis
      proof (cases "botId = []")
        case True
        then show ?thesis using \<open>getGameState r now gid = Some g\<close> \<open>status g = Active\<close> bot
          by (simp add: onBotTimer_def Let_def)
      next
        case False
        note named = this
        show ?thesis
        proof (cases guess)
          case None
          then show ?thesis
            using \<open>getGameState r now gid = Some g\<close> \<open>status g = Active\<close> bot named
            by (simp add: onBotTimer_def Let_def)
        next
          case (Some w)
          obtain res0 r' where pg: "processGuess d r now gid botId w = (res0, r')"
            by (cases "processGuess d r now gid botId w")
          show ?thesis
          proof (cases res0)
            case (Failure err)
            then show ?thesis
              using \<open>getGameState r now gid = Some g\<close> \<open>status g = Active\<close> bot named Some pg
              by (simp add: onBotTimer_def Let_def)
          next
            case (Thrown f)
            then show ?thesis
              using \<open>getGameState r now gid = Some g\<close> \<open>status g = Active\<close> bot named Some pg
              by (simp add: onBotTimer_def Let_def)
          next
            case (Success res)
            have "onBotTimer d r db reg now gid b guess
                    = afterBotGuess db reg now gid r'
                        (case find (\<lambda>k. \<not> ?isBotId k) (map fst (players g)) of
                           None \<Rightarrow> []
                         | Some humanId \<Rightarrow> getPlayerSocketIds reg humanId) b w res"
              using \<open>getGameState r now gid = Some g\<close> \<open>status g = Active\<close> bot named Some pg
                Success
              by (simp add: onBotTimer_def Let_def)
            then show ?thesis using Some pg Success by blast
          qed
        qed
      qed
    qed
  qed
qed

lemma bot_turn_lost:
  assumes "length (trim (toUpperCase w)) \<noteq> 5"
  shows "fst (onBotTimer d r db reg now gid b (Some w)) = []"
    and "snd (onBotTimer d r db reg now gid b (Some w)) = (r, db, b, Stopped)"
proof -
  have f: "\<exists>e. processGuess d r now gid pid w = (Failure e, r)" for pid
    using processGuess_short[OF assms] .
  have "\<not> (\<exists>botId res r'. processGuess d r now gid botId w = (Success res, r'))"
  proof
    assume "\<exists>botId res r'. processGuess d r now gid botId w = (Success res, r')"
    then obtain botId res r' where "processGuess d r now gid botId w = (Success res, r')"
      by blast
    moreover obtain e where "processGuess d r now gid botId w = (Failure e, r)"
      using f by blast
    ultimately show False by simp
  qed
  then show "fst (onBotTimer d r db reg now gid b (Some w)) = []"
    using onBotTimer_cases[of d r db reg now gid b "Some w"] by auto
  show "snd (onBotTimer d r db reg now gid b (Some w)) = (r, db, b, Stopped)"
  proof (cases "getGameState r now gid")
    case None
    then show ?thesis by (simp add: onBotTimer_def)
  next
    case (Some g)
    let ?isBotId = "\<lambda>k. case map_of (players g) k of None \<Rightarrow> False | Some p \<Rightarrow> isBot p"
    show ?thesis
    proof (cases "find ?isBotId (map fst (players g))")
      case None
      then show ?thesis using Some by (simp add: onBotTimer_def Let_def)
    next
      case (Some botId)
      obtain e where "processGuess d r now gid botId w = (Failure e, r)" using f by blast
      then show ?thesis using \<open>getGameState r now gid = Some g\<close> Some
        by (simp add: onBotTimer_def Let_def)
    qed
  qed
qed

text \<open>
  C7 at a failing input: the easy bot's first guess is drawn from \<open>COMMON_WORDS\<close>, whose
  element 243 is the four-letter word HERO. It is what \<open>getNextGuess\<close> returns for the fresh
  easy bot when \<open>Math.random()\<close> gives 0.3705; it is not among the five-letter words of any
  dictionary, and \<open>processGuess\<close> rejects it whatever the dictionary and the match are, so
  that the bot's turn passes without a guess and without any event.
\<close>

theorem easy_opener_not_a_valid_guess:
  "fst (selectGuess d ''easy'' possible [] 1 (\<lambda>n. 741 / 2000)) = Inr (Some ''HERO'')
   \<and> fst (getNextGuess d (createBotInstance d ''easy'' T) (\<lambda>n. 741 / 2000))
       = Inr (Some ''HERO'', 31852)
   \<and> length ''HERO'' \<noteq> 5
   \<and> ''HERO'' \<notin> set (filter (\<lambda>w. length w = 5) (validGuesses d))
   \<and> (\<exists>e. processGuess d r now gid pid ''HERO'' = (Failure e, r))
   \<and> onBotTimer d r db reg now gid b (Some ''HERO'') = ([], r, db, b, Stopped)"
proof -
  have s: "fst (selectGuess d ''easy'' possible [] 1 (\<lambda>n. 741 / 2000)) = Inr (Some ''HERO'')"
    for possible
    unfolding selectGuess_first_easy length_COMMON idx_243
    by (simp add: elemAt_def common_243 length_COMMON)
  have g: "fst (getNextGuess d (createBotInstance d ''easy'' T) (\<lambda>n. 741 / 2000))
       = Inr (Some ''HERO'', 31852)"
    unfolding getNextGuess_fresh s selectGuess_first_easy_rest
    by (simp add: configOf_def DIFFICULTIES_def)
  have n: "length (trim (toUpperCase ''HERO'')) \<noteq> 5" by (simp add: norm_HERO)
  have p: "\<exists>e. processGuess d r now gid pid ''HERO'' = (Failure e, r)"
    using processGuess_short[OF n] .
  have t: "onBotTimer d r db reg now gid b (Some ''HERO'') = ([], r, db, b, Stopped)"
    using bot_turn_lost[OF n, of d r db reg now gid b] by (simp add: prod_eq_iff)
  show ?thesis using s g p t by simp
qed

section \<open>Verification of the ratings\<close>

lemma logistic_pair:
  fixes y :: real
  assumes "0 < y"
  shows "1 / (1 + y) + 1 / (1 + inverse y) = 1"
proof -
  have ne: "1 + y \<noteq> 0" using assms by linarith
  have "1 / (1 + inverse y) = y / (1 + y)"
    using assms by (simp add: field_simps)
  moreover have "(1 + y) / (1 + y) = 1 / (1 + y) + y / (1 + y)"
    by (rule add_divide_distrib)
  moreover have "(1 + y) / (1 + y) = 1" using ne by simp
  ultimately show ?thesis by simp
qed

lemma expected_sum: "calculateExpectedScore a b + calculateExpectedScore b a = 1"
proof -
  let ?x = "(real_of_int b - real_of_int a) / 400"
  have e: "(real_of_int a - real_of_int b) / 400 = - ?x" by argo
  have "1 / (1 + 10 powr ?x) + 1 / (1 + 10 powr (- ?x)) = 1"
    using logistic_pair[of "10 powr ?x"] by (simp add: powr_minus)
  then show ?thesis
    unfolding calculateExpectedScore_def SCALE_FACTOR_def Let_def e .
qed

lemma round_pair:
  fixes a :: real
  shows "\<bar>\<lfloor>x + a + 1 / 2\<rfloor> + \<lfloor>y - a + 1 / 2\<rfloor> - \<lfloor>x\<rfloor> - \<lfloor>y\<rfloor>\<bar> \<le> 2"
  by linarith

text \<open>
  C6, as amended. When the floor of 100 raises neither new rating, the ratings that
  \<open>calculateMatchResult\<close> gives to winner and loser add up to the sum of the old ratings, up
  to 2 (rating arithmetic in the real numbers).
\<close>

theorem rating_sum_preserved_without_floor:
  assumes "MIN_RATING \<le> jsRound (real_of_int rw + K_FACTOR * (1 - calculateExpectedScore rw rl))"
    and "MIN_RATING \<le> jsRound (real_of_int rl + K_FACTOR * (0 - calculateExpectedScore rl rw))"
  shows "\<bar>(newRating (ratingsWinner (calculateMatchResult rw rl))
           + newRating (ratingsLoser (calculateMatchResult rw rl))) - (rw + rl)\<bar> \<le> 2"
proof -
  let ?a = "K_FACTOR * (1 - calculateExpectedScore rw rl)"
  let ?b = "K_FACTOR * (0 - calculateExpectedScore rl rw)"
  have "calculateExpectedScore rl rw = 1 - calculateExpectedScore rw rl"
    using expected_sum[of rw rl] by linarith
  then have el: "?b = - ?a"
    by (simp only: diff_0 mult_minus_right)
  have nw: "newRating (ratingsWinner (calculateMatchResult rw rl)) = jsRound (real_of_int rw + ?a)"
    using assms(1) by (simp add: calculateMatchResult_def calculateNewRating_def Let_def max_def)
  have nl: "newRating (ratingsLoser (calculateMatchResult rw rl)) = jsRound (real_of_int rl + ?b)"
    using assms(2) by (simp add: calculateMatchResult_def calculateNewRating_def Let_def max_def)
  have "jsRound (real_of_int rl + ?b) = \<lfloor>real_of_int rl - ?a + 1 / 2\<rfloor>"
    unfolding el jsRound_def by simp
  moreover have "jsRound (real_of_int rw + ?a) = \<lfloor>real_of_int rw + ?a + 1 / 2\<rfloor>"
    unfolding jsRound_def by simp
  ultimately show ?thesis
    using round_pair[of "real_of_int rw" ?a "real_of_int rl"] unfolding nw nl by simp
qed

theorem rating_sum_preserved_without_floor_witness:
  "MIN_RATING \<le> jsRound (real_of_int 1200 + K_FACTOR * (1 - calculateExpectedScore 1200 1200))
   \<and> MIN_RATING \<le> jsRound (real_of_int 1200 + K_FACTOR * (0 - calculateExpectedScore 1200 1200))
   \<and> \<bar>(newRating (ratingsWinner (calculateMatchResult 1200 1200))
        + newRating (ratingsLoser (calculateMatchResult 1200 1200))) - (1200 + 1200)\<bar> \<le> 2"
proof -
  have e: "calculateExpectedScore 1200 1200 = 1 / 2"
    by (simp add: calculateExpectedScore_def Let_def)
  have h1: "MIN_RATING \<le> jsRound (real_of_int 1200 + K_FACTOR * (1 - calculateExpectedScore 1200 1200))"
    by (simp add: e jsRound_def K_FACTOR_def MIN_RATING_def)
  have h2: "MIN_RATING \<le> jsRound (real_of_int 1200 + K_FACTOR * (0 - calculateExpectedScore 1200 1200))"
    by (simp add: e jsRound_def K_FACTOR_def MIN_RATING_def)
  show ?thesis using rating_sum_preserved_without_floor[OF h1 h2] h1 h2 by blast
qed

text \<open>
  C6 as stated fails at the floor: winner and loser both at 100 end at 116 and 100.
\<close>

theorem rating_sum_counterexample:
  "\<not> \<bar>(newRating (ratingsWinner (calculateMatchResult 100 100))
        + newRating (ratingsLoser (calculateMatchResult 100 100))) - (100 + 100)\<bar> \<le> 2"
  by (simp add: calculateMatchResult_def calculateNewRating_def calculateExpectedScore_def
      Let_def jsRound_def K_FACTOR_def MIN_RATING_def SCALE_FACTOR_def)

section \<open>Verification of the end of a match\<close>

lemma eval_slate: "evaluateGuess ''SLATE'' ''CRANE'' =
  [Some \<lparr>letter = Some CHR ''S'', color = Grey\<rparr>, Some \<lparr>letter = Some CHR ''L'', color = Grey\<rparr>,
   Some \<lparr>letter = Some CHR ''A'', color = Green\<rparr>, Some \<lparr>letter = Some CHR ''T'', color = Grey\<rparr>,
   Some \<lparr>letter = Some CHR ''E'', color = Green\<rparr>]"
  by code_simp

lemma norm_SLATE: "trim (toUpperCase ''SLATE'') = ''SLATE''" by code_simp
lemma trim_SLATE: "trim ''SLATE'' = ''SLATE''" by code_simp
lemma upper_SLATE: "toUpperCase ''SLATE'' = ''SLATE''" by code_simp
lemma upper_CRANE: "toUpperCase ''CRANE'' = ''CRANE''" by code_simp
lemma upt16: "[1..<6] = [1,2,3,4,5]" by (simp add: upt_rec)
lemma upt17: "[1..<7] = [1,2,3,4,5,6]" by (simp add: upt_rec)

lemma pg_draw:
  "processGuess sampleDict sampleBotStore 90000 ''g2'' ''p1'' ''SLATE'' =
     (Success \<lparr>resGuess = \<lparr>word = ''SLATE'', evaluation = evaluateGuess ''SLATE'' ''CRANE'',
                            timestamp = 90000, guessNumber = 6\<rparr>,
               resIsCorrect = False, resGameEnded = True, resWinner = None,
               resRemainingGuesses = 0\<rparr>,
      \<lparr>gameKeys = [''g2'' \<mapsto> (drawnBotGame, 3690000)], winnerKeys = Map.empty\<rparr>)"
  by (simp add: processGuess_def Let_def norm_SLATE validateGuess_def getProperty_def getGameState_def
      sampleBotStore_def live_def sampleBotGame_def samplePlayer_def trim_SLATE upt16 upt17 isValidGuess_def
      sampleDict_eq upper_SLATE upper_CRANE MAX_GUESSES_def isCorrectGuess_def recordGuess_def
      pushGuess_def finishIfExhausted_def allPlayersExhausted_def successResult_def setGameState_def
      drawnBotGame_def)

lemma elo_draw:
  "updateElo sampleBotDatabase 90000 drawnBotGame =
     Inr (Some (BotResult \<lparr>oldRating = 1100, newRating = 1092, delta = - 8\<rparr>),
          \<lparr>users = [''p1'' \<mapsto> \<lparr>userElo = 1092, wins = 3, losses = 3, gamesPlayed = 6\<rparr>],
           matches = [\<lparr>rowWinnerId = None, rowLoserId = Some ''p1'',
                       winnerEloBefore = 1100, winnerEloAfter = 1100,
                       loserEloBefore = 1100, loserEloAfter = 1092,
                       rowTargetWord = ''CRANE'',
                       rowReplayLog = replayLog drawnBotGame,
                       durationMs = 90000, isBotMatch = True,
                       rowBotDifficulty = Some ''medium''\<rparr>]\<rparr>)"
  by (simp add: updateElo_def Let_def drawnBotGame_def sampleBotGame_def samplePlayer_def
      getGameDuration_def updateRatingAfterBotMatch_def BOT_RATINGS_def K_FACTOR_def
      calculateExpectedScore_def SCALE_FACTOR_def calculateNewRating_def jsRound_def
      MIN_RATING_def sampleBotDatabase_def)


lemma get_drawn:
  "getGameState \<lparr>gameKeys = [''g2'' \<mapsto> (drawnBotGame, 3690000)], winnerKeys = Map.empty\<rparr>
     90000 ''g2'' = Some drawnBotGame"
  by (simp add: getGameState_def live_def)

lemma drawn_fields:
  "players drawnBotGame =
     [(''p1'', (samplePlayer ''p1'' ''ann'' 1100)
                      \<lparr>guesses := map missRecord [1..<6] @
                          [\<lparr>word = ''SLATE'', evaluation = evaluateGuess ''SLATE'' ''CRANE'',
                            timestamp = 90000, guessNumber = 6\<rparr>]\<rparr>),
                   (''bot_1'', \<lparr>playerId = ''bot_1'', username = ''WordBot Medium'',
                              elo = 1100, socketId = None,
                              guesses = map missRecord [1..<7],
                              isBot = True, botDifficulty = Some ''medium''\<rparr>)]"
  "winner drawnBotGame = None" "gameId drawnBotGame = ''g2''"
  "targetWord drawnBotGame = ''CRANE''"
  by (simp_all add: drawnBotGame_def sampleBotGame_def)

lemma notify_draw:
  "notifyGameEnd sampleRegistry drawnBotGame ''complete''
      (Some (BotResult \<lparr>oldRating = 1100, newRating = 1092, delta = - 8\<rparr>)) =
     Inr [\<lparr>toSocket = ''s1'', eventName = ''game:end'',
           payload = JObj [(''gameId'', JStr ''g2''), (''result'', JStr ''draw''),
                           (''reason'', JStr ''complete''), (''targetWord'', JStr ''CRANE''),
                           (''opponent'', JObj [(''username'', JStr ''WordBot Medium''),
                                                (''guesses'', JNum 6)]),
                           (''myGuesses'', JNum 6), (''eloChange'', JNum (- 8)),
                           (''newElo'', JNum 1092)]\<rparr>]"
  by (simp add: notifyGameEnd_def drawn_fields samplePlayer_def sampleRegistry_def
      getPlayerSocketIds_def gameEndPayload_def Let_def eloField_def orElse_def
      numberOrUndefined_def upt16 upt17)

text \<open>
  A drawn match between two humans: no rating is updated, and every \<open>game:end\<close> carries the
  result draw and the rating change 0.
\<close>

lemma updateElo_pvp_draw:
  assumes "winner g = None" "\<not> list_ex isBot (map snd (players g))"
  shows "updateElo db now g = Inr (None, db)"
proof -
  have "find (\<lambda>p. winner g = Some (playerId p)) (map snd (players g)) = None"
    using assms(1) by (simp add: find_None_iff)
  then show ?thesis using assms(2) by (simp add: updateElo_def Let_def)
qed

lemma handleGameEnd_pvp_draw:
  assumes "winner g = None" "\<not> list_ex isBot (map snd (players g))"
  shows "handleGameEnd db reg now g = (notifyGameEnd reg g ''complete'' None, db)"
  by (simp add: handleGameEnd_def updateElo_pvp_draw[OF assms] split: sum.splits)

lemma gameEndPayload_draw:
  assumes "winner g = None"
  shows "jsonField ''result'' (gameEndPayload g reason None p q) = Some (JStr ''draw'')"
    and "jsonField ''eloChange'' (gameEndPayload g reason None p q) = Some (JNum 0)"
    and "jsonField ''newElo'' (gameEndPayload g reason None p q) = Some (JNum (elo p))"
  using assms by (simp_all add: jsonField_def gameEndPayload_def Let_def)

lemma notifyPlayers_payloads:
  "notifyPlayers reg g reason er ps qs = Inr es \<Longrightarrow>
     \<forall>e \<in> set es. \<exists>(p :: player) (q :: player). payload e = gameEndPayload g reason er p q"
proof (induction qs arbitrary: es)
  case Nil
  then show ?case by simp
next
  case (Cons q qs)
  then show ?case
    by (auto simp: Let_def split: if_splits option.splits sum.splits) blast+
qed

lemma pvp_draw_no_rating_change:
  assumes "winner g = None" "\<not> list_ex isBot (map snd (players g))"
    and "handleGameEnd db reg now g = (Inr es, db')"
  shows "db' = db"
    and "\<forall>e \<in> set es. jsonField ''result'' (payload e) = Some (JStr ''draw'')
                      \<and> jsonField ''eloChange'' (payload e) = Some (JNum 0)"
proof -
  have h: "notifyGameEnd reg g ''complete'' None = Inr es" "db' = db"
    using handleGameEnd_pvp_draw[OF assms(1,2), of db reg now] assms(3) by simp_all
  show "db' = db" by (rule h(2))
  show "\<forall>e \<in> set es. jsonField ''result'' (payload e) = Some (JStr ''draw'')
                      \<and> jsonField ''eloChange'' (payload e) = Some (JNum 0)"
    using notifyPlayers_payloads[OF h(1)[unfolded notifyGameEnd_def]]
      gameEndPayload_draw(1,2)[OF assms(1)] by fastforce
qed

text \<open>
  C5 at a failing input: a drawn match of a human rated 1100 against the medium bot is
  passed to the rating update as a loss of the human.
\<close>

theorem draw_against_bot_scored_as_loss:
  "onGameGuess sampleDict sampleBotStore sampleBotDatabase sampleRegistry 90000 ''s1''
     (Some ''p1'') ''g2'' ''SLATE'' =
     ([\<lparr>toSocket = ''s1'', eventName = ''game:guess:result'',
        payload = JObj [(''word'', JStr ''SLATE''),
                        (''colors'', JArr [JStr ''grey'', JStr ''grey'', JStr ''green'',
                                           JStr ''grey'', JStr ''green'']),
                        (''guessNumber'', JNum 6), (''isCorrect'', JBool False),
                        (''remainingGuesses'', JNum 0)]\<rparr>,
       \<lparr>toSocket = ''s1'', eventName = ''game:end'',
        payload = JObj [(''gameId'', JStr ''g2''), (''result'', JStr ''draw''),
                        (''reason'', JStr ''complete''), (''targetWord'', JStr ''CRANE''),
                        (''opponent'', JObj [(''username'', JStr ''WordBot Medium''),
                                             (''guesses'', JNum 6)]),
                        (''myGuesses'', JNum 6), (''eloChange'', JNum (- 8)),
                        (''newElo'', JNum 1092)]\<rparr>],
      \<lparr>gameKeys = [''g2'' \<mapsto> (drawnBotGame, 3690000)], winnerKeys = Map.empty\<rparr>,
      \<lparr>users = [''p1'' \<mapsto> \<lparr>userElo = 1092, wins = 3, losses = 3, gamesPlayed = 6\<rparr>],
       matches = [\<lparr>rowWinnerId = None, rowLoserId = Some ''p1'',
                   winnerEloBefore = 1100, winnerEloAfter = 1100,
                   loserEloBefore = 1100, loserEloAfter = 1092,
                   rowTargetWord = ''CRANE'',
                   rowReplayLog = replayLog drawnBotGame,
                   durationMs = 90000, isBotMatch = True,
                   rowBotDifficulty = Some ''medium''\<rparr>]\<rparr>)"
  by (simp add: onGameGuess_def pg_draw get_drawn guessResultPayload_def colorsOf_def
      eval_slate Let_def drawn_fields sampleRegistry_def handleGameEnd_def elo_draw
      notify_draw[unfolded sampleRegistry_def])

section \<open>Verification of the win arbitration\<close>

lemma allowed_None [simp]: "allowed r gid None"
  by (simp add: allowed_def split: option.splits prod.splits)

lemma getGameState_recorded:
  "getGameState r now gid = Some g \<Longrightarrow> recordedWinner r gid = winner g"
  by (auto simp: getGameState_def live_def recordedWinner_def split: option.splits if_splits)

lemma validateGuess_Inr:
  "validateGuess d stored pid w = Inr (g, p)
     \<Longrightarrow> stored = Some g \<and> map_of (players g) pid = Some p"
  by (auto simp: validateGuess_def getProperty_def split: option.splits if_splits)

lemma map_of_pushGuess:
  "map_of ps pid = Some p
     \<Longrightarrow> map_of (pushGuess pid rec ps) pid = Some (p\<lparr>guesses := guesses p @ [rec]\<rparr>)"
  by (induction ps) (auto simp: pushGuess_def split: if_splits)

lemma recordGuess_props:
  assumes "recordGuess g pid p w ts = (g1, rec)"
  shows "winner g1 = winner g"
    and "map_of (players g) pid = Some p \<Longrightarrow> guessRecorded g1 pid rec"
    and "timestamp rec = ts"
  using assms
  by (auto simp: recordGuess_def Let_def guessRecorded_def slotHas_def map_of_pushGuess)

lemma finishIfExhausted_winner:
  "finishIfExhausted g ts b = (g3, ended) \<Longrightarrow> winner g3 = None \<or> winner g3 = winner g"
  by (auto simp: finishIfExhausted_def split: if_splits)

lemma allowed_finish:
  "finishIfExhausted g ts b = (g3, ended) \<Longrightarrow> allowed r gid (winner g)
     \<Longrightarrow> allowed r gid (winner g3)"
  using finishIfExhausted_winner[of g ts b g3 ended] by auto

lemma step_Loading:
  assumes st: "allowed r gid (recordedWinner r gid)"
    and step: "callStep d now r (Loading gid' pid raw) = (r', c')"
  shows "r' = r \<and> allowed r gid (winnerOfLocal gid c') \<and> \<not> isReadingWinner gid c'
         \<and> guessKept c'"
proof (cases "validateGuess d (getGameState r now gid') pid (trim (toUpperCase raw))")
  case (Inl e)
  then show ?thesis using step by (auto simp: callStep_def Let_def winnerOfLocal_def)
next
  case (Inr gp)
  obtain g p where gp: "gp = (g, p)" by (cases gp)
  note v = validateGuess_Inr[OF Inr[unfolded gp]]
  obtain g1 rec where rg: "recordGuess g pid p (trim (toUpperCase raw)) now = (g1, rec)"
    by (cases "recordGuess g pid p (trim (toUpperCase raw)) now")
  note rp = recordGuess_props[OF rg]
  have w: "gid' = gid \<Longrightarrow> allowed r gid (winner g1)"
    using st v getGameState_recorded[of r now gid g] rp(1) by simp
  show ?thesis
  proof (cases "isCorrectGuess (trim (toUpperCase raw)) (targetWord g)")
    case True
    then have "r' = r" "c' = Claiming gid' pid g1 rec"
      using step Inr gp rg by (simp_all add: callStep_def Let_def)
    then show ?thesis using w rp(2) v by (simp add: winnerOfLocal_def)
  next
    case False
    obtain g3 ended where f: "finishIfExhausted g1 now False = (g3, ended)"
      by (cases "finishIfExhausted g1 now False")
    have "r' = r" "c' = Writing gid' g3 (successResult rec False ended None)"
      using step Inr gp rg False f by (simp_all add: callStep_def Let_def)
    then show ?thesis using w allowed_finish[OF f] by (simp add: winnerOfLocal_def)
  qed
qed

lemma live_Some:
  "now \<le> e \<Longrightarrow> live now (Some (w, e)) = Some w"
  by (simp add: live_def)

lemma step_Claiming:
  assumes lv: "\<forall>w e. winnerKeys r gid' = Some (w, e) \<longrightarrow> now \<le> e"
    and lc: "guessKept (Claiming gid' pid g1 rec)"
    and step: "callStep d now r (Claiming gid' pid g1 rec) = (r', c')"
  shows "gameKeys r' = gameKeys r
         \<and> (\<forall>x. x \<noteq> gid' \<longrightarrow> winnerKeys r' x = winnerKeys r x)
         \<and> guessKept c'
         \<and> ((winnerKeys r gid' = None
              \<and> winnerKeys r' gid' = Some (\<lparr>lockPlayerId = pid, lockTimestamp = now\<rparr>, now + 60000)
              \<and> c' = Writing gid' (claimWin g1 pid (timestamp rec))
                      (successResult rec True True
                         (Some \<lparr>wiPlayerId = pid, wiGuessCount = guessNumber rec,
                                wiTimeMs = int (timestamp rec) - int (startTime g1)\<rparr>)))
             \<or> (winnerKeys r gid' \<noteq> None \<and> r' = r \<and> c' = ReadingWinner gid' pid g1 rec))"
proof (cases "winnerKeys r gid'")
  case None
  then show ?thesis using step
    by (auto simp: callStep_def acquireWinLock_def live_def)
next
  case (Some we)
  obtain w e where we: "we = (w, e)" by (cases we)
  have "live now (winnerKeys r gid') = Some w"
    using Some we lv by (simp add: live_Some)
  then show ?thesis using step Some lc
    by (auto simp: callStep_def acquireWinLock_def)
qed

lemma guessRecorded_adopt:
  "guessRecorded g pid rec \<Longrightarrow> guessRecorded (adoptWinner g w) pid rec"
  by (simp add: guessRecorded_def slotHas_def adoptWinner_def)

lemma step_ReadingWinner:
  assumes lv: "winnerKeys r gid' = Some (w, e)" "now \<le> e"
    and step: "callStep d now r (ReadingWinner gid' pid g1 rec) = (r', c')"
  shows "r' = r \<and> c' = Writing gid' (adoptWinner g1 w) (successResult rec True True None)"
proof -
  have "getWinner r now gid' = Some w" using lv by (simp add: getWinner_def live_Some)
  then show ?thesis using step by (auto simp: callStep_def)
qed

lemma step_ReadingWinner_other:
  assumes step: "callStep d now r (ReadingWinner gid' pid g1 rec) = (r', c')"
  shows "r' = r \<and> (\<exists>g res. c' = Writing gid' g res)"
proof (cases "getWinner r now gid'")
  case None
  obtain g3 ended where "finishIfExhausted g1 (timestamp rec) False = (g3, ended)"
    by (cases "finishIfExhausted g1 (timestamp rec) False")
  then show ?thesis using step None by (auto simp: callStep_def)
next
  case (Some w)
  then show ?thesis using step by (auto simp: callStep_def)
qed

lemma step_Writing:
  assumes step: "callStep d now r (Writing gid' g res) = (r', c')"
  shows "winnerKeys r' = winnerKeys r \<and> c' = Returned res
         \<and> recordedWinner r' gid' = winner g
         \<and> (\<forall>x. x \<noteq> gid' \<longrightarrow> recordedWinner r' x = recordedWinner r x)"
  using step by (auto simp: callStep_def setGameState_def recordedWinner_def)

lemma allowed_cong:
  "winnerKeys r' gid = winnerKeys r gid \<Longrightarrow> allowed r' gid x = allowed r gid x"
  by (simp add: allowed_def)

lemma allowed_fresh_lock:
  "winnerKeys r gid = None \<Longrightarrow> allowed r gid x \<Longrightarrow> allowed r' gid x"
  by (simp add: allowed_def split: option.splits prod.splits)

lemma step_Claiming_frame:
  assumes step: "callStep d now r (Claiming gid' pid g1 rec) = (r', c')"
    and lc: "guessKept (Claiming gid' pid g1 rec)"
  shows "gameKeys r' = gameKeys r
         \<and> (\<forall>x. x \<noteq> gid' \<longrightarrow> winnerKeys r' x = winnerKeys r x)
         \<and> guessKept c'
         \<and> (gid \<noteq> gid' \<longrightarrow> winnerOfLocal gid c' = None \<and> \<not> isReadingWinner gid c')"
proof (cases "live now (winnerKeys r gid')")
  case None
  then show ?thesis using step
    by (auto simp: callStep_def acquireWinLock_def winnerOfLocal_def)
next
  case (Some w)
  then show ?thesis using step lc
    by (auto simp: callStep_def acquireWinLock_def winnerOfLocal_def)
qed

lemma keeps_Loading:
  assumes ex: "\<forall>w e. winnerKeys r gid = Some (w, e) \<longrightarrow> t0 + 60000 \<le> e"
    and rw: "allowed r gid (recordedWinner r gid)"
    and step: "callStep d now r (Loading gid' pid raw) = (r', c')"
  shows "keeps gid t0 r r' c'"
proof -
  have "r' = r \<and> allowed r gid (winnerOfLocal gid c') \<and> \<not> isReadingWinner gid c'
         \<and> guessKept c'"
    using step_Loading[OF rw step] .
  then show ?thesis using ex rw by (simp add: keeps_def)
qed

lemma keeps_Returned:
  assumes ex: "\<forall>w e. winnerKeys r gid = Some (w, e) \<longrightarrow> t0 + 60000 \<le> e"
    and rw: "allowed r gid (recordedWinner r gid)"
    and step: "callStep d now r (Returned res) = (r', c')"
  shows "keeps gid t0 r r' c'"
proof -
  have "r' = r" "c' = Returned res"
    using step by (simp_all add: callStep_def)
  then show ?thesis using ex rw by (simp add: keeps_def winnerOfLocal_def)
qed

lemma keeps_Writing:
  assumes ex: "\<forall>w e. winnerKeys r gid = Some (w, e) \<longrightarrow> t0 + 60000 \<le> e"
    and rw: "allowed r gid (recordedWinner r gid)"
    and old: "allowed r gid (winnerOfLocal gid (Writing gid' g res))"
    and step: "callStep d now r (Writing gid' g res) = (r', c')"
  shows "keeps gid t0 r r' c'"
proof -
  note sw = step_Writing[OF step]
  have wk: "winnerKeys r' gid = winnerKeys r gid" using sw by simp
  have c': "c' = Returned res" using sw by simp
  have "allowed r gid (recordedWinner r' gid)"
  proof (cases "gid' = gid")
    case True
    then have "recordedWinner r' gid = winner g" using sw by simp
    then show ?thesis using old True by (simp add: winnerOfLocal_def)
  next
    case False
    then have "recordedWinner r' gid = recordedWinner r gid" using sw by simp
    then show ?thesis using rw by simp
  qed
  then have "allowed r' gid (recordedWinner r' gid)" by (simp add: allowed_cong[OF wk])
  moreover have "\<forall>w e. winnerKeys r' gid = Some (w, e) \<longrightarrow> t0 + 60000 \<le> e"
    using ex wk by simp
  ultimately show ?thesis using wk c' by (simp add: keeps_def winnerOfLocal_def)
qed

lemma keeps_ReadingWinner:
  assumes ex: "\<forall>w e. winnerKeys r gid = Some (w, e) \<longrightarrow> t0 + 60000 \<le> e"
    and tm: "now < t0 + 60000"
    and rw: "allowed r gid (recordedWinner r gid)"
    and rd: "gid' = gid \<longrightarrow> winnerKeys r gid \<noteq> None"
    and step: "callStep d now r (ReadingWinner gid' pid g1 rec) = (r', c')"
  shows "keeps gid t0 r r' c'"
proof (cases "gid' = gid")
  case False
  obtain g res where o: "r' = r" "c' = Writing gid' g res"
    using step_ReadingWinner_other[OF step] by blast
  have "winnerOfLocal gid c' = None" using o False by (simp add: winnerOfLocal_def)
  then show ?thesis using o ex rw by (simp add: keeps_def)
next
  case True
  then obtain w e where we: "winnerKeys r gid' = Some (w, e)" using rd by auto
  then have le: "now \<le> e" using ex tm True by fastforce
  have o: "r' = r" "c' = Writing gid' (adoptWinner g1 w) (successResult rec True True None)"
    using step_ReadingWinner[OF we le step] by simp_all
  have "winnerOfLocal gid c' = Some (lockPlayerId w)"
    using o True by (simp add: winnerOfLocal_def adoptWinner_def)
  moreover have "allowed r gid (Some (lockPlayerId w))"
    using we True by (simp add: allowed_def)
  ultimately show ?thesis using o ex rw by (simp add: keeps_def)
qed

lemma keeps_Claiming:
  assumes ex: "\<forall>w e. winnerKeys r gid = Some (w, e) \<longrightarrow> t0 + 60000 \<le> e"
    and t0: "t0 \<le> now" and tm: "now < t0 + 60000"
    and rw: "allowed r gid (recordedWinner r gid)"
    and old: "allowed r gid (winnerOfLocal gid (Claiming gid' pid g1 rec))"
    and kept: "guessKept (Claiming gid' pid g1 rec)"
    and step: "callStep d now r (Claiming gid' pid g1 rec) = (r', c')"
  shows "keeps gid t0 r r' c'"
proof (cases "gid' = gid")
  case False
  note fr = step_Claiming_frame[OF step kept, of gid]
  have wk: "winnerKeys r' gid = winnerKeys r gid" using fr False by simp
  have rk: "recordedWinner r' gid = recordedWinner r gid"
    using fr by (simp add: recordedWinner_def)
  have "allowed r' gid (recordedWinner r' gid)"
    using rw by (simp add: allowed_cong[OF wk] rk)
  moreover have "winnerOfLocal gid c' = None" "\<not> isReadingWinner gid c'" "guessKept c'"
    using fr False by simp_all
  moreover have "\<forall>w e. winnerKeys r' gid = Some (w, e) \<longrightarrow> t0 + 60000 \<le> e"
    using ex wk by simp
  ultimately show ?thesis using wk by (simp add: keeps_def)
next
  case True
  have lv: "\<forall>w e. winnerKeys r gid' = Some (w, e) \<longrightarrow> now \<le> e"
    using ex tm True by fastforce
  note cl = step_Claiming[OF lv kept step]
  have a: "gameKeys r' = gameKeys r" "guessKept c'" using cl by simp_all
  show ?thesis
  proof (cases "winnerKeys r gid' = None")
    case won: True
    have nl: "winnerKeys r' gid' = Some (\<lparr>lockPlayerId = pid, lockTimestamp = now\<rparr>, now + 60000)"
      and nc: "c' = Writing gid' (claimWin g1 pid (timestamp rec))
                  (successResult rec True True
                     (Some \<lparr>wiPlayerId = pid, wiGuessCount = guessNumber rec,
                            wiTimeMs = int (timestamp rec) - int (startTime g1)\<rparr>))"
      using cl won by simp_all
    have "recordedWinner r gid = None" using rw won True by (simp add: allowed_def)
    then have rn: "recordedWinner r' gid = None" using a(1) by (simp add: recordedWinner_def)
    have wl: "winnerOfLocal gid c' = Some pid"
      using nc True by (simp add: winnerOfLocal_def claimWin_def)
    have "\<forall>w e. winnerKeys r' gid = Some (w, e) \<longrightarrow> t0 + 60000 \<le> e"
      using nl True t0 by simp
    moreover have "allowed r' gid (recordedWinner r' gid)" by (simp add: rn)
    moreover have "allowed r' gid (winnerOfLocal gid c')"
      using nl True by (simp add: allowed_def wl)
    moreover have "winnerKeys r' gid \<noteq> None" using nl True by simp
    ultimately show ?thesis using won True a(2) by (simp add: keeps_def)
  next
    case refused: False
    have nr: "r' = r" and nc: "c' = ReadingWinner gid' pid g1 rec"
      using cl refused by simp_all
    have "allowed r' gid (winnerOfLocal gid c')"
      using old nr nc by (simp add: winnerOfLocal_def)
    moreover have "winnerKeys r' gid \<noteq> None" using refused nr True by simp
    ultimately show ?thesis using nr ex rw a(2) by (simp add: keeps_def)
  qed
qed

lemma callStep_keeps:
  assumes inv: "claimInvariant gid t0 s"
    and i: "i < length (calls s)"
    and step: "callStep d (clock s) (store s) (calls s ! i) = (r', c')"
    and tm: "clock s < t0 + 60000"
  shows "keeps gid t0 (store s) r' c'"
proof -
  let ?r = "store s" and ?c = "calls s ! i"
  have cin: "?c \<in> set (calls s)" using i by simp
  have t0: "t0 \<le> clock s"
    and ex: "\<forall>w e. winnerKeys ?r gid = Some (w, e) \<longrightarrow> t0 + 60000 \<le> e"
    and rw: "allowed ?r gid (recordedWinner ?r gid)"
    using inv by (simp_all add: claimInvariant_def)
  have old: "allowed ?r gid (winnerOfLocal gid ?c)"
    and rd: "isReadingWinner gid ?c \<longrightarrow> winnerKeys ?r gid \<noteq> None"
    and kept: "guessKept ?c"
    using inv cin unfolding claimInvariant_def by blast+
  show ?thesis
  proof (cases ?c)
    case (Loading gid' pid raw)
    show ?thesis by (rule keeps_Loading[OF ex rw step[unfolded Loading]])
  next
    case (Claiming gid' pid g1 rec)
    show ?thesis
      by (rule keeps_Claiming[OF ex t0 tm rw old[unfolded Claiming] kept[unfolded Claiming]
            step[unfolded Claiming]])
  next
    case (ReadingWinner gid' pid g1 rec)
    have "gid' = gid \<longrightarrow> winnerKeys ?r gid \<noteq> None"
      using rd[unfolded ReadingWinner] by simp
    then show ?thesis
      by (rule keeps_ReadingWinner[OF ex tm rw _ step[unfolded ReadingWinner]])
  next
    case (Writing gid' g res)
    show ?thesis
      by (rule keeps_Writing[OF ex rw old[unfolded Writing] step[unfolded Writing]])
  next
    case (Returned res)
    show ?thesis by (rule keeps_Returned[OF ex rw step[unfolded Returned]])
  qed
qed

lemma callStep_claimInvariant:
  assumes inv: "claimInvariant gid t0 s"
    and i: "i < length (calls s)"
    and step: "callStep d (clock s) (store s) (calls s ! i) = (r', c')"
    and tm: "clock s < t0 + 60000"
  shows "claimInvariant gid t0 (s\<lparr>store := r', calls := (calls s)[i := c']\<rparr>)"
proof -
  let ?r = "store s"
  have k: "keeps gid t0 ?r r' c'" by (rule callStep_keeps[OF inv i step tm])
  have t0: "t0 \<le> clock s" using inv by (simp add: claimInvariant_def)
  have lockrel: "winnerKeys r' gid = winnerKeys ?r gid \<or> winnerKeys ?r gid = None"
    using k by (simp add: keeps_def)
  have new: "allowed r' gid (winnerOfLocal gid c')
               \<and> (isReadingWinner gid c' \<longrightarrow> winnerKeys r' gid \<noteq> None) \<and> guessKept c'"
    using k by (simp add: keeps_def)
  have others: "allowed r' gid (winnerOfLocal gid x)
               \<and> (isReadingWinner gid x \<longrightarrow> winnerKeys r' gid \<noteq> None) \<and> guessKept x"
    if x: "x \<in> set (calls s)" for x
  proof -
    have a: "allowed ?r gid (winnerOfLocal gid x)"
      and b: "isReadingWinner gid x \<longrightarrow> winnerKeys ?r gid \<noteq> None" and c: "guessKept x"
      using inv x unfolding claimInvariant_def by blast+
    from lockrel show ?thesis
    proof
      assume e: "winnerKeys r' gid = winnerKeys ?r gid"
      then show ?thesis using a b c by (simp add: allowed_cong[OF e])
    next
      assume n: "winnerKeys ?r gid = None"
      then show ?thesis using b c allowed_fresh_lock[OF n a] by simp
    qed
  qed
  have all: "allowed r' gid (winnerOfLocal gid x)
               \<and> (isReadingWinner gid x \<longrightarrow> winnerKeys r' gid \<noteq> None) \<and> guessKept x"
    if x: "x \<in> set ((calls s)[i := c'])" for x
  proof -
    have "x = c' \<or> x \<in> set (calls s)"
      using x set_update_subset_insert[of "calls s" i c'] by blast
    then show ?thesis using new others by blast
  qed
  have ex': "\<forall>w e. winnerKeys r' gid = Some (w, e) \<longrightarrow> t0 + 60000 \<le> e"
    and rw': "allowed r' gid (recordedWinner r' gid)"
    using k by (simp_all add: keeps_def)
  let ?s' = "s\<lparr>store := r', calls := (calls s)[i := c']\<rparr>"
  have "t0 \<le> clock ?s'" using t0 by simp
  moreover have "\<forall>w e. winnerKeys (store ?s') gid = Some (w, e) \<longrightarrow> t0 + 60000 \<le> e"
    using ex' by simp
  moreover have "allowed (store ?s') gid (recordedWinner (store ?s') gid)"
    using rw' by simp
  moreover have "\<forall>c \<in> set (calls ?s').
          allowed (store ?s') gid (winnerOfLocal gid c) \<and>
          (isReadingWinner gid c \<longrightarrow> winnerKeys (store ?s') gid \<noteq> None) \<and>
          guessKept c"
  proof
    fix c assume "c \<in> set (calls ?s')"
    then have "c \<in> set ((calls s)[i := c'])" by simp
    from all[OF this] show "allowed (store ?s') gid (winnerOfLocal gid c) \<and>
          (isReadingWinner gid c \<longrightarrow> winnerKeys (store ?s') gid \<noteq> None) \<and>
          guessKept c" by simp
  qed
  ultimately show ?thesis unfolding claimInvariant_def by blast
qed

lemma step_clock: "step d s s' \<Longrightarrow> clock s \<le> clock s'"
  by (induction rule: step.induct) simp_all

lemma step_claimInvariant:
  assumes "claimInvariant gid t0 s" "step d s s'" "clock s' < t0 + 60000"
  shows "claimInvariant gid t0 s'"
  using assms(2,1,3)
proof (induction rule: step.induct)
  case (tick s t)
  then show ?case by (simp add: claimInvariant_def)
next
  case (invoke s gid' pid raw)
  then show ?case by (simp add: claimInvariant_def winnerOfLocal_def)
next
  case (resume i s r' c')
  then show ?case using callStep_claimInvariant[of gid t0 s i d r' c'] by simp
qed

lemma reach_clock: "reach d s s' \<Longrightarrow> clock s \<le> clock s'"
  by (induction rule: reach.induct) (auto dest: step_clock)

lemma reach_claimInvariant:
  assumes "reach d s s'" "claimInvariant gid t0 s" "clock s' < t0 + 60000"
  shows "claimInvariant gid t0 s'"
  using assms
proof (induction rule: reach.induct)
  case (here s)
  then show ?case by simp
next
  case (later s s' s'')
  have "clock s' < t0 + 60000" using later.hyps(2) later.prems(2) step_clock by fastforce
  then show ?case using later step_claimInvariant by blast
qed

lemma unclaimed_claimInvariant:
  assumes "unclaimed gid s" "list_all guessKept (calls s)"
  shows "claimInvariant gid (clock s) s"
  using assms
  by (auto simp: unclaimed_def claimInvariant_def allowed_def list_all_iff)

lemma reach_trans:
  assumes "reach d s' s''" "reach d s s'"
  shows "reach d s s''"
  using assms
proof (induction rule: reach.induct)
  case (here s')
  then show ?case by simp
next
  case (later s' t t')
  then show ?case using reach.later by blast
qed

lemma step_lock_stable:
  assumes inv: "claimInvariant gid t0 s" and st: "step d s s'" and tm: "clock s' < t0 + 60000"
    and lk: "winnerKeys (store s) gid = Some (w, e)"
  shows "winnerKeys (store s') gid = Some (w, e)"
  using st inv tm lk
proof (induction rule: step.induct)
  case (tick s t)
  then show ?case by simp
next
  case (invoke s gid' pid raw)
  then show ?case by simp
next
  case (resume i s r' c')
  have "keeps gid t0 (store s) r' c'"
    using callStep_keeps[OF resume.prems(1) resume.hyps(1) resume.hyps(2)] resume.prems(2)
    by simp
  then show ?case using resume.prems(3) by (simp add: keeps_def)
qed

lemma reach_lock_stable:
  assumes "reach d s s'" "claimInvariant gid t0 s" "clock s' < t0 + 60000"
    and "winnerKeys (store s) gid = Some (w, e)"
  shows "winnerKeys (store s') gid = Some (w, e)"
  using assms
proof (induction rule: reach.induct)
  case (here s)
  then show ?case by simp
next
  case (later s s' s'')
  have tm: "clock s' < t0 + 60000" using later.hyps(2) later.prems(2) step_clock by fastforce
  have "claimInvariant gid t0 s'"
    using reach_claimInvariant[OF later.hyps(1) later.prems(1) tm] .
  moreover have "winnerKeys (store s') gid = Some (w, e)"
    using later.IH[OF later.prems(1) tm later.prems(3)] .
  ultimately show ?case using step_lock_stable later.hyps(2) later.prems(2) by blast
qed

lemma acquire_absent:
  "winnerKeys r gid = None \<Longrightarrow> fst (acquireWinLock r now gid q)"
  by (simp add: acquireWinLock_def live_def)

lemma acquire_held:
  "winnerKeys r gid = Some (w, e) \<Longrightarrow> now \<le> e \<Longrightarrow> \<not> fst (acquireWinLock r now gid q)"
  by (simp add: acquireWinLock_def live_def)

text \<open>
  Every call holds its guess in its copy of the game from its first step on, so the calls in
  flight of any server that started with none do.
\<close>

lemma callStep_guessKept:
  assumes "guessKept c" "callStep d now r c = (r', c')"
  shows "guessKept c'"
proof (cases c)
  case (Loading gid pid raw)
  show ?thesis
  proof (cases "validateGuess d (getGameState r now gid) pid (trim (toUpperCase raw))")
    case (Inl e)
    then show ?thesis using assms(2) Loading by (auto simp: callStep_def Let_def)
  next
    case (Inr gp)
    obtain g p where gp: "gp = (g, p)" by (cases gp)
    note v = validateGuess_Inr[OF Inr[unfolded gp]]
    obtain g1 rec where rg: "recordGuess g pid p (trim (toUpperCase raw)) now = (g1, rec)"
      by (cases "recordGuess g pid p (trim (toUpperCase raw)) now")
    have k: "guessRecorded g1 pid rec" using recordGuess_props(2)[OF rg] v by simp
    obtain g3 ended where f: "finishIfExhausted g1 now False = (g3, ended)"
      by (cases "finishIfExhausted g1 now False")
    show ?thesis
      using assms(2) Loading Inr gp rg f k
      by (cases "isCorrectGuess (trim (toUpperCase raw)) (targetWord g)")
         (auto simp: callStep_def Let_def)
  qed
next
  case (Claiming gid pid g rec)
  then show ?thesis using assms step_Claiming_frame[of d "now" r gid pid g rec r' c'] by simp
next
  case (ReadingWinner gid pid g rec)
  then show ?thesis using assms step_ReadingWinner_other[of d "now" r gid pid g rec r' c'] by auto
next
  case (Writing gid g res)
  then show ?thesis using assms by (auto simp: callStep_def)
next
  case (Returned res)
  then show ?thesis using assms by (auto simp: callStep_def)
qed


lemma step_guessKept:
  assumes "step d s s'" "list_all guessKept (calls s)"
  shows "list_all guessKept (calls s')"
  using assms
proof (cases rule: step.cases)
  case (tick t)
  then show ?thesis using assms(2) by simp
next
  case (invoke gid pid rawGuess)
  then show ?thesis using assms(2) by simp
next
  case (resume i r' c')
  have "guessKept (calls s ! i)"
    using assms(2) resume(2) by (simp add: list_all_length)
  then have "guessKept c'" using callStep_guessKept resume(3) by blast
  then show ?thesis
    using assms(2) resume(1) by (auto simp: list_all_iff dest: set_update_subset_insert[THEN subsetD])
qed

lemma reach_guessKept:
  assumes "reach d s s'" "list_all guessKept (calls s)"
  shows "list_all guessKept (calls s')"
  using assms by (induction rule: reach.induct) (auto intro: step_guessKept)

text \<open>
  C2, as amended. Take any server state in which the match is unclaimed (and the calls in
  flight hold their guess in their copy of the game) and let \<open>processGuess\<close> calls arrive
  and interleave at their awaits in any way. As long as less
  than 60 seconds (the life of the win lock) have passed since that state: whoever is
  recorded as winner of the match at one moment is the one recorded at any later moment;
  a claim on the unclaimed match succeeds; once the lock is held it keeps its holder, every
  further claim is refused and the recorded winner is nobody or the holder; and a call whose
  correct guess was refused the lock goes on to write a finished game that holds its guess
  in the player's slot and in the replay log and names the lock holder as winner.
\<close>

theorem single_winner_while_lock_live:
  assumes "unclaimed gid s0" "list_all guessKept (calls s0)"
    and "reach d s0 s" "reach d s s'" "clock s' < clock s0 + 60000"
  shows "(\<forall>p q. recordedWinner (store s) gid = Some p \<and> recordedWinner (store s') gid = Some q
            \<longrightarrow> p = q)
       \<and> (winnerKeys (store s) gid = None \<longrightarrow> (\<forall>q. fst (acquireWinLock (store s) (clock s) gid q)))
       \<and> (\<forall>w e. winnerKeys (store s) gid = Some (w, e) \<longrightarrow>
             winnerKeys (store s') gid = Some (w, e)
             \<and> (\<forall>q. \<not> fst (acquireWinLock (store s') (clock s') gid q))
             \<and> (recordedWinner (store s') gid = None
                 \<or> recordedWinner (store s') gid = Some (lockPlayerId w)))
       \<and> (\<forall>i pid g rec. i < length (calls s') \<and> calls s' ! i = ReadingWinner gid pid g rec \<longrightarrow>
             (\<exists>w e. winnerKeys (store s') gid = Some (w, e)
                \<and> callStep d (clock s') (store s') (calls s' ! i)
                    = (store s', Writing gid (adoptWinner g w) (successResult rec True True None))
                \<and> guessRecorded (adoptWinner g w) pid rec
                \<and> winner (adoptWinner g w) = Some (lockPlayerId w)
                \<and> status (adoptWinner g w) = Finished))"
proof -
  let ?t0 = "clock s0"
  have inv0: "claimInvariant gid ?t0 s0"
    using unclaimed_claimInvariant[OF assms(1,2)] .
  have cs: "clock s \<le> clock s'" using reach_clock[OF assms(4)] .
  then have tms: "clock s < ?t0 + 60000" using assms(5) by simp
  have inv: "claimInvariant gid ?t0 s"
    using reach_claimInvariant[OF assms(3) inv0 tms] .
  have inv': "claimInvariant gid ?t0 s'"
    using reach_claimInvariant[OF reach_trans[OF assms(4,3)] inv0 assms(5)] .
  have held: "winnerKeys (store s') gid = Some (w, e)
             \<and> (\<forall>q. \<not> fst (acquireWinLock (store s') (clock s') gid q))
             \<and> (recordedWinner (store s') gid = None
                 \<or> recordedWinner (store s') gid = Some (lockPlayerId w))"
    if lk: "winnerKeys (store s) gid = Some (w, e)" for w e
  proof -
    have lk': "winnerKeys (store s') gid = Some (w, e)"
      using reach_lock_stable[OF assms(4) inv assms(5) lk] .
    have "?t0 + 60000 \<le> e" using inv' lk' by (simp add: claimInvariant_def)
    then have "clock s' \<le> e" using assms(5) by simp
    then have "\<forall>q. \<not> fst (acquireWinLock (store s') (clock s') gid q)"
      using acquire_held[OF lk'] by blast
    moreover have "allowed (store s') gid (recordedWinner (store s') gid)"
      using inv' by (simp add: claimInvariant_def)
    then have "recordedWinner (store s') gid = None
                 \<or> recordedWinner (store s') gid = Some (lockPlayerId w)"
      using lk' by (simp add: allowed_def)
    ultimately show ?thesis using lk' by blast
  qed
  have one: "p = q"
    if pq: "recordedWinner (store s) gid = Some p \<and> recordedWinner (store s') gid = Some q"
    for p q
  proof -
    have a: "allowed (store s) gid (Some p)"
      using inv pq by (simp add: claimInvariant_def)
    then obtain w e where lk: "winnerKeys (store s) gid = Some (w, e)"
      by (cases "winnerKeys (store s) gid") (auto simp: allowed_def)
    then have "p = lockPlayerId w" using a by (simp add: allowed_def)
    moreover have "q = lockPlayerId w" using held[OF lk] pq by simp
    ultimately show ?thesis by simp
  qed
  have loser: "\<exists>w e. winnerKeys (store s') gid = Some (w, e)
                \<and> callStep d (clock s') (store s') (calls s' ! i)
                    = (store s', Writing gid (adoptWinner g w) (successResult rec True True None))
                \<and> guessRecorded (adoptWinner g w) pid rec
                \<and> winner (adoptWinner g w) = Some (lockPlayerId w)
                \<and> status (adoptWinner g w) = Finished"
    if rd: "i < length (calls s') \<and> calls s' ! i = ReadingWinner gid pid g rec" for i pid g rec
  proof -
    have cin: "ReadingWinner gid pid g rec \<in> set (calls s')"
      using rd by (metis nth_mem)
    have "winnerKeys (store s') gid \<noteq> None" and kept: "guessKept (ReadingWinner gid pid g rec)"
      using inv' cin unfolding claimInvariant_def by fastforce+
    then obtain w e where lk: "winnerKeys (store s') gid = Some (w, e)" by auto
    have "?t0 + 60000 \<le> e" using inv' lk by (simp add: claimInvariant_def)
    then have le: "clock s' \<le> e" using assms(5) by simp
    obtain r' c' where st: "callStep d (clock s') (store s') (ReadingWinner gid pid g rec) = (r', c')"
      by (cases "callStep d (clock s') (store s') (ReadingWinner gid pid g rec)")
    have "callStep d (clock s') (store s') (calls s' ! i)
            = (store s', Writing gid (adoptWinner g w) (successResult rec True True None))"
      using step_ReadingWinner[OF lk le st] st rd by simp
    moreover have "guessRecorded (adoptWinner g w) pid rec"
      using kept guessRecorded_adopt by simp
    moreover have "winner (adoptWinner g w) = Some (lockPlayerId w)"
      "status (adoptWinner g w) = Finished"
      by (simp_all add: adoptWinner_def)
    ultimately show ?thesis using lk by blast
  qed
  show ?thesis using one held loser acquire_absent by blast
qed

lemma step_resumeCall: "i < length (calls s) \<Longrightarrow> step d s (resumeCall d i s)"
proof -
  assume i: "i < length (calls s)"
  obtain r' c' where st: "callStep d (clock s) (store s) (calls s ! i) = (r', c')"
    by (cases "callStep d (clock s) (store s) (calls s ! i)")
  then have "resumeCall d i s = s\<lparr>store := r', calls := (calls s)[i := c']\<rparr>"
    by (simp add: resumeCall_def)
  then show ?thesis using step.resume[OF i st] by simp
qed

lemma resumeCall_frame [simp]:
  "clock (resumeCall d i s) = clock s" "length (calls (resumeCall d i s)) = length (calls s)"
  by (simp_all add: resumeCall_def split: prod.splits)

lemma reach_resumeCall:
  "reach d s0 s \<Longrightarrow> i < length (calls s) \<Longrightarrow> reach d s0 (resumeCall d i s)"
  using reach.later step_resumeCall by blast

lemma norm_CRANE: "trim (toUpperCase ''CRANE'') = ''CRANE''" by code_simp
lemma valid_CRANE: "isValidGuess sampleDict ''CRANE''"
  by (simp add: isValidGuess_def upper_CRANE sampleDict_eq)
lemma correct_CRANE: "isCorrectGuess ''CRANE'' ''CRANE''"
  by (simp add: isCorrectGuess_def)

lemma load_p1:
  "callStep sampleDict 100 sampleStore (Loading ''g1'' ''p1'' ''crane'') =
     (sampleStore, Claiming ''g1'' ''p1'' (raceGame ''p1'') raceGuess)"
  by (simp add: callStep_def norm_crane validateGuess_def getProperty_def getGameState_def sampleStore_def
      live_def sampleGame_def samplePlayer_def valid_CRANE MAX_GUESSES_def recordGuess_def
      Let_def correct_CRANE raceGuess_def raceGame_def)

lemma load_p2:
  "callStep sampleDict 100 sampleStore (Loading ''g1'' ''p2'' ''CRANE'') =
     (sampleStore, Claiming ''g1'' ''p2'' (raceGame ''p2'') raceGuess)"
  by (simp add: callStep_def norm_CRANE validateGuess_def getProperty_def getGameState_def sampleStore_def
      live_def sampleGame_def samplePlayer_def valid_CRANE MAX_GUESSES_def recordGuess_def
      Let_def correct_CRANE raceGuess_def raceGame_def)


lemma claim_p1:
  "callStep sampleDict 100 sampleStore (Claiming ''g1'' ''p1'' (raceGame ''p1'') raceGuess) =
     (lockedStore, Writing ''g1'' (claimWin (raceGame ''p1'') ''p1'' 100) raceWin)"
  by (simp add: callStep_def acquireWinLock_def live_def sampleStore_def lockedStore_def raceLock_def
      raceWin_def raceGuess_def raceGame_def sampleGame_def)

lemma claim_p2:
  "callStep sampleDict 100 lockedStore (Claiming ''g1'' ''p2'' (raceGame ''p2'') raceGuess) =
     (lockedStore, ReadingWinner ''g1'' ''p2'' (raceGame ''p2'') raceGuess)"
  by (simp add: callStep_def acquireWinLock_def live_def lockedStore_def raceLock_def)

lemma read_p2:
  "callStep sampleDict 100 lockedStore (ReadingWinner ''g1'' ''p2'' (raceGame ''p2'') raceGuess) =
     (lockedStore,
      Writing ''g1'' (adoptWinner (raceGame ''p2'') raceLock)
        (successResult raceGuess True True None))"
  by (simp add: callStep_def getWinner_def live_def lockedStore_def raceLock_def)

lemma write_any:
  "callStep d now r (Writing gid g res) = (setGameState r now gid g 3600, Returned res)"
  by (simp add: callStep_def)

lemma raceClaimed_eq:
  "raceClaimed =
     \<lparr>clock = 100, store = lockedStore,
      calls = [Writing ''g1'' (claimWin (raceGame ''p1'') ''p1'' 100) raceWin,
               ReadingWinner ''g1'' ''p2'' (raceGame ''p2'') raceGuess]\<rparr>"
  by (simp add: raceClaimed_def raceStart_def resumeCall_def load_p1 load_p2 claim_p1 claim_p2)

lemma raceEnd_eq:
  "raceEnd =
     \<lparr>clock = 100,
      store = setGameState (setGameState lockedStore 100 ''g1'' (claimWin (raceGame ''p1'') ''p1'' 100) 3600)
                100 ''g1''
                (adoptWinner (raceGame ''p2'') raceLock) 3600,
      calls = [Returned raceWin, Returned (successResult raceGuess True True None)]\<rparr>"
  by (simp add: raceEnd_def raceClaimed_eq resumeCall_def read_p2 write_any)


lemma raceStart_unclaimed: "unclaimed ''g1'' raceStart"
  by (simp add: unclaimed_def raceStart_def sampleStore_def recordedWinner_def sampleGame_def
      winnerOfLocal_def)

lemma raceStart_kept: "list_all guessKept (calls raceStart)"
  by (simp add: raceStart_def)

lemma raceStart_calls: "length (calls raceStart) = 2"
  by (simp add: raceStart_def)

lemma reach_raceClaimed: "reach sampleDict raceStart raceClaimed"
  unfolding raceClaimed_def
  by (intro reach_resumeCall reach.here) (simp_all add: raceStart_calls)

lemma reach_raceEnd: "reach sampleDict raceClaimed raceEnd"
  unfolding raceEnd_def
  by (intro reach_resumeCall reach.here) (simp_all add: raceClaimed_eq)

theorem single_winner_while_lock_live_witness:
  "unclaimed ''g1'' raceStart \<and> list_all guessKept (calls raceStart)
   \<and> reach sampleDict raceStart raceClaimed \<and> reach sampleDict raceClaimed raceEnd
   \<and> clock raceEnd < clock raceStart + 60000
   \<and> winnerKeys (store raceClaimed) ''g1'' = Some (raceLock, 60100)
   \<and> winnerKeys (store raceEnd) ''g1'' = Some (raceLock, 60100)
   \<and> (\<forall>q. \<not> fst (acquireWinLock (store raceEnd) (clock raceEnd) ''g1'' q))
   \<and> recordedWinner (store raceEnd) ''g1'' = Some ''p1''
   \<and> (1 < length (calls raceClaimed)
       \<and> calls raceClaimed ! 1 = ReadingWinner ''g1'' ''p2'' (raceGame ''p2'') raceGuess)
   \<and> guessRecorded (adoptWinner (raceGame ''p2'') raceLock) ''p2'' raceGuess
   \<and> winner (adoptWinner (raceGame ''p2'') raceLock) = Some ''p1''"
proof -
  note t1 = single_winner_while_lock_live[OF raceStart_unclaimed raceStart_kept
      reach_raceClaimed reach_raceEnd]
  note t2 = single_winner_while_lock_live[OF raceStart_unclaimed raceStart_kept
      reach_raceClaimed reach.here]
  have tm: "clock raceEnd < clock raceStart + 60000"
    by (simp add: raceEnd_eq raceStart_def)
  have tm2: "clock raceClaimed < clock raceStart + 60000"
    by (simp add: raceClaimed_eq raceStart_def)
  have lk: "winnerKeys (store raceClaimed) ''g1'' = Some (raceLock, 60100)"
    by (simp add: raceClaimed_eq lockedStore_def)
  have rd: "1 < length (calls raceClaimed)
       \<and> calls raceClaimed ! 1 = ReadingWinner ''g1'' ''p2'' (raceGame ''p2'') raceGuess"
    by (simp add: raceClaimed_eq)
  have held: "winnerKeys (store raceEnd) ''g1'' = Some (raceLock, 60100)
      \<and> (\<forall>q. \<not> fst (acquireWinLock (store raceEnd) (clock raceEnd) ''g1'' q))"
    using t1[OF tm] lk by blast
  have "\<exists>w e. winnerKeys (store raceClaimed) ''g1'' = Some (w, e)
          \<and> guessRecorded (adoptWinner (raceGame ''p2'') w) ''p2'' raceGuess
          \<and> winner (adoptWinner (raceGame ''p2'') w) = Some (lockPlayerId w)"
    using t2[OF tm2] rd by blast
  then have loser: "guessRecorded (adoptWinner (raceGame ''p2'') raceLock) ''p2'' raceGuess
      \<and> winner (adoptWinner (raceGame ''p2'') raceLock) = Some ''p1''"
    using lk by (auto simp: raceLock_def)
  have rec: "recordedWinner (store raceEnd) ''g1'' = Some ''p1''"
    by (simp add: raceEnd_eq setGameState_def recordedWinner_def adoptWinner_def raceLock_def)
  show ?thesis
    using raceStart_unclaimed raceStart_kept reach_raceClaimed reach_raceEnd tm lk held rec rd
      loser by blast
qed

lemma norm_slate_lc: "trim (toUpperCase ''slate'') = ''SLATE''" by code_simp

lemma valid_SLATE: "isValidGuess sampleDict ''SLATE''"
  by (simp add: isValidGuess_def upper_SLATE sampleDict_eq)

lemma wrong_SLATE: "\<not> isCorrectGuess ''SLATE'' ''CRANE''"
  by (simp add: isCorrectGuess_def upper_SLATE upper_CRANE)

lemma load_miss:
  "callStep sampleDict 100 sampleStore (Loading ''g1'' ''p2'' ''slate'') =
     (sampleStore, Writing ''g1'' missGame (Success (firstMiss ''SLATE'' 100)))"
  by (simp add: callStep_def norm_slate_lc validateGuess_def getProperty_def getGameState_def sampleStore_def
      live_def sampleGame_def samplePlayer_def valid_SLATE wrong_SLATE MAX_GUESSES_def
      recordGuess_def Let_def finishIfExhausted_def allPlayersExhausted_def pushGuess_def
      successResult_def firstMiss_def missGame_def)

lemma lostWon_eq:
  "lostWon =
     \<lparr>clock = 100, store = wonStore,
      calls = [Returned raceWin, Writing ''g1'' missGame (Success (firstMiss ''SLATE'' 100))]\<rparr>"
  by (simp add: lostWon_def lostStart_def resumeCall_def load_p1 load_miss claim_p1 write_any
      wonStore_def)

lemma lostReopened_eq:
  "lostReopened =
     \<lparr>clock = 100, store = reopenedStore,
      calls = [Returned raceWin, Returned (Success (firstMiss ''SLATE'' 100))]\<rparr>"
  by (simp add: lostReopened_def lostWon_eq resumeCall_def write_any reopenedStore_def)

lemma get_reopened: "getGameState reopenedStore 60101 ''g1'' = Some missGame"
  by (simp add: getGameState_def reopenedStore_def setGameState_def live_def)

lemma missGame_fields:
  "status missGame = Active" "targetWord missGame = ''CRANE''"
  "map_of (players missGame) ''p2''
     = Some ((samplePlayer ''p2'' ''bob'' 1200)\<lparr>guesses := [resGuess (firstMiss ''SLATE'' 100)]\<rparr>)"
  by (simp_all add: missGame_def sampleGame_def pushGuess_def samplePlayer_def)

lemma load_late:
  "callStep sampleDict 60101 reopenedStore (Loading ''g1'' ''p2'' ''crane'') =
     (reopenedStore, Claiming ''g1'' ''p2'' lateGame lateGuess)"
  by (simp add: callStep_def norm_crane validateGuess_def getProperty_def get_reopened missGame_fields
      valid_CRANE correct_CRANE MAX_GUESSES_def recordGuess_def Let_def lateGame_def lateGuess_def
      numeral_2_eq_2)

lemma lock_expired: "live 60101 (winnerKeys reopenedStore ''g1'') = None"
  by (simp add: reopenedStore_def wonStore_def setGameState_def lockedStore_def live_def)

lemma claim_late:
  "callStep sampleDict 60101 reopenedStore (Claiming ''g1'' ''p2'' lateGame lateGuess) =
     (reopenedStore\<lparr>winnerKeys := (winnerKeys reopenedStore)
         (''g1'' \<mapsto> (\<lparr>lockPlayerId = ''p2'', lockTimestamp = 60101\<rparr>, 120101))\<rparr>,
      Writing ''g1'' (claimWin lateGame ''p2'' 60101)
        (successResult lateGuess True True
           (Some \<lparr>wiPlayerId = ''p2'', wiGuessCount = 2,
                  wiTimeMs = 60101 - int (startTime lateGame)\<rparr>)))"
  by (simp add: callStep_def acquireWinLock_def lock_expired lateGuess_def)

lemma lateWon_winner: "recordedWinner (store lateWon) ''g1'' = Some ''p2''"
  by (simp add: lateWon_def lostReopened_eq tickTo_def invokeCall_def resumeCall_def
      load_late claim_late write_any setGameState_def recordedWinner_def claimWin_def)

lemma lostWon_winner: "recordedWinner (store lostWon) ''g1'' = Some ''p1''"
  by (simp add: lostWon_eq wonStore_def setGameState_def recordedWinner_def claimWin_def)

lemma lostReopened_winner: "recordedWinner (store lostReopened) ''g1'' = None"
  by (simp add: lostReopened_eq reopenedStore_def setGameState_def recordedWinner_def
      missGame_def sampleGame_def)

lemma lostStart_unclaimed: "unclaimed ''g1'' lostStart"
  by (simp add: unclaimed_def lostStart_def sampleStore_def recordedWinner_def sampleGame_def
      winnerOfLocal_def)

lemma reach_tickTo: "reach d s0 s \<Longrightarrow> clock s \<le> t \<Longrightarrow> reach d s0 (tickTo t s)"
  unfolding tickTo_def using reach.later step.tick by blast

lemma reach_invokeCall: "reach d s0 s \<Longrightarrow> reach d s0 (invokeCall gid pid raw s)"
  unfolding invokeCall_def using reach.later step.invoke by blast

lemma reach_lostWon: "reach sampleDict lostStart lostWon"
  unfolding lostWon_def
  by (intro reach_resumeCall reach.here) (simp_all add: lostStart_def)

lemma reach_lateWon: "reach sampleDict lostWon lateWon"
  unfolding lateWon_def lostReopened_def
  by (intro reach_resumeCall reach_invokeCall reach_tickTo reach.here)
     (simp_all add: lostWon_eq invokeCall_def tickTo_def)

text \<open>
  C2 as stated fails once the lock has expired. A second claim, 60001 ms after the first,
  succeeds and makes the other player the holder. And in the sample match the first player
  is recorded as the winner, the other player's write of a wrong guess puts the active match
  back, and that player's correct guess a minute later is recorded as the win.
\<close>

theorem win_lock_reacquired_after_expiry:
  "fst (acquireWinLock sampleStore 0 ''g1'' ''p1'')
   \<and> fst (acquireWinLock (snd (acquireWinLock sampleStore 0 ''g1'' ''p1'')) 60001 ''g1'' ''p2'')
   \<and> getWinner (snd (acquireWinLock (snd (acquireWinLock sampleStore 0 ''g1'' ''p1''))
                        60001 ''g1'' ''p2'')) 60001 ''g1''
       = Some \<lparr>lockPlayerId = ''p2'', lockTimestamp = 60001\<rparr>
   \<and> unclaimed ''g1'' lostStart
   \<and> reach sampleDict lostStart lostWon
   \<and> recordedWinner (store lostWon) ''g1'' = Some ''p1''
   \<and> reach sampleDict lostWon lateWon
   \<and> recordedWinner (store lateWon) ''g1'' = Some ''p2''"
  using lostStart_unclaimed reach_lostWon lostWon_winner reach_lateWon lateWon_winner
  by (simp add: acquireWinLock_def sampleStore_def live_def getWinner_def)

text \<open>
  The steps agree with \<open>processGuess\<close>: a call that runs alone, at one clock value, returns
  what \<open>processGuess\<close> returns and leaves the store that \<open>processGuess\<close> leaves.
\<close>

lemma callStep_Returned: "callStep d now r (Returned res) = (r, Returned res)"
  by (simp add: callStep_def)

lemma callStep_Writing:
  "callStep d now r (Writing gid g res) = (setGameState r now gid g 3600, Returned res)"
  by (simp add: callStep_def)

lemma finishIfExhausted_ended: "finishIfExhausted g ts True = (g, True)"
  by (simp add: finishIfExhausted_def)

lemma processGuess_runs_alone:
  "runCall d now r (Loading gid pid raw)
     = (snd (processGuess d r now gid pid raw), Returned (fst (processGuess d r now gid pid raw)))"
proof (cases "validateGuess d (getGameState r now gid) pid (trim (toUpperCase raw))")
  case (Inl e)
  then show ?thesis
    by (simp add: runCall_def callStep_def processGuess_def Let_def)
next
  case (Inr gp)
  obtain g p where gp: "gp = (g, p)" by (cases gp)
  obtain g1 rec where rg: "recordGuess g pid p (trim (toUpperCase raw)) now = (g1, rec)"
    by (cases "recordGuess g pid p (trim (toUpperCase raw)) now")
  have ts: "timestamp rec = now" using recordGuess_props(3)[OF rg] .
  show ?thesis
  proof (cases "isCorrectGuess (trim (toUpperCase raw)) (targetWord g)")
    case False
    obtain g3 ended where f: "finishIfExhausted g1 now False = (g3, ended)"
      by (cases "finishIfExhausted g1 now False")
    have l: "callStep d now r (Loading gid pid raw)
              = (r, Writing gid g3 (successResult rec False ended None))"
      using Inr gp rg False f by (simp add: callStep_def Let_def)
    have "processGuess d r now gid pid raw
            = (successResult rec False ended None, setGameState r now gid g3 3600)"
      using Inr gp rg False f by (simp add: processGuess_def Let_def)
    then show ?thesis by (simp add: runCall_def l callStep_Writing callStep_Returned)
  next
    case True
    have l: "callStep d now r (Loading gid pid raw) = (r, Claiming gid pid g1 rec)"
      using Inr gp rg True by (simp add: callStep_def Let_def)
    show ?thesis
    proof (cases "live now (winnerKeys r gid)")
      case None
      let ?r' = "r\<lparr>winnerKeys := (winnerKeys r)
                     (gid \<mapsto> (\<lparr>lockPlayerId = pid, lockTimestamp = now\<rparr>, now + 60 * 1000))\<rparr>"
      let ?res = "successResult rec True True
                         (Some \<lparr>wiPlayerId = pid, wiGuessCount = guessNumber rec,
                                wiTimeMs = int now - int (startTime g1)\<rparr>)"
      have a: "acquireWinLock r now gid pid = (True, ?r')"
        using None by (simp add: acquireWinLock_def)
      have c: "callStep d now r (Claiming gid pid g1 rec)
                = (?r', Writing gid (claimWin g1 pid now) ?res)"
        using a ts by (simp add: callStep_def)
      have "processGuess d r now gid pid raw = (?res, setGameState ?r' now gid (claimWin g1 pid now) 3600)"
        using Inr gp rg True a by (simp add: processGuess_def Let_def finishIfExhausted_ended)
      then show ?thesis by (simp add: runCall_def l c callStep_Writing callStep_Returned)
    next
      case (Some w)
      have a: "acquireWinLock r now gid pid = (False, r)"
        using Some by (simp add: acquireWinLock_def)
      have c: "callStep d now r (Claiming gid pid g1 rec) = (r, ReadingWinner gid pid g1 rec)"
        using a by (simp add: callStep_def)
      have gw: "getWinner r now gid = Some w" using Some by (simp add: getWinner_def)
      have rd: "callStep d now r (ReadingWinner gid pid g1 rec)
                 = (r, Writing gid (adoptWinner g1 w) (successResult rec True True None))"
        using gw by (simp add: callStep_def)
      have "processGuess d r now gid pid raw
              = (successResult rec True True None, setGameState r now gid (adoptWinner g1 w) 3600)"
        using Inr gp rg True a gw by (simp add: processGuess_def Let_def finishIfExhausted_ended)
      then show ?thesis by (simp add: runCall_def l c rd callStep_Writing callStep_Returned)
    qed
  qed
qed

section \<open>Verification of the masked view\<close>

lemma those_map_Some: "those (map Some xs) = Some xs"
  by (induction xs) simp_all

lemma colors_of_tiles:
  "map (map_option color) (map (\<lambda>(i, c). Some \<lparr>letter = f i, color = c\<rparr>) (zip is cs))
     = map Some (map snd (zip is cs))"
  by (induction "zip is cs" arbitrary: "is" cs) (auto simp: split_def)

lemma length_twoPassRule: "length (twoPassRule g t) = 5"
  by (simp add: twoPassRule_def)

lemma evaluateGuess_colors:
  "map (map_option color) (evaluateGuess g t)
     = map Some (twoPassRule (toUpperCase g) (toUpperCase t))"
proof -
  have "map snd (zip [0..<5] (twoPassRule (toUpperCase g) (toUpperCase t)))
          = twoPassRule (toUpperCase g) (toUpperCase t)"
    by (simp add: length_twoPassRule)
  then show ?thesis unfolding evaluateGuess_rule colors_of_tiles by simp
qed

lemma colorsOf_colors:
  "map (map_option color) ev = map Some cols
     \<Longrightarrow> colorsOf ev = Some (JArr (map (\<lambda>c. JStr (colorName c)) cols))"
  by (simp add: colorsOf_def those_map_Some)

lemma processGuess_evaluation:
  assumes "processGuess d r now gid pid raw = (Success res, r')"
  shows "\<exists>g :: game. evaluation (resGuess res)
           = evaluateGuess (trim (toUpperCase raw)) (targetWord g)"
proof (cases "validateGuess d (getGameState r now gid) pid (trim (toUpperCase raw))")
  case (Inl e)
  then show ?thesis using assms validateGuess_Inl[OF Inl] processGuess_Inl[OF Inl] by auto
next
  case (Inr gp)
  obtain g p where gp: "gp = (g, p)" by (cases gp)
  have "resGuess res = snd (recordGuess g pid p (trim (toUpperCase raw)) now)"
    using assms Inr gp
    by (auto simp: processGuess_def Let_def successResult_def split_def)
  then have "evaluation (resGuess res) = evaluateGuess (trim (toUpperCase raw)) (targetWord g)"
    by (simp add: recordGuess_def Let_def)
  then show ?thesis by blast
qed

lemma notifyPlayers_events:
  "notifyPlayers reg g reason er ps qs = Inr es \<Longrightarrow> \<forall>e \<in> set es. eventName e = ''game:end''"
proof (induction qs arbitrary: es)
  case Nil
  then show ?case by simp
next
  case (Cons q qs)
  then show ?case
    by (auto simp: Let_def split: if_splits option.splits sum.splits)
qed

lemma handleGameEnd_events:
  "handleGameEnd db reg now g = (Inr es, db') \<Longrightarrow> \<forall>e \<in> set es. eventName e = ''game:end''"
  by (auto simp: handleGameEnd_def notifyGameEnd_def
      split: sum.splits prod.splits dest: notifyPlayers_events)

lemma onGameGuess_opponent_event:
  assumes "e \<in> set (fst (onGameGuess d r db reg now sid (Some pid) gid raw))"
    and "eventName e = ''game:opponent:guess''"
    and "processGuess d r now gid pid raw = (Success res, r')"
  shows "opponentGuessPayload res = Some (payload e)"
  using assms
  by (auto simp: onGameGuess_def Let_def errorEmit_def
      split: option.splits if_splits prod.splits sum.splits dest: handleGameEnd_events)


text \<open>
  \<open>getMaskedGuessForOpponent\<close> depends on the colours, the time and the number of the guess
  only.
\<close>

lemma masked_view_of_colors:
  assumes "map (map_option color) (evaluation a) = map (map_option color) (evaluation b)"
    and "timestamp a = timestamp b" "guessNumber a = guessNumber b"
  shows "getMaskedGuessForOpponent a = getMaskedGuessForOpponent b"
  using assms by (simp add: getMaskedGuessForOpponent_def colorsOf_def)

text \<open>
  C4. For every accepted guess, each \<open>game:opponent:guess\<close> event that the handler emits
  carries exactly the five colours of the evaluation and the guess number; so two accepted
  guesses with the same colours and the same guess number give the opponent the same
  payload, whatever the words were.
\<close>

theorem opponent_sees_only_colors:
  assumes "processGuess d r now gid pid raw = (Success res, r')"
    and "processGuess d2 r2 now2 gid2 pid2 raw2 = (Success res2, r2')"
    and "map (map_option color) (evaluation (resGuess res2))
           = map (map_option color) (evaluation (resGuess res))"
    and "guessNumber (resGuess res2) = guessNumber (resGuess res)"
  shows "\<exists>cols. length cols = 5
           \<and> map (map_option color) (evaluation (resGuess res)) = map Some cols
           \<and> (\<forall>e \<in> set (fst (onGameGuess d r db reg now sid (Some pid) gid raw)).
                 eventName e = ''game:opponent:guess'' \<longrightarrow>
                 payload e = JObj [(''colors'', JArr (map (\<lambda>c. JStr (colorName c)) cols)),
                                   (''guessNumber'', JNum (int (guessNumber (resGuess res))))])
           \<and> (\<forall>e \<in> set (fst (onGameGuess d2 r2 db2 reg2 now2 sid2 (Some pid2) gid2 raw2)).
                 eventName e = ''game:opponent:guess'' \<longrightarrow>
                 payload e = JObj [(''colors'', JArr (map (\<lambda>c. JStr (colorName c)) cols)),
                                   (''guessNumber'', JNum (int (guessNumber (resGuess res))))])"
proof -
  obtain g :: game where ev: "evaluation (resGuess res)
      = evaluateGuess (trim (toUpperCase raw)) (targetWord g)"
    using processGuess_evaluation[OF assms(1)] by blast
  let ?cols = "twoPassRule (toUpperCase (trim (toUpperCase raw))) (toUpperCase (targetWord g))"
  have c1: "map (map_option color) (evaluation (resGuess res)) = map Some ?cols"
    by (simp add: ev evaluateGuess_colors)
  then have c2: "map (map_option color) (evaluation (resGuess res2)) = map Some ?cols"
    using assms(3) by simp
  let ?masked = "JObj [(''colors'', JArr (map (\<lambda>c. JStr (colorName c)) ?cols)),
                       (''guessNumber'', JNum (int (guessNumber (resGuess res))))]"
  have p1: "opponentGuessPayload res = Some ?masked"
    by (simp add: opponentGuessPayload_def colorsOf_colors[OF c1])
  have p2: "opponentGuessPayload res2 = Some ?masked"
    by (simp add: opponentGuessPayload_def colorsOf_colors[OF c2] assms(4))
  have "\<forall>e \<in> set (fst (onGameGuess d r db reg now sid (Some pid) gid raw)).
                 eventName e = ''game:opponent:guess'' \<longrightarrow> payload e = ?masked"
    using onGameGuess_opponent_event[OF _ _ assms(1)] p1 by fastforce
  moreover have "\<forall>e \<in> set (fst (onGameGuess d2 r2 db2 reg2 now2 sid2 (Some pid2) gid2 raw2)).
                 eventName e = ''game:opponent:guess'' \<longrightarrow> payload e = ?masked"
    using onGameGuess_opponent_event[OF _ _ assms(2)] p2 by fastforce
  ultimately show ?thesis using c1 length_twoPassRule by blast
qed

lemma eval_blame: "evaluateGuess ''BLAME'' ''CRANE'' =
  [Some \<lparr>letter = Some CHR ''B'', color = Grey\<rparr>, Some \<lparr>letter = Some CHR ''L'', color = Grey\<rparr>,
   Some \<lparr>letter = Some CHR ''A'', color = Green\<rparr>, Some \<lparr>letter = Some CHR ''M'', color = Grey\<rparr>,
   Some \<lparr>letter = Some CHR ''E'', color = Green\<rparr>]"
  by code_simp

lemma trim_BLAME: "trim ''BLAME'' = ''BLAME''" by code_simp
lemma upper_BLAME: "toUpperCase ''BLAME'' = ''BLAME''" by code_simp
lemma pg_slate:
  "fst (processGuess sampleDict sampleStore 0 ''g1'' ''p1'' ''SLATE'') = Success (firstMiss ''SLATE'' 0)"
  by (simp add: processGuess_def Let_def upper_SLATE trim_SLATE validateGuess_def getProperty_def
      getGameState_def sampleStore_def live_def sampleGame_def samplePlayer_def isValidGuess_def
      sampleDict_eq upper_CRANE MAX_GUESSES_def isCorrectGuess_def recordGuess_def
      pushGuess_def finishIfExhausted_def allPlayersExhausted_def successResult_def
      firstMiss_def)

lemma pg_blame:
  "fst (processGuess sampleDict sampleStore 7 ''g1'' ''p2'' ''BLAME'') = Success (firstMiss ''BLAME'' 7)"
  by (simp add: processGuess_def Let_def upper_BLAME trim_BLAME validateGuess_def getProperty_def
      getGameState_def sampleStore_def live_def sampleGame_def samplePlayer_def isValidGuess_def
      sampleDict_eq upper_CRANE MAX_GUESSES_def isCorrectGuess_def recordGuess_def
      pushGuess_def finishIfExhausted_def allPlayersExhausted_def successResult_def
      firstMiss_def)

lemma get_after_slate:
  "getGameState (snd (processGuess sampleDict sampleStore 0 ''g1'' ''p1'' ''SLATE'')) 0 ''g1''
     = Some (sampleGame\<lparr>players := pushGuess ''p1'' (resGuess (firstMiss ''SLATE'' 0)) (players sampleGame),
              replayLog := [GuessEntry ''p1'' (resGuess (firstMiss ''SLATE'' 0))]\<rparr>)"
  by (simp add: processGuess_def Let_def upper_SLATE trim_SLATE validateGuess_def getProperty_def
      getGameState_def sampleStore_def live_def sampleGame_def samplePlayer_def isValidGuess_def
      sampleDict_eq upper_CRANE MAX_GUESSES_def isCorrectGuess_def recordGuess_def
      finishIfExhausted_def allPlayersExhausted_def successResult_def setGameState_def
      firstMiss_def pushGuess_def)

lemma emits_slate:
  "fst (onGameGuess sampleDict sampleStore sampleDatabase sampleRegistry 0 ''s1'' (Some ''p1'')
          ''g1'' ''SLATE'') =
     [\<lparr>toSocket = ''s1'', eventName = ''game:guess:result'',
        payload = JObj [(''word'', JStr ''SLATE''),
                        (''colors'', JArr [JStr ''grey'', JStr ''grey'', JStr ''green'',
                                           JStr ''grey'', JStr ''green'']),
                        (''guessNumber'', JNum 1), (''isCorrect'', JBool False),
                        (''remainingGuesses'', JNum 5)]\<rparr>,
      \<lparr>toSocket = ''s2'', eventName = ''game:opponent:guess'',
        payload = JObj [(''colors'', JArr [JStr ''grey'', JStr ''grey'', JStr ''green'',
                                           JStr ''grey'', JStr ''green'']),
                        (''guessNumber'', JNum 1)]\<rparr>]"
proof -
  obtain r' where r': "r' = snd (processGuess sampleDict sampleStore 0 ''g1'' ''p1'' ''SLATE'')"
    by simp
  have pg: "processGuess sampleDict sampleStore 0 ''g1'' ''p1'' ''SLATE''
      = (Success (firstMiss ''SLATE'' 0), r')"
    using pg_slate r' by (metis prod.collapse)
  have gt: "getGameState r' 0 ''g1''
     = Some (sampleGame\<lparr>players := pushGuess ''p1'' (resGuess (firstMiss ''SLATE'' 0)) (players sampleGame),
              replayLog := [GuessEntry ''p1'' (resGuess (firstMiss ''SLATE'' 0))]\<rparr>)"
    using get_after_slate r' by simp
  show ?thesis
    by (simp add: onGameGuess_def pg gt guessResultPayload_def opponentGuessPayload_def colorsOf_def
        firstMiss_def eval_slate sampleGame_def pushGuess_def sampleRegistry_def Let_def)
qed


lemma get_after_blame:
  "getGameState (snd (processGuess sampleDict sampleStore 7 ''g1'' ''p2'' ''BLAME'')) 7 ''g1''
     = Some (sampleGame\<lparr>players := pushGuess ''p2'' (resGuess (firstMiss ''BLAME'' 7)) (players sampleGame),
              replayLog := [GuessEntry ''p2'' (resGuess (firstMiss ''BLAME'' 7))]\<rparr>)"
  by (simp add: processGuess_def Let_def upper_BLAME trim_BLAME validateGuess_def getProperty_def
      getGameState_def sampleStore_def live_def sampleGame_def samplePlayer_def isValidGuess_def
      sampleDict_eq upper_CRANE MAX_GUESSES_def isCorrectGuess_def recordGuess_def
      finishIfExhausted_def allPlayersExhausted_def successResult_def setGameState_def
      firstMiss_def pushGuess_def)

lemma emits_blame:
  "fst (onGameGuess sampleDict sampleStore sampleDatabase sampleRegistry 7 ''s2'' (Some ''p2'')
          ''g1'' ''BLAME'') =
     [\<lparr>toSocket = ''s2'', eventName = ''game:guess:result'',
        payload = JObj [(''word'', JStr ''BLAME''),
                        (''colors'', JArr [JStr ''grey'', JStr ''grey'', JStr ''green'',
                                           JStr ''grey'', JStr ''green'']),
                        (''guessNumber'', JNum 1), (''isCorrect'', JBool False),
                        (''remainingGuesses'', JNum 5)]\<rparr>,
      \<lparr>toSocket = ''s1'', eventName = ''game:opponent:guess'',
        payload = JObj [(''colors'', JArr [JStr ''grey'', JStr ''grey'', JStr ''green'',
                                           JStr ''grey'', JStr ''green'']),
                        (''guessNumber'', JNum 1)]\<rparr>]"
proof -
  obtain r' where r': "r' = snd (processGuess sampleDict sampleStore 7 ''g1'' ''p2'' ''BLAME'')"
    by simp
  have pg: "processGuess sampleDict sampleStore 7 ''g1'' ''p2'' ''BLAME''
      = (Success (firstMiss ''BLAME'' 7), r')"
    using pg_blame r' by (metis prod.collapse)
  have gt: "getGameState r' 7 ''g1''
     = Some (sampleGame\<lparr>players := pushGuess ''p2'' (resGuess (firstMiss ''BLAME'' 7)) (players sampleGame),
              replayLog := [GuessEntry ''p2'' (resGuess (firstMiss ''BLAME'' 7))]\<rparr>)"
    using get_after_blame r' by simp
  show ?thesis
    by (simp add: onGameGuess_def pg gt guessResultPayload_def opponentGuessPayload_def colorsOf_def
        firstMiss_def eval_blame sampleGame_def pushGuess_def sampleRegistry_def Let_def)
qed

theorem opponent_sees_only_colors_witness:
  "processGuess sampleDict sampleStore 0 ''g1'' ''p1'' ''SLATE''
     = (Success (firstMiss ''SLATE'' 0),
        snd (processGuess sampleDict sampleStore 0 ''g1'' ''p1'' ''SLATE''))
   \<and> processGuess sampleDict sampleStore 7 ''g1'' ''p2'' ''BLAME''
     = (Success (firstMiss ''BLAME'' 7),
        snd (processGuess sampleDict sampleStore 7 ''g1'' ''p2'' ''BLAME''))
   \<and> map (map_option color) (evaluation (resGuess (firstMiss ''BLAME'' 7)))
       = map (map_option color) (evaluation (resGuess (firstMiss ''SLATE'' 0)))
   \<and> guessNumber (resGuess (firstMiss ''BLAME'' 7)) = guessNumber (resGuess (firstMiss ''SLATE'' 0))
   \<and> filter (\<lambda>e. eventName e = ''game:opponent:guess'')
        (fst (onGameGuess sampleDict sampleStore sampleDatabase sampleRegistry 0 ''s1''
                (Some ''p1'') ''g1'' ''SLATE''))
       = [\<lparr>toSocket = ''s2'', eventName = ''game:opponent:guess'',
           payload = JObj [(''colors'', JArr [JStr ''grey'', JStr ''grey'', JStr ''green'',
                                              JStr ''grey'', JStr ''green'']),
                           (''guessNumber'', JNum 1)]\<rparr>]
   \<and> map payload (filter (\<lambda>e. eventName e = ''game:opponent:guess'')
        (fst (onGameGuess sampleDict sampleStore sampleDatabase sampleRegistry 7 ''s2''
                (Some ''p2'') ''g1'' ''BLAME'')))
       = map payload (filter (\<lambda>e. eventName e = ''game:opponent:guess'')
        (fst (onGameGuess sampleDict sampleStore sampleDatabase sampleRegistry 0 ''s1''
                (Some ''p1'') ''g1'' ''SLATE'')))"
proof -
  have h1: "processGuess sampleDict sampleStore 0 ''g1'' ''p1'' ''SLATE''
     = (Success (firstMiss ''SLATE'' 0),
        snd (processGuess sampleDict sampleStore 0 ''g1'' ''p1'' ''SLATE''))"
    using pg_slate by (metis prod.collapse)
  have h2: "processGuess sampleDict sampleStore 7 ''g1'' ''p2'' ''BLAME''
     = (Success (firstMiss ''BLAME'' 7),
        snd (processGuess sampleDict sampleStore 7 ''g1'' ''p2'' ''BLAME''))"
    using pg_blame by (metis prod.collapse)
  have h3: "map (map_option color) (evaluation (resGuess (firstMiss ''BLAME'' 7)))
       = map (map_option color) (evaluation (resGuess (firstMiss ''SLATE'' 0)))"
    by (simp add: firstMiss_def eval_slate eval_blame)
  have h4: "guessNumber (resGuess (firstMiss ''BLAME'' 7)) = guessNumber (resGuess (firstMiss ''SLATE'' 0))"
    by (simp add: firstMiss_def)
  let ?P = "\<lambda>e. eventName e = ''game:opponent:guess''"
  let ?es1 = "fst (onGameGuess sampleDict sampleStore sampleDatabase sampleRegistry 0 ''s1''
                (Some ''p1'') ''g1'' ''SLATE'')"
  let ?es2 = "fst (onGameGuess sampleDict sampleStore sampleDatabase sampleRegistry 7 ''s2''
                (Some ''p2'') ''g1'' ''BLAME'')"
  obtain m where m1: "\<forall>e \<in> set ?es1. ?P e \<longrightarrow> payload e = m"
    and m2: "\<forall>e \<in> set ?es2. ?P e \<longrightarrow> payload e = m"
    using opponent_sees_only_colors[OF h1 h2 h3 h4, of sampleDatabase sampleRegistry "''s1''"
        sampleDatabase sampleRegistry "''s2''"]
    by blast
  have l1: "length (filter ?P ?es1) = 1" unfolding emits_slate by simp
  have l2: "length (filter ?P ?es2) = 1" unfolding emits_blame by simp
  have a1: "map payload (filter ?P ?es1) = replicate (length (filter ?P ?es1)) m"
    using m1 by (simp add: map_replicate_const[symmetric] cong: map_cong)
  have a2: "map payload (filter ?P ?es2) = replicate (length (filter ?P ?es2)) m"
    using m2 by (simp add: map_replicate_const[symmetric] cong: map_cong)
  have same: "map payload (filter ?P ?es2) = map payload (filter ?P ?es1)"
    using a1 a2 l1 l2 by simp
  have v1: "filter ?P ?es1
       = [\<lparr>toSocket = ''s2'', eventName = ''game:opponent:guess'',
           payload = JObj [(''colors'', JArr [JStr ''grey'', JStr ''grey'', JStr ''green'',
                                              JStr ''grey'', JStr ''green'']),
                           (''guessNumber'', JNum 1)]\<rparr>]"
    unfolding emits_slate by simp
  show ?thesis using h1 h2 h3 h4 v1 same by blast
qed

text \<open>
  The guesses of the bot reach the human in the same masked form: five colours and the guess
  number.
\<close>

lemma afterBotGuess_event:
  assumes "e \<in> set (fst (afterBotGuess db reg now gid r' ids b w res))"
    and "eventName e = ''game:opponent:guess''"
  shows "opponentGuessPayload res = Some (payload e)"
  using assms
  by (auto simp: afterBotGuess_def Let_def
      split: option.splits if_splits prod.splits sum.splits
      dest: handleGameEnd_events)

lemma onBotTimer_opponent_event:
  assumes "e \<in> set (fst (onBotTimer d r db reg now gid b guess))"
    and "eventName e = ''game:opponent:guess''"
  shows "\<exists>botId w res r'. guess = Some w
           \<and> processGuess d r now gid botId w = (Success res, r')
           \<and> opponentGuessPayload res = Some (payload e)"
proof -
  have "fst (onBotTimer d r db reg now gid b guess) \<noteq> []" using assms(1) by auto
  then obtain botId w res r' ids where g: "guess = Some w"
      and pg: "processGuess d r now gid botId w = (Success res, r')"
      and eq: "onBotTimer d r db reg now gid b guess = afterBotGuess db reg now gid r' ids b w res"
    using onBotTimer_cases[of d r db reg now gid b guess] by blast
  have "opponentGuessPayload res = Some (payload e)"
    using afterBotGuess_event[of e db reg now gid r' ids b w res] assms eq by simp
  then show ?thesis using g pg by blast
qed

lemma bot_guess_masked:
  assumes "e \<in> set (fst (onBotTimer d r db reg now gid b guess))"
    and "eventName e = ''game:opponent:guess''"
  shows "\<exists>cols n. length cols = 5
           \<and> payload e = JObj [(''colors'', JArr (map (\<lambda>c. JStr (colorName c)) cols)),
                               (''guessNumber'', JNum n)]"
proof -
  obtain botId w res r' where pg: "processGuess d r now gid botId w = (Success res, r')"
    and pl: "opponentGuessPayload res = Some (payload e)"
    using onBotTimer_opponent_event[OF assms] by blast
  obtain g :: game where ev: "evaluation (resGuess res)
      = evaluateGuess (trim (toUpperCase w)) (targetWord g)"
    using processGuess_evaluation[OF pg] by blast
  let ?cols = "twoPassRule (toUpperCase (trim (toUpperCase w))) (toUpperCase (targetWord g))"
  have c1: "map (map_option color) (evaluation (resGuess res)) = map Some ?cols"
    by (simp add: ev evaluateGuess_colors)
  have "payload e = JObj [(''colors'', JArr (map (\<lambda>c. JStr (colorName c)) ?cols)),
                          (''guessNumber'', JNum (int (guessNumber (resGuess res))))]"
    using pl by (simp add: opponentGuessPayload_def colorsOf_colors[OF c1])
  then show ?thesis using length_twoPassRule by blast
qed

end
